(* ===== verification/Prelude.thy ===== *)
theory Prelude
  imports Main "HOL-Library.Word"
begin

text \<open>
  Shared vocabulary of the development: the ways a Go computation can fail
  (a run-time panic, an \<open>error\<close> value), the signed 64-bit integers of Go's
  \<open>int\<close> and \<open>int64\<close>, the line-ending bytes, and the generic list lemmas
  the component theories use. A Go \<open>string\<close> and a Go \<open>[]byte\<close> are both
  byte sequences, so both are HOL's \<open>string\<close> (a list of 8-bit \<open>char\<close>).
\<close>

named_theorems frame \<comment> \<open>fields an operation leaves alone\<close>
named_theorems inv_intros \<comment> \<open>operations that keep the session invariant\<close>

section \<open>Panics and errors\<close>

text \<open>
  A run-time panic of a session goroutine is not recovered anywhere in the package,
  so it ends the process. Every partial operation of the code returns a value of
  \<open>'a go\<close>: \<open>Inl\<close> a panic or \<open>Inr\<close> a result.
\<close>

datatype gopanic =
    IndexOutOfRange
  | SliceBoundsOutOfRange
  | NilDereference
  | MakeSliceLenOutOfRange
  | PanicCalled

type_synonym 'a go = "gopanic + 'a"

fun go_bind :: "'a go \<Rightarrow> ('a \<Rightarrow> 'b go) \<Rightarrow> 'b go" where
  "go_bind (Inl p) f = Inl p"
| "go_bind (Inr x) f = f x"

lemma go_bind_Inr_conv: "go_bind m f = Inr y \<longleftrightarrow> (\<exists>x. m = Inr x \<and> f x = Inr y)"
  by (cases m) auto

lemma go_bind_Inl_conv:
  "go_bind m f = Inl p \<longleftrightarrow> m = Inl p \<or> (\<exists>x. m = Inr x \<and> f x = Inl p)"
  by (cases m) auto

lemma go_bind_split:
  "P (go_bind m f) \<longleftrightarrow> (\<forall>p. m = Inl p \<longrightarrow> P (Inl p)) \<and> (\<forall>x. m = Inr x \<longrightarrow> P (f x))"
  by (cases m) auto

text \<open>Indexing as Go does it: out of range is a panic.\<close>

definition go_nth :: "'a list \<Rightarrow> nat \<Rightarrow> 'a go" where
  "go_nth xs i = (if i < length xs then Inr (xs ! i) else Inl IndexOutOfRange)"

lemma go_nth_0_Cons [simp]: "go_nth (x # xs) 0 = Inr x"
  by (simp add: go_nth_def)

lemma go_nth_Nil [simp]: "go_nth [] i = Inl IndexOutOfRange"
  by (simp add: go_nth_def)

lemma go_nth_Inr_conv: "go_nth xs i = Inr x \<longleftrightarrow> i < length xs \<and> x = xs ! i"
  by (auto simp: go_nth_def)

lemma go_nth_Inl_conv: "go_nth xs i = Inl p \<longleftrightarrow> \<not> i < length xs \<and> p = IndexOutOfRange"
  by (auto simp: go_nth_def)

text \<open>
  Go error values. The two sentinels of \<open>server.go\<close> and \<open>io.EOF\<close> are compared by
  identity in the code, so they are constructors of their own; any other error is its
  dynamic type and its text.
\<close>

datatype go_error =
    ErrorRecipientNotFound
  | ErrorRecipientsMailboxFull
  | EOF
  | OtherError string string

fun Error_text :: "go_error \<Rightarrow> string" where
  "Error_text ErrorRecipientNotFound = ''Couldn't find recipient with given email address''"
| "Error_text ErrorRecipientsMailboxFull = ''Recipients mailbox is full''"
| "Error_text EOF = ''EOF''"
| "Error_text (OtherError ty msg) = msg"

fun Error_type :: "go_error \<Rightarrow> string" where
  "Error_type (OtherError ty msg) = ty"
| "Error_type _ = ''*errors.errorString''"

section \<open>Signed 64-bit integers\<close>

text \<open>
  \<open>int64 x\<close> is the value of \<open>x\<close> after Go's two's complement wrap-around;
  Go's \<open>int\<close> is 64 bits wide on the platforms the package is built for.
\<close>

definition int64 :: "int \<Rightarrow> int" where
  "int64 x = sint (word_of_int x :: 64 word)"

definition max_int64 :: int where
  "max_int64 = 2 ^ 63 - 1"

lemma int64_id: "- (2 ^ 63) \<le> x \<Longrightarrow> x \<le> max_int64 \<Longrightarrow> int64 x = x"
  by (simp add: int64_def max_int64_def sint_sbintrunc' signed_take_bit_int_eq_self)

lemma int64_le_max: "int64 x \<le> max_int64"
  using sint_lt [of "word_of_int x :: 64 word"] by (simp add: int64_def max_int64_def)

section \<open>Bytes and lists\<close>

abbreviation LF :: char where "LF \<equiv> CHR 0x0A"
abbreviation CR :: char where "CR \<equiv> CHR 0x0D"
abbreviation CRLF :: string where "CRLF \<equiv> [CR, LF]"

abbreviation byte :: "char \<Rightarrow> nat" where "byte \<equiv> of_char"

lemma takeWhile_neq_append:
  "x \<notin> set xs \<Longrightarrow> takeWhile (\<lambda>y. y \<noteq> x) (xs @ ys) = xs @ takeWhile (\<lambda>y. y \<noteq> x) ys"
  by (rule takeWhile_append2) auto

lemma dropWhile_neq_append:
  "x \<notin> set xs \<Longrightarrow> dropWhile (\<lambda>y. y \<noteq> x) (xs @ ys) = dropWhile (\<lambda>y. y \<noteq> x) ys"
  by (rule dropWhile_append2) auto

lemma takeWhile_neq_in_append:
  "x \<in> set xs \<Longrightarrow> takeWhile (\<lambda>y. y \<noteq> x) (xs @ ys) = takeWhile (\<lambda>y. y \<noteq> x) xs"
  by (rule takeWhile_append1 [of x]) auto

lemma dropWhile_neq_in_append:
  "x \<in> set xs \<Longrightarrow> dropWhile (\<lambda>y. y \<noteq> x) (xs @ ys) = dropWhile (\<lambda>y. y \<noteq> x) xs @ ys"
  by (rule dropWhile_append1 [of x]) auto

lemma dropWhile_neq_Nil_conv [simp]: "dropWhile (\<lambda>y. y \<noteq> x) xs = [] \<longleftrightarrow> x \<notin> set xs"
  by (auto simp: dropWhile_eq_Nil_conv)

lemma split_at_first:
  "x \<in> set xs \<Longrightarrow> takeWhile (\<lambda>y. y \<noteq> x) xs @ x # tl (dropWhile (\<lambda>y. y \<noteq> x) xs) = xs"
  by (induction xs) auto

lemma length_after_first:
  "x \<in> set xs \<Longrightarrow> length (dropWhile (\<lambda>y. y \<noteq> x) xs) - Suc 0 < length xs"
  using length_dropWhile_le [of "\<lambda>y. y \<noteq> x" xs] by (cases "length xs") auto

lemmas neq_append_simps =
  takeWhile_neq_append dropWhile_neq_append takeWhile_neq_in_append dropWhile_neq_in_append

end
