(* ===== verification/GoStrings.thy ===== *)
theory GoStrings
  imports Prelude
begin

text \<open>
  The parts of Go's \<open>strings\<close>, \<open>unicode\<close>, \<open>unicode/utf8\<close>, \<open>strconv\<close> and
  \<open>fmt\<close> that the package calls, over byte strings. The simple case mappings of the
  Unicode tables for runes outside ASCII are a parameter (\<open>rune_map\<close>); everything else is
  computed. The lemmas are the facts the component theories rest on: splitting and joining
  are inverse, trimming stops at the first non-space, a printed integer parses back.
\<close>

section \<open>Splitting and joining\<close>

text \<open>\<open>strings.Split(s, c)\<close> for a one-byte separator.\<close>

fun Split :: "char \<Rightarrow> string \<Rightarrow> string list" where
  "Split c [] = [[]]"
| "Split c (x # xs) =
     (if x = c then [] # Split c xs
      else case Split c xs of [] \<Rightarrow> [[x]] | p # ps \<Rightarrow> (x # p) # ps)"

text \<open>\<open>strings.SplitN(s, c, 2)\<close>.\<close>

definition SplitN2 :: "char \<Rightarrow> string \<Rightarrow> string list" where
  "SplitN2 c s =
     (if c \<in> set s
      then [takeWhile (\<lambda>x. x \<noteq> c) s, tl (dropWhile (\<lambda>x. x \<noteq> c) s)]
      else [s])"

fun Join :: "string \<Rightarrow> string list \<Rightarrow> string" where
  "Join sep [] = []"
| "Join sep [p] = p"
| "Join sep (p # q # ps) = p @ sep @ Join sep (q # ps)"

lemma Split_neq_Nil [simp]: "Split c s \<noteq> []"
  by (cases s) (auto split: list.splits)

lemma Split_no_sep: "c \<notin> set s \<Longrightarrow> Split c s = [s]"
  by (induction s) auto

lemma Split_append_sep: "c \<notin> set p \<Longrightarrow> Split c (p @ c # s) = p # Split c s"
  by (induction p) auto

lemma hd_Split: "hd (Split c s) = takeWhile (\<lambda>x. x \<noteq> c) s"
  by (induction s) (auto split: list.splits simp: neq_Nil_conv)

lemma length_Split: "length (Split c s) = Suc (count_list s c)"
  by (induction s) (auto split: list.splits)

lemma Split_parts_no_sep: "p \<in> set (Split c s) \<Longrightarrow> c \<notin> set p"
  by (induction s arbitrary: p) (auto split: if_splits list.splits)

lemma Join_Cons: "ps \<noteq> [] \<Longrightarrow> Join sep (p # ps) = p @ sep @ Join sep ps"
  by (cases ps) auto

lemma Join_Cons_hd: "Join sep ((x # p) # ps) = x # Join sep (p # ps)"
  by (cases ps) auto

text \<open>Joining the parts gives the string back, and splitting a joined list gives the list back.\<close>

lemma Join_Split: "Join [c] (Split c s) = s"
proof (induction s)
  case Nil
  then show ?case by simp
next
  case (Cons x xs)
  obtain p ps where "Split c xs = p # ps"
    by (cases "Split c xs") auto
  with Cons show ?case
    by (cases "x = c") (auto simp: Join_Cons Join_Cons_hd)
qed

lemma Split_Join:
  "ps \<noteq> [] \<Longrightarrow> \<forall>p \<in> set ps. c \<notin> set p \<Longrightarrow> Split c (Join [c] ps) = ps"
proof (induction ps)
  case Nil
  then show ?case by simp
next
  case (Cons p ps)
  show ?case
  proof (cases ps)
    case Nil
    with Cons.prems show ?thesis by (simp add: Split_no_sep)
  next
    case (Cons q qs)
    with Cons.prems Cons.IH show ?thesis
      by (simp add: Split_append_sep)
  qed
qed

lemma SplitN2_neq_Nil [simp]: "SplitN2 c s \<noteq> []"
  by (simp add: SplitN2_def)

lemma hd_SplitN2: "hd (SplitN2 c s) = takeWhile (\<lambda>x. x \<noteq> c) s"
  by (induction s) (auto simp: SplitN2_def split: if_splits)

lemma SplitN2_append: "c \<notin> set p \<Longrightarrow> SplitN2 c (p @ c # s) = [p, s]"
  by (simp add: SplitN2_def neq_append_simps)

lemma SplitN2_no_sep: "c \<notin> set s \<Longrightarrow> SplitN2 c s = [s]"
  by (simp add: SplitN2_def)

section \<open>Prefixes and suffixes\<close>

definition HasPrefix :: "string \<Rightarrow> string \<Rightarrow> bool" where
  "HasPrefix s p \<longleftrightarrow> take (length p) s = p"

definition HasSuffix :: "string \<Rightarrow> string \<Rightarrow> bool" where
  "HasSuffix s p \<longleftrightarrow> length p \<le> length s \<and> drop (length s - length p) s = p"

lemma HasPrefix_iff: "HasPrefix s p \<longleftrightarrow> (\<exists>r. s = p @ r)"
  unfolding HasPrefix_def by (metis append_eq_conv_conj append_take_drop_id)

lemma HasSuffix_iff: "HasSuffix s p \<longleftrightarrow> (\<exists>r. s = r @ p)"
proof
  assume "HasSuffix s p"
  then have "s = take (length s - length p) s @ p"
    unfolding HasSuffix_def by (metis append_take_drop_id)
  then show "\<exists>r. s = r @ p" ..
next
  assume "\<exists>r. s = r @ p"
  then show "HasSuffix s p" by (auto simp: HasSuffix_def)
qed

section \<open>White space\<close>

text \<open>
  The UTF-8 encodings of the runes \<open>unicode.IsSpace\<close> accepts. \<open>strings.TrimRightFunc\<close>
  looks at the last rune, which is a space exactly when the string ends in one of these
  (a valid encoding starts at the nearest byte that is not a continuation byte), and
  \<open>strings.TrimLeftFunc\<close> at the first one.
\<close>

definition space_encodings :: "string list" where
  "space_encodings =
     [[CHR 0x09], [CHR 0x0A], [CHR 0x0B], [CHR 0x0C], [CHR 0x0D], [CHR 0x20],
      [CHR 0xC2, CHR 0x85], [CHR 0xC2, CHR 0xA0], [CHR 0xE1, CHR 0x9A, CHR 0x80]]
     @ map (\<lambda>b. [CHR 0xE2, CHR 0x80, char_of b]) ([128..<139] @ [168, 169, 175 :: nat])
     @ [[CHR 0xE2, CHR 0x81, CHR 0x9F], [CHR 0xE3, CHR 0x80, CHR 0x80]]"

lemma space_encodings_nonempty: "e \<in> set space_encodings \<Longrightarrow> e \<noteq> []"
  by (auto simp: space_encodings_def)

function strip_left :: "string list \<Rightarrow> string \<Rightarrow> string" where
  "strip_left es s =
     (case find (\<lambda>e. e \<noteq> [] \<and> HasPrefix s e) es of
        Some e \<Rightarrow> strip_left es (drop (length e) s)
      | None \<Rightarrow> s)"
  by pat_completeness auto
termination
  by (relation "measure (\<lambda>(es, s). length s)") (auto simp: find_Some_iff HasPrefix_iff)

declare strip_left.simps [simp del]

definition TrimLeft :: "string \<Rightarrow> string" where
  "TrimLeft s = strip_left space_encodings s"

definition TrimRight :: "string \<Rightarrow> string" where
  "TrimRight s = rev (strip_left (map rev space_encodings) (rev s))"

definition TrimSpace :: "string \<Rightarrow> string" where
  "TrimSpace s = TrimRight (TrimLeft s)"

lemma strip_left_suffix: "\<exists>r. s = r @ strip_left es s"
proof (induction es s rule: strip_left.induct)
  case (1 es s)
  show ?case
  proof (cases "find (\<lambda>e. e \<noteq> [] \<and> HasPrefix s e) es")
    case None
    then show ?thesis by (subst strip_left.simps) simp
  next
    case (Some e)
    then have e: "HasPrefix s e" by (auto simp: find_Some_iff)
    from "1.IH" [OF Some] obtain r where "drop (length e) s = r @ strip_left es (drop (length e) s)"
      by blast
    with e have "s = (e @ r) @ strip_left es (drop (length e) s)"
      unfolding HasPrefix_def by (metis append_assoc append_take_drop_id)
    moreover from Some have "strip_left es s = strip_left es (drop (length e) s)"
      by (subst strip_left.simps) simp
    ultimately show ?thesis by metis
  qed
qed

lemma length_strip_left: "length (strip_left es s) \<le> length s"
  using strip_left_suffix [of s es] by (metis length_append le_add2)

lemma strip_left_fix:
  "(\<And>e. e \<in> set es \<Longrightarrow> e \<noteq> [] \<Longrightarrow> \<not> HasPrefix s e) \<Longrightarrow> strip_left es s = s"
  by (subst strip_left.simps) (auto simp: find_None_iff split: option.split dest!: find_Some_iff [THEN iffD1] nth_mem)

lemma strip_left_hd_fix:
  assumes "\<And>e. e \<in> set es \<Longrightarrow> e \<noteq> [] \<Longrightarrow> hd e \<noteq> c"
  shows "strip_left es (c # s) = c # s"
proof (rule strip_left_fix)
  fix e
  assume "e \<in> set es" and "e \<noteq> []"
  with assms have "hd e \<noteq> c" by blast
  with \<open>e \<noteq> []\<close> show "\<not> HasPrefix (c # s) e"
    by (cases e) (auto simp: HasPrefix_def)
qed

lemma TrimRight_prefix: "\<exists>r. s = TrimRight s @ r"
proof -
  obtain r where "rev s = r @ strip_left (map rev space_encodings) (rev s)"
    using strip_left_suffix by blast
  then have "s = TrimRight s @ rev r"
    unfolding TrimRight_def by (metis rev_append rev_rev_ident)
  then show ?thesis ..
qed

lemma length_TrimRight: "length (TrimRight s) \<le> length s"
  using TrimRight_prefix [of s] by (metis length_append le_add1)

lemma length_TrimSpace: "length (TrimSpace s) \<le> length s"
  using length_TrimRight [of "TrimLeft s"] length_strip_left [of space_encodings s]
  by (simp add: TrimSpace_def TrimLeft_def)

text \<open>A visible ASCII byte (not a space, not a control byte, below 128) stops the trimming.\<close>

definition graphic :: "char \<Rightarrow> bool" where
  "graphic c \<longleftrightarrow> 33 \<le> byte c \<and> byte c < 127"

lemma space_encodings_not_graphic:
  "e \<in> set space_encodings \<Longrightarrow> c \<in> set e \<Longrightarrow> \<not> graphic c"
  by (auto simp: space_encodings_def graphic_def)

lemma TrimLeft_graphic: "graphic c \<Longrightarrow> TrimLeft (c # s) = c # s"
  unfolding TrimLeft_def
  by (rule strip_left_hd_fix) (metis hd_in_set space_encodings_not_graphic)

lemma TrimRight_graphic: "graphic c \<Longrightarrow> TrimRight (s @ [c]) = s @ [c]"
proof -
  assume "graphic c"
  then have "strip_left (map rev space_encodings) (c # rev s) = c # rev s"
    by (intro strip_left_hd_fix) (auto simp: hd_rev dest: space_encodings_not_graphic [OF _ last_in_set])
  then show ?thesis by (simp add: TrimRight_def)
qed

lemma space_encodings_last:
  "\<forall>e \<in> set space_encodings. length e = 1 \<and> byte (last e) < 128
    \<or> 2 \<le> length e \<and> 128 \<le> byte (last e)"
  by code_simp

lemma TrimRight_snoc_space: "[c] \<in> set space_encodings \<Longrightarrow> TrimRight (s @ [c]) = TrimRight s"
proof -
  assume c: "[c] \<in> set space_encodings"
  let ?es = "map rev space_encodings"
  have ex: "\<exists>e. find (\<lambda>e. e \<noteq> [] \<and> HasPrefix (c # rev s) e) ?es = Some e"
    using c by (auto simp: find_None_iff HasPrefix_def simp flip: not_None_eq intro!: bexI [of _ "[c]"])
  then obtain e where e: "find (\<lambda>e. e \<noteq> [] \<and> HasPrefix (c # rev s) e) ?es = Some e" ..
  then have mem: "rev e \<in> set space_encodings" and pre: "HasPrefix (c # rev s) e" and "e \<noteq> []"
    by (auto simp: find_Some_iff)
  then have last: "last (rev e) = c"
    by (cases e) (auto simp: HasPrefix_def)
  have "byte c < 128"
    using bspec [OF space_encodings_last c] by (auto simp: space_encodings_def)
  with last bspec [OF space_encodings_last mem] have "length e = 1" by auto
  with last have "e = [c]" by (cases e) auto
  with e show ?thesis
    unfolding TrimRight_def by (subst strip_left.simps) simp
qed

lemma TrimRight_CRLF [simp]: "TrimRight (s @ [CR, LF]) = TrimRight s"
proof -
  have "TrimRight ((s @ [CR]) @ [LF]) = TrimRight (s @ [CR])"
    by (rule TrimRight_snoc_space) (simp add: space_encodings_def)
  also have "\<dots> = TrimRight s"
    by (rule TrimRight_snoc_space) (simp add: space_encodings_def)
  finally show ?thesis by simp
qed

lemma TrimRight_word: "graphic (last s) \<Longrightarrow> s \<noteq> [] \<Longrightarrow> TrimRight s = s"
  using TrimRight_graphic [of "last s" "butlast s"] by simp

lemma TrimSpace_word: "graphic (hd s) \<Longrightarrow> graphic (last s) \<Longrightarrow> s \<noteq> [] \<Longrightarrow> TrimSpace s = s"
  using TrimLeft_graphic [of "hd s" "tl s"] TrimRight_word [of s] by (simp add: TrimSpace_def)

lemma TrimSpace_CRLF: "graphic (hd s) \<Longrightarrow> graphic (last s) \<Longrightarrow> s \<noteq> [] \<Longrightarrow> TrimSpace (s @ CRLF) = s"
  using TrimLeft_graphic [of "hd s" "tl s @ CRLF"] TrimRight_word [of s] TrimRight_CRLF [of s]
  by (cases s) (simp_all add: TrimSpace_def del: last.simps TrimRight_CRLF)

section \<open>UTF-8 and letter case\<close>

text \<open>
  \<open>utf8.DecodeRuneInString\<close>: the first rune and its width; an invalid sequence is
  \<open>RuneError\<close> of width 1. \<open>utf8.EncodeRune\<close> writes \<open>RuneError\<close> for a value that is
  not a Unicode scalar.
\<close>

definition RuneError :: nat where "RuneError = 65533"

definition cont_byte :: "char \<Rightarrow> bool" where
  "cont_byte c \<longleftrightarrow> 128 \<le> byte c \<and> byte c < 192"

definition decode_rune :: "string \<Rightarrow> nat \<times> nat" where
  "decode_rune s = (case s of
      [] \<Rightarrow> (RuneError, 0)
    | a # r \<Rightarrow>
        if byte a < 128 then (byte a, 1)
        else (case r of
            [] \<Rightarrow> (RuneError, 1)
          | b # r2 \<Rightarrow>
              if 194 \<le> byte a \<and> byte a < 224 then
                (if cont_byte b then ((byte a - 192) * 64 + (byte b - 128), 2) else (RuneError, 1))
              else if 224 \<le> byte a \<and> byte a < 240 then
                (case r2 of
                   [] \<Rightarrow> (RuneError, 1)
                 | c # _ \<Rightarrow>
                     if (if byte a = 224 then 160 else 128) \<le> byte b
                        \<and> byte b < (if byte a = 237 then 160 else 192) \<and> cont_byte c
                     then ((byte a - 224) * 4096 + (byte b - 128) * 64 + (byte c - 128), 3)
                     else (RuneError, 1))
              else if 240 \<le> byte a \<and> byte a < 245 then
                (case r2 of
                   c # d # _ \<Rightarrow>
                     if (if byte a = 240 then 144 else 128) \<le> byte b
                        \<and> byte b < (if byte a = 244 then 144 else 192) \<and> cont_byte c \<and> cont_byte d
                     then ((byte a - 240) * 262144 + (byte b - 128) * 4096
                            + (byte c - 128) * 64 + (byte d - 128), 4)
                     else (RuneError, 1)
                 | _ \<Rightarrow> (RuneError, 1))
              else (RuneError, 1)))"

definition encode_rune :: "nat \<Rightarrow> string" where
  "encode_rune r =
     map char_of
      (if r < 128 then [r]
       else if r < 2048 then [192 + r div 64, 128 + r mod 64]
       else if (55296 \<le> r \<and> r < 57344) \<or> 1114112 \<le> r then [239, 191, 189]
       else if r < 65536 then [224 + r div 4096, 128 + r div 64 mod 64, 128 + r mod 64]
       else [240 + r div 262144, 128 + r div 4096 mod 64, 128 + r div 64 mod 64, 128 + r mod 64])"

text \<open>The runes a Go \<open>range\<close> loop over the string visits.\<close>

lemma decode_rune_width: "s \<noteq> [] \<Longrightarrow> 0 < snd (decode_rune s)"
  by (auto simp: decode_rune_def split: list.splits)

function runes :: "string \<Rightarrow> nat list" where
  "runes s = (if s = [] then [] else fst (decode_rune s) # runes (drop (snd (decode_rune s)) s))"
  by pat_completeness auto
termination
  by (relation "measure length") (auto simp: decode_rune_width)

declare runes.simps [simp del]

text \<open>
  \<open>strings.ToUpper\<close> and \<open>strings.ToLower\<close>: byte-wise on an ASCII string, otherwise
  \<open>strings.Map\<close> with \<open>unicode.ToUpper\<close> or \<open>unicode.ToLower\<close>, whose tables for the
  runes from 128 on are the parameter \<open>U\<close>.
\<close>

type_synonym rune_map = "nat \<Rightarrow> nat"

definition ascii :: "char \<Rightarrow> bool" where
  "ascii c \<longleftrightarrow> byte c < 128"

definition upper_byte :: "nat \<Rightarrow> nat" where
  "upper_byte n = (if 97 \<le> n \<and> n \<le> 122 then n - 32 else n)"

definition lower_byte :: "nat \<Rightarrow> nat" where
  "lower_byte n = (if 65 \<le> n \<and> n \<le> 90 then n + 32 else n)"

definition case_map :: "(nat \<Rightarrow> nat) \<Rightarrow> rune_map \<Rightarrow> string \<Rightarrow> string" where
  "case_map f U s =
     (if list_all ascii s then map (\<lambda>c. char_of (f (byte c))) s
      else concat (map (\<lambda>r. encode_rune (if r < 128 then f r else U r)) (runes s)))"

definition ToUpper :: "rune_map \<Rightarrow> string \<Rightarrow> string" where
  "ToUpper U s = case_map upper_byte U s"

definition ToLower :: "rune_map \<Rightarrow> string \<Rightarrow> string" where
  "ToLower U s = case_map lower_byte U s"

lemma ToUpper_ascii: "list_all ascii s \<Longrightarrow> ToUpper U s = map (\<lambda>c. char_of (upper_byte (byte c))) s"
  by (simp add: ToUpper_def case_map_def)

lemma ToLower_ascii: "list_all ascii s \<Longrightarrow> ToLower U s = map (\<lambda>c. char_of (lower_byte (byte c))) s"
  by (simp add: ToLower_def case_map_def)

lemma upper_lower_byte: "n < 128 \<Longrightarrow> upper_byte (lower_byte n) = upper_byte n"
  by (auto simp: upper_byte_def lower_byte_def)

lemma upper_byte_less: "n < 128 \<Longrightarrow> upper_byte n < 128"
  by (auto simp: upper_byte_def)

lemma lower_byte_less: "n < 128 \<Longrightarrow> lower_byte n < 128"
  by (auto simp: lower_byte_def)

lemma ToLower_ascii_ascii: "list_all ascii s \<Longrightarrow> list_all ascii (ToLower U s)"
  by (auto simp: ToLower_ascii list_all_iff ascii_def lower_byte_def)

lemma ToUpper_ToLower_ascii: "list_all ascii s \<Longrightarrow> ToUpper U (ToLower U s) = ToUpper U s"
  using ToLower_ascii_ascii [of s U]
  by (auto simp: ToUpper_ascii ToLower_ascii list_all_iff ascii_def upper_byte_def lower_byte_def)

section \<open>Bytes that trimming and case changes keep\<close>

lemma strip_left_keeps:
  "c \<in> set s \<Longrightarrow> (\<And>e. e \<in> set es \<Longrightarrow> c \<notin> set e) \<Longrightarrow> c \<in> set (strip_left es s)"
proof (induction es s rule: strip_left.induct)
  case (1 es s)
  show ?case
  proof (cases "find (\<lambda>e. e \<noteq> [] \<and> HasPrefix s e) es")
    case None
    with "1.prems" show ?thesis by (subst strip_left.simps) simp
  next
    case (Some e)
    then have e: "e \<in> set es" "HasPrefix s e" by (auto simp: find_Some_iff)
    with "1.prems" have "c \<in> set (drop (length e) s)" by (auto simp: HasPrefix_iff)
    with "1.IH" [OF Some] "1.prems"(2) Some show ?thesis by (subst strip_left.simps) simp
  qed
qed

lemma TrimSpace_keeps: "graphic c \<Longrightarrow> c \<in> set s \<Longrightarrow> c \<in> set (TrimSpace s)"
  unfolding TrimSpace_def TrimRight_def TrimLeft_def
  by (intro set_rev [THEN equalityD2, THEN subsetD] strip_left_keeps)
    (auto intro!: strip_left_keeps simp: space_encodings_not_graphic)

lemma decode_rune_multi:
  assumes "128 \<le> byte a"
  shows "\<forall>d \<in> set (take (snd (decode_rune (a # r)) - 1) r). 128 \<le> byte d"
proof (cases r)
  case Nil
  then show ?thesis by simp
next
  case (Cons b r2)
  have lo: "(if x then m else 128) \<le> n \<Longrightarrow> 128 \<le> m \<Longrightarrow> 128 \<le> n" for x m and n :: nat
    by (simp split: if_splits)
  consider "byte a < 194" | "194 \<le> byte a" "byte a < 224" | "224 \<le> byte a" "byte a < 240"
    | "240 \<le> byte a" "byte a < 245" | "245 \<le> byte a"
    by linarith
  then show ?thesis
  proof cases
    case 3
    have "128 \<le> byte b" if "(if byte a = 224 then 160 else 128) \<le> byte b"
      using lo [OF that] by simp
    with 3 Cons assms show ?thesis
      by (cases r2) (simp_all add: decode_rune_def cont_byte_def)
  next
    case 4
    have "128 \<le> byte b" if "(if byte a = 240 then 144 else 128) \<le> byte b"
      using lo [OF that] by simp
    with 4 Cons assms show ?thesis
      by (cases r2; cases "tl r2") (simp_all add: decode_rune_def cont_byte_def)
  qed (use Cons assms in \<open>simp_all add: decode_rune_def cont_byte_def\<close>)
qed

lemma decode_rune_drop:
  assumes "ascii c" and "c \<in> set s"
  shows "fst (decode_rune s) = byte c \<or> c \<in> set (drop (snd (decode_rune s)) s)"
proof -
  obtain a r where s: "s = a # r" using assms by (cases s) auto
  show ?thesis
  proof (cases "byte a < 128")
    case True
    with s assms show ?thesis by (auto simp: decode_rune_def)
  next
    case False
    let ?w = "snd (decode_rune (a # r))"
    have "c \<notin> set (take (?w - 1) r)" "c \<in> set r"
      using False assms decode_rune_multi [of a r] s by (auto simp: ascii_def not_less)
    then have "c \<in> set (drop (?w - 1) r)"
      by (metis Un_iff append_take_drop_id set_append)
    with decode_rune_width [of "a # r"] s show ?thesis by (cases ?w) auto
  qed
qed

lemma runes_ascii: "ascii c \<Longrightarrow> c \<in> set s \<Longrightarrow> byte c \<in> set (runes s)"
proof (induction s rule: runes.induct)
  case (1 s)
  from "1.prems" have "s \<noteq> []" by auto
  then have "runes s = fst (decode_rune s) # runes (drop (snd (decode_rune s)) s)"
    by (subst runes.simps) simp
  with decode_rune_drop [OF "1.prems"] "1.IH" \<open>s \<noteq> []\<close> "1.prems"(1) show ?case by auto
qed

text \<open>An ASCII byte that is not a letter survives a change of case.\<close>

lemma case_map_keeps:
  assumes "ascii c" and "c \<in> set s" and "f (byte c) = byte c"
  shows "c \<in> set (case_map f U s)"
proof (cases "list_all ascii s")
  case True
  have "char_of (f (byte c)) = c" using assms(3) by simp
  with True assms(2) show ?thesis by (force simp: case_map_def)
next
  case False
  from runes_ascii [OF assms(1,2)] have "byte c \<in> set (runes s)" .
  moreover have "c \<in> set (encode_rune (if byte c < 128 then f (byte c) else U (byte c)))"
    using assms by (simp add: encode_rune_def ascii_def)
  ultimately show ?thesis using False
    unfolding case_map_def by (auto intro!: bexI [of _ "byte c"])
qed

lemma ToUpper_keeps: "c \<in> set s \<Longrightarrow> byte c < 97 \<Longrightarrow> c \<in> set (ToUpper U s)"
  unfolding ToUpper_def by (rule case_map_keeps) (simp_all add: ascii_def upper_byte_def)

lemma ToUpper_fixed: "list_all (\<lambda>c. byte c < 97) s \<Longrightarrow> ToUpper U s = s"
  by (induction s) (auto simp: ToUpper_def case_map_def ascii_def upper_byte_def list_all_iff)

lemma ToLower_fixed: "list_all (\<lambda>c. byte c < 65 \<or> 90 < byte c \<and> byte c < 128) s \<Longrightarrow> ToLower U s = s"
  by (induction s) (auto simp: ToLower_def case_map_def ascii_def lower_byte_def list_all_iff)

section \<open>Integers as text\<close>

text \<open>\<open>strconv.ParseInt(s, 10, 64)\<close>: \<open>None\<close> is a syntax or range error.\<close>

definition digit_val :: "char \<Rightarrow> nat option" where
  "digit_val c = (if 48 \<le> byte c \<and> byte c \<le> 57 then Some (byte c - 48) else None)"

fun parse_digits :: "nat \<Rightarrow> string \<Rightarrow> nat option" where
  "parse_digits acc [] = Some acc"
| "parse_digits acc (c # cs) =
     (case digit_val c of None \<Rightarrow> None | Some d \<Rightarrow> parse_digits (10 * acc + d) cs)"

definition ParseInt :: "string \<Rightarrow> int option" where
  "ParseInt s = (
     let neg = (s \<noteq> [] \<and> hd s = CHR ''-'');
         ds = (if s \<noteq> [] \<and> hd s \<in> {CHR ''+'', CHR ''-''} then tl s else s)
     in if ds = [] then None
        else case parse_digits 0 ds of
            None \<Rightarrow> None
          | Some n \<Rightarrow>
              if \<not> neg \<and> 2 ^ 63 \<le> n then None
              else if neg \<and> 2 ^ 63 < n then None
              else Some (if neg then - int n else int n))"

lemma char_of_digits:
  "char_of (48 :: nat) = CHR ''0''" "char_of (49 :: nat) = CHR ''1''"
  "char_of (50 :: nat) = CHR ''2''" "char_of (51 :: nat) = CHR ''3''"
  "char_of (52 :: nat) = CHR ''4''" "char_of (53 :: nat) = CHR ''5''"
  "char_of (54 :: nat) = CHR ''6''" "char_of (55 :: nat) = CHR ''7''"
  "char_of (56 :: nat) = CHR ''8''" "char_of (57 :: nat) = CHR ''9''"
  by code_simp+

text \<open>\<open>fmt\<close>'s \<open>%d\<close>.\<close>

fun itoa_nat :: "nat \<Rightarrow> string" where
  "itoa_nat n = (if n < 10 then [char_of (48 + n)] else itoa_nat (n div 10) @ [char_of (48 + n mod 10)])"

declare itoa_nat.simps [simp del]

definition itoa :: "int \<Rightarrow> string" where
  "itoa i = (if i < 0 then CHR ''-'' # itoa_nat (nat (- i)) else itoa_nat (nat i))"

lemma parse_digits_snoc:
  "parse_digits acc (s @ [c]) =
     (case parse_digits acc s of None \<Rightarrow> None
      | Some n \<Rightarrow> (case digit_val c of None \<Rightarrow> None | Some d \<Rightarrow> Some (10 * n + d)))"
  by (induction acc s rule: parse_digits.induct) (auto split: option.splits)

lemma digit_val_char_of: "d < 10 \<Longrightarrow> digit_val (char_of (48 + d)) = Some d"
  by (simp add: digit_val_def)

lemma parse_digits_itoa_nat: "parse_digits 0 (itoa_nat n) = Some n"
proof (induction n rule: itoa_nat.induct)
  case (1 n)
  show ?case
  proof (cases "n < 10")
    case True
    then show ?thesis by (subst itoa_nat.simps) (simp add: digit_val_char_of)
  next
    case False
    with "1.IH" have "parse_digits 0 (itoa_nat (n div 10)) = Some (n div 10)" by simp
    with False show ?thesis
      by (subst itoa_nat.simps) (simp add: parse_digits_snoc digit_val_char_of)
  qed
qed

lemma itoa_nat_digits: "c \<in> set (itoa_nat n) \<Longrightarrow> 48 \<le> byte c \<and> byte c \<le> 57"
  by (induction n rule: itoa_nat.induct)
    (subst (asm) (2) itoa_nat.simps, auto split: if_splits)

lemma itoa_nat_neq_Nil [simp]: "itoa_nat n \<noteq> []"
  by (subst itoa_nat.simps) simp

lemma itoa_nat_hd: "hd (itoa_nat n) \<noteq> CHR ''-''" "hd (itoa_nat n) \<noteq> CHR ''+''"
  using itoa_nat_digits [OF hd_in_set [OF itoa_nat_neq_Nil], of n] by auto

lemma ParseInt_itoa:
  assumes "- (2 ^ 63) \<le> i" and "i \<le> max_int64"
  shows "ParseInt (itoa i) = Some i"
proof (cases "i < 0")
  case True
  with assms have "nat (- i) \<le> 2 ^ 63" by simp
  with True show ?thesis
    by (simp add: ParseInt_def itoa_def parse_digits_itoa_nat)
next
  case False
  with assms have "nat i < 2 ^ 63" by (simp add: max_int64_def)
  with False show ?thesis
    by (simp add: ParseInt_def itoa_def parse_digits_itoa_nat itoa_nat_hd)
qed

lemma ParseInt_range:
  "ParseInt s = Some i \<Longrightarrow> - (2 ^ 63) \<le> i \<and> i \<le> max_int64"
  by (auto simp: ParseInt_def Let_def max_int64_def split: if_splits option.splits)

text \<open>
  \<open>fmt.Sprintf(format, err)\<close> where the format has no verb: the unused operand is
  reported after the text.
\<close>

definition Sprintf_extra :: "string \<Rightarrow> go_error option \<Rightarrow> string" where
  "Sprintf_extra fmt e =
     fmt @ ''%!(EXTRA '' @
       (case e of None \<Rightarrow> ''<nil>'' | Some err \<Rightarrow> Error_type err @ ''='' @ Error_text err) @ '')''"

end
