(* ===== verification/Envelope.thy ===== *)
theory Envelope
  imports GoStrings "HOL-Library.AList" "HOL-Library.Multiset"
begin

text \<open>
  \<open>envelope.go\<close>: the message envelope of a session and its operations. A nil pointer is
  \<open>None\<close>; the map \<open>headers\<close> is an association list with distinct keys, and the order
  in which \<open>Close\<close> ranges over it, which Go leaves open, is an argument of
  \<open>add_headers\<close>. \<open>net/mail\<close>'s \<open>ReadMessage\<close> is a parameter that returns the
  message, or an error, and what it left unread in the buffer; \<open>textproto\<close>'s canonical
  header key is computed. The lemmas give the effect of every operation, that \<open>Close\<close>
  does not depend on the iteration order, and the transaction contract (locale
  \<open>mail_transaction\<close>) the session relies on.
\<close>

section \<open>Addresses and messages of \<open>net/mail\<close>\<close>

record mail_address =
  Name :: string
  Address :: string

record mail_message =
  Header :: "string \<rightharpoonup> string list"
  Body :: string

type_synonym message_reader = "string \<Rightarrow> (go_error + mail_message) \<times> string"

text \<open>\<open>textproto.CanonicalMIMEHeaderKey\<close>: unchanged when a byte is not a token byte.\<close>

definition header_byte :: "char \<Rightarrow> bool" where
  "header_byte c \<longleftrightarrow>
     48 \<le> byte c \<and> byte c \<le> 57 \<or> 65 \<le> byte c \<and> byte c \<le> 90 \<or> 97 \<le> byte c \<and> byte c \<le> 122 \<or>
     byte c \<in> {33, 35, 36, 37, 38, 39, 42, 43, 45, 46, 94, 95, 96, 124, 126}"

fun canonical_from :: "bool \<Rightarrow> string \<Rightarrow> string" where
  "canonical_from up [] = []"
| "canonical_from up (c # cs) =
     char_of (if up then upper_byte (byte c) else lower_byte (byte c))
       # canonical_from (c = CHR ''-'') cs"

definition CanonicalMIMEHeaderKey :: "string \<Rightarrow> string" where
  "CanonicalMIMEHeaderKey k = (if list_all header_byte k then canonical_from True k else k)"

definition Header_Get :: "(string \<rightharpoonup> string list) \<Rightarrow> string \<Rightarrow> string" where
  "Header_Get h k = (case h (CanonicalMIMEHeaderKey k) of Some (v # _) \<Rightarrow> v | _ \<Rightarrow> [])"

section \<open>The envelope\<close>

record envelope =
  MailFrom :: "mail_address option"
  MailTo :: "mail_address list"
  Mail :: "mail_message option"
  Priority :: int
  data :: "string option"
  headers :: "(string \<times> string) list"

definition NewEnvelope :: envelope where
  "NewEnvelope = \<lparr>MailFrom = None, MailTo = [], Mail = None, Priority = 0,
     data = Some [], headers = []\<rparr>"

text \<open>One round of the loop of \<open>Close\<close> over the new headers.\<close>

definition add_header :: "string \<times> string \<Rightarrow> (string \<rightharpoonup> string list) \<Rightarrow> (string \<rightharpoonup> string list)" where
  "add_header kv h =
     (let (headerKey, headerValue) = kv
      in if Header_Get h headerKey \<noteq> []
         then h(headerKey \<mapsto> (case h headerKey of None \<Rightarrow> [] | Some vs \<Rightarrow> vs) @ [headerValue])
         else h(headerKey \<mapsto> [headerValue]))"

definition add_headers :: "(string \<times> string) list \<Rightarrow> mail_message \<Rightarrow> mail_message" where
  "add_headers hs m = m\<lparr>Header := fold add_header hs (Header m)\<rparr>"

definition Envelope_Close :: "message_reader \<Rightarrow> envelope \<Rightarrow> (go_error option \<times> envelope) go" where
  "Envelope_Close rm e =
     (case data e of
        None \<Rightarrow> Inl NilDereference
      | Some d \<Rightarrow>
          (case rm d of
             (Inl err, rest) \<Rightarrow> Inr (Some err, e\<lparr>Mail := None, data := Some rest\<rparr>)
           | (Inr m, rest) \<Rightarrow>
               Inr (None, e\<lparr>Mail := Some (add_headers (headers e) m), data := Some rest\<rparr>)))"

definition IsSet :: "envelope \<Rightarrow> bool" where
  "IsSet e \<longleftrightarrow> MailFrom e \<noteq> None"

definition Envelope_Bytes :: "envelope \<Rightarrow> string go" where
  "Envelope_Bytes e = (case data e of None \<Rightarrow> Inl NilDereference | Some d \<Rightarrow> Inr d)"

text \<open>The reader over the data holds the same bytes.\<close>

definition Envelope_Reader :: "envelope \<Rightarrow> string go" where
  "Envelope_Reader e = go_bind (Envelope_Bytes e) Inr"

definition Envelope_Reset :: "envelope \<Rightarrow> envelope" where
  "Envelope_Reset e =
     e\<lparr>MailTo := [], MailFrom := None,
       data := (case data e of None \<Rightarrow> None | Some _ \<Rightarrow> Some []),
       headers := fold (\<lambda>(key, _) hs. AList.delete key hs) (headers e) (headers e)\<rparr>"

definition AddRecipient :: "mail_address \<Rightarrow> envelope \<Rightarrow> go_error option \<times> envelope" where
  "AddRecipient rcpt e = (None, e\<lparr>MailTo := MailTo e @ [rcpt]\<rparr>)"

definition BeginData :: "envelope \<Rightarrow> go_error option \<times> envelope" where
  "BeginData e =
     (if length (MailTo e) = 0
      then (Some (OtherError ''*errors.errorString'' ''554 5.5.1 Error: no valid recipients''), e)
      else (None, e\<lparr>data := Some []\<rparr>))"

text \<open>
  \<open>bytes.Buffer\<close>'s \<open>Write\<close> and \<open>WriteString\<close> accept everything and report no error.
\<close>

definition Envelope_Write :: "string \<Rightarrow> envelope \<Rightarrow> (int \<times> envelope) go" where
  "Envelope_Write line e =
     (case data e of
        None \<Rightarrow> Inl NilDereference
      | Some d \<Rightarrow> Inr (int (length line), e\<lparr>data := Some (d @ line)\<rparr>))"

definition Envelope_WriteString :: "string \<Rightarrow> envelope \<Rightarrow> (int \<times> envelope) go" where
  "Envelope_WriteString line e =
     (case data e of
        None \<Rightarrow> Inl NilDereference
      | Some d \<Rightarrow> Inr (int (length line), e\<lparr>data := Some (d @ line)\<rparr>))"

definition Envelope_WriteLine :: "string \<Rightarrow> envelope \<Rightarrow> (int \<times> envelope) go" where
  "Envelope_WriteLine line e =
     (case data e of
        None \<Rightarrow> Inl NilDereference
      | Some d \<Rightarrow> Inr (int (length (line @ CRLF)), e\<lparr>data := Some (d @ line @ CRLF)\<rparr>))"

text \<open>\<open>e.headers[k] = v\<close>.\<close>

definition set_header :: "string \<Rightarrow> string \<Rightarrow> envelope \<Rightarrow> envelope" where
  "set_header k v e = e\<lparr>headers := AList.update k v (headers e)\<rparr>"

section \<open>Effects of the operations\<close>

lemma fold_delete_all:
  "set (map fst hs) \<subseteq> set (map fst ks) \<Longrightarrow> fold (\<lambda>(key, _) hs. AList.delete key hs) ks hs = []"
proof (induction ks arbitrary: hs)
  case Nil
  then show ?case by simp
next
  case (Cons k ks)
  have "set (map fst (AList.delete (fst k) hs)) \<subseteq> set (map fst ks)"
    using Cons.prems by (auto simp: AList.delete_eq)
  from Cons.IH [OF this] show ?case by (simp add: case_prod_unfold)
qed

lemma Envelope_Reset_eq:
  "Envelope_Reset e = e\<lparr>MailTo := [], MailFrom := None, data := map_option (\<lambda>_. []) (data e), headers := []\<rparr>"
  by (cases "data e") (simp_all add: Envelope_Reset_def fold_delete_all)

lemma Envelope_Reset_sel [simp]:
  "MailTo (Envelope_Reset e) = []" "MailFrom (Envelope_Reset e) = None"
  "headers (Envelope_Reset e) = []" "Mail (Envelope_Reset e) = Mail e"
  "Priority (Envelope_Reset e) = Priority e"
  "data (Envelope_Reset e) = map_option (\<lambda>_. []) (data e)"
  by (simp_all add: Envelope_Reset_eq)

lemma add_header_commute:
  assumes "k1 \<noteq> k2" and "CanonicalMIMEHeaderKey k1 \<noteq> k2" and "CanonicalMIMEHeaderKey k2 \<noteq> k1"
  shows "add_header (k1, v1) (add_header (k2, v2) h) = add_header (k2, v2) (add_header (k1, v1) h)"
  using assms by (auto simp: add_header_def Header_Get_def fun_upd_twist)

text \<open>The keys of a header map that cannot disturb one another.\<close>

definition independent_keys :: "(string \<times> string) list \<Rightarrow> bool" where
  "independent_keys hs \<longleftrightarrow> distinct (map fst hs) \<and>
     (\<forall>k \<in> fst ` set hs. \<forall>k' \<in> fst ` set hs. k \<noteq> k' \<longrightarrow> CanonicalMIMEHeaderKey k \<noteq> k')"

lemma add_headers_permute:
  assumes "independent_keys hs" and "mset hs' = mset hs"
  shows "add_headers hs' m = add_headers hs m"
proof -
  have "add_header x \<circ> add_header y = add_header y \<circ> add_header x" if "x \<in> set hs" "y \<in> set hs" for x y
  proof (cases "fst x = fst y")
    case True
    with assms(1) that have "x = y"
      by (auto simp: independent_keys_def distinct_map dest: inj_onD)
    then show ?thesis by simp
  next
    case False
    with assms(1) that have "CanonicalMIMEHeaderKey (fst x) \<noteq> fst y" "CanonicalMIMEHeaderKey (fst y) \<noteq> fst x"
      by (auto simp: independent_keys_def)
    with False show ?thesis
      by (cases x; cases y) (auto simp: fun_eq_iff add_header_commute)
  qed
  then have "fold add_header hs = fold add_header hs'"
    using assms(2) by (intro fold_multiset_equiv) auto
  then show ?thesis by (simp add: add_headers_def)
qed








section \<open>The transaction contract\<close>

text \<open>
  What the session relies on between two resets: up to the maximum number of recipients
  (\<open>cap\<close>) recipients are added, recipients and bytes accumulate in order, and data can begin
  exactly when there is a recipient. \<open>None\<close> stands for a returned error.
\<close>

locale mail_transaction =
  fixes cap :: nat
    and ok :: "'e \<Rightarrow> bool"
    and reset :: "'e \<Rightarrow> 'e"
    and add_rcpt :: "'a \<Rightarrow> 'e \<Rightarrow> 'e option"
    and begin_data :: "'e \<Rightarrow> 'e option"
    and put :: "string \<Rightarrow> 'e \<Rightarrow> 'e go"
    and rcpts :: "'e \<Rightarrow> 'a list"
    and sender :: "'e \<Rightarrow> 'a option"
    and content :: "'e \<Rightarrow> string"
  assumes reset: "ok e \<Longrightarrow> ok (reset e) \<and> rcpts (reset e) = [] \<and> sender (reset e) = None \<and> content (reset e) = []"
    and add_rcpt: "ok e \<Longrightarrow> length (rcpts e) < cap \<Longrightarrow> \<exists>e'. add_rcpt a e = Some e' \<and> ok e' \<and>
      rcpts e' = rcpts e @ [a] \<and> sender e' = sender e \<and> content e' = content e"
    and begin_none: "begin_data e = None \<longleftrightarrow> rcpts e = []"
    and begin_some: "begin_data e = Some e' \<Longrightarrow>
      ok e' \<and> rcpts e' = rcpts e \<and> sender e' = sender e \<and> content e' = []"
    and put: "ok e \<Longrightarrow> \<exists>e'. put bs e = Inr e' \<and> ok e' \<and> rcpts e' = rcpts e \<and>
      sender e' = sender e \<and> content e' = content e @ bs"
begin

lemma add_all:
  "ok e \<Longrightarrow> length (rcpts e) + length as \<le> cap \<Longrightarrow>
   \<exists>e'. foldl Option.bind (Some e) (map add_rcpt as) = Some e' \<and> ok e' \<and> rcpts e' = rcpts e @ as \<and> sender e' = sender e"
proof (induction as arbitrary: e)
  case Nil
  then show ?case by simp
next
  case (Cons a as)
  then obtain e1 where "add_rcpt a e = Some e1" "ok e1" "rcpts e1 = rcpts e @ [a]" "sender e1 = sender e"
    using add_rcpt [of e a] by auto
  with Cons.IH [of e1] Cons.prems(2) show ?case by simp
qed

lemma put_all:
  "ok e \<Longrightarrow> \<exists>e'. foldl go_bind (Inr e) (map put bss) = Inr e' \<and> ok e' \<and> rcpts e' = rcpts e \<and>
     sender e' = sender e \<and> content e' = content e @ concat bss"
proof (induction bss arbitrary: e)
  case Nil
  then show ?case by simp
next
  case (Cons bs bss)
  then obtain e1 where "put bs e = Inr e1" "ok e1" "rcpts e1 = rcpts e" "sender e1 = sender e" "content e1 = content e @ bs"
    using put by blast
  with Cons.IH [of e1] show ?case by simp
qed

lemma transaction:
  assumes "ok e" and "length as \<le> cap"
  shows "\<exists>e1. foldl Option.bind (Some (reset e)) (map add_rcpt as) = Some e1 \<and> rcpts e1 = as \<and>
    (if as = [] then begin_data e1 = None
     else \<exists>e2 e3. begin_data e1 = Some e2 \<and> foldl go_bind (Inr e2) (map put bss) = Inr e3 \<and>
       rcpts e3 = as \<and> sender e3 = None \<and> content e3 = concat bss)"
proof -
  obtain e1 where e1: "foldl Option.bind (Some (reset e)) (map add_rcpt as) = Some e1" "rcpts e1 = as" "sender e1 = None"
    using add_all [of "reset e" as] reset [OF assms(1)] assms(2) by auto
  moreover have "\<exists>e2 e3. begin_data e1 = Some e2 \<and> foldl go_bind (Inr e2) (map put bss) = Inr e3 \<and>
       rcpts e3 = as \<and> sender e3 = None \<and> content e3 = concat bss" if "as \<noteq> []"
  proof -
    obtain e2 where e2: "begin_data e1 = Some e2" using begin_none [of e1] e1(2) \<open>as \<noteq> []\<close> by auto
    with begin_some [OF e2] put_all [of e2 bss] e1(2,3) show ?thesis by auto
  qed
  ultimately show ?thesis using begin_none [of e1] by auto
qed

end

text \<open>
  The operations of the envelope in the shape of the contract. A returned error is kept as
  \<open>None\<close>, the maximum is the default one of \<open>limits.go\<close>.
\<close>

definition env_add :: "mail_address \<Rightarrow> envelope \<Rightarrow> envelope option" where
  "env_add rcpt e = (case AddRecipient rcpt e of (None, e') \<Rightarrow> Some e' | (Some _, _) \<Rightarrow> None)"

definition env_begin :: "envelope \<Rightarrow> envelope option" where
  "env_begin e = (case BeginData e of (None, e') \<Rightarrow> Some e' | (Some _, _) \<Rightarrow> None)"

definition env_put :: "string \<Rightarrow> envelope \<Rightarrow> envelope go" where
  "env_put bs e = go_bind (Envelope_Write bs e) (\<lambda>(n, e'). Inr e')"

definition env_content :: "envelope \<Rightarrow> string" where
  "env_content e = (case data e of None \<Rightarrow> [] | Some d \<Rightarrow> d)"

interpretation env_tx: mail_transaction 200 "\<lambda>e. data e \<noteq> None" Envelope_Reset env_add env_begin env_put
  MailTo MailFrom env_content
  by unfold_locales
    (auto simp: env_add_def AddRecipient_def env_begin_def BeginData_def env_put_def
      Envelope_Write_def env_content_def split: if_splits option.splits)

section \<open>Properties\<close>

text \<open>
  C35: \<open>Close\<close> does not depend on the order in which Go ranges over the map of new
  headers, provided no key of the map is the canonical form of another one; the two keys the
  session uses, \<open>Received\<close> and \<open>Message-ID\<close>, are such keys.
\<close>

theorem Close_order_independent:
  assumes "independent_keys (headers e)" and "mset hs = mset (headers e)"
  shows "Envelope_Close rm (e\<lparr>headers := hs\<rparr>) =
    map_sum id (map_prod id (\<lambda>e'. e'\<lparr>headers := hs\<rparr>)) (Envelope_Close rm e)"
  using add_headers_permute [OF assms]
  by (simp add: Envelope_Close_def split: option.split prod.split sum.split)

theorem Close_order_independent_witness:
  "Envelope_Close (\<lambda>d. (Inr \<lparr>Header = Map.empty, Body = d\<rparr>, [])) (NewEnvelope\<lparr>headers := [(''Message-ID'', ''m''), (''Received'', ''r'')]\<rparr>) =
    map_sum id (map_prod id (\<lambda>e'. e'\<lparr>headers := [(''Message-ID'', ''m''), (''Received'', ''r'')]\<rparr>))
      (Envelope_Close (\<lambda>d. (Inr \<lparr>Header = Map.empty, Body = d\<rparr>, [])) (NewEnvelope\<lparr>headers := [(''Received'', ''r''), (''Message-ID'', ''m'')]\<rparr>))"
proof -
  have "independent_keys (headers (NewEnvelope\<lparr>headers := [(''Received'', ''r''), (''Message-ID'', ''m'')]\<rparr>))"
    by code_simp
  then have "Envelope_Close (\<lambda>d. (Inr \<lparr>Header = Map.empty, Body = d\<rparr>, [])) ((NewEnvelope\<lparr>headers := [(''Received'', ''r''), (''Message-ID'', ''m'')]\<rparr>)
      \<lparr>headers := [(''Message-ID'', ''m''), (''Received'', ''r'')]\<rparr>) =
    map_sum id (map_prod id (\<lambda>e'. e'\<lparr>headers := [(''Message-ID'', ''m''), (''Received'', ''r'')]\<rparr>))
      (Envelope_Close (\<lambda>d. (Inr \<lparr>Header = Map.empty, Body = d\<rparr>, [])) (NewEnvelope\<lparr>headers := [(''Received'', ''r''), (''Message-ID'', ''m'')]\<rparr>))"
    by (rule Close_order_independent) simp
  then show ?thesis by simp
qed



text \<open>
  \<open>Envelope.Reset\<close> empties sender, recipients, data and new headers, so the envelope
  accepts no data until a recipient is added; the priority and the parsed message of the
  previous transaction survive it.
\<close>

lemma Reset_clears_transaction:
  "MailFrom (Envelope_Reset e) = None \<and> MailTo (Envelope_Reset e) = [] \<and>
   headers (Envelope_Reset e) = [] \<and> (\<forall>d. data (Envelope_Reset e) = Some d \<longrightarrow> d = []) \<and>
   \<not> IsSet (Envelope_Reset e) \<and> fst (BeginData (Envelope_Reset e)) \<noteq> None \<and>
   Priority (Envelope_Reset e) = Priority e \<and> Mail (Envelope_Reset e) = Mail e"
  by (auto simp: IsSet_def BeginData_def)

text \<open>
  C37: One transaction on an envelope that has a buffer: after a reset, any list of at most 200
  recipients (the default maximum) is added without an error. Data is then refused if the list
  is empty; otherwise it begins, and after any writes the envelope holds exactly those
  recipients, no sender of an earlier transaction, and the concatenation of what was written,
  in order.
\<close>

theorem envelope_transaction:
  assumes "data e \<noteq> None" and "length rs \<le> 200"
  shows "\<exists>e1. foldl Option.bind (Some (Envelope_Reset e)) (map env_add rs) = Some e1 \<and> MailTo e1 = rs \<and>
    (if rs = [] then env_begin e1 = None
     else \<exists>e2 e3. env_begin e1 = Some e2 \<and> foldl go_bind (Inr e2) (map env_put bss) = Inr e3 \<and>
       MailTo e3 = rs \<and> MailFrom e3 = None \<and> env_content e3 = concat bss)"
  by (rule env_tx.transaction [OF assms])

theorem envelope_transaction_witness:
  "\<exists>e1 e2 e3. foldl Option.bind (Some (Envelope_Reset NewEnvelope)) (map env_add [\<lparr>Name = [], Address = ''a@b''\<rparr>]) = Some e1 \<and>
    env_begin e1 = Some e2 \<and> foldl go_bind (Inr e2) (map env_put [''hi'', ''there'']) = Inr e3 \<and>
    MailTo e3 = [\<lparr>Name = [], Address = ''a@b''\<rparr>] \<and> env_content e3 = ''hithere''"
proof -
  have "data NewEnvelope \<noteq> None" by (simp add: NewEnvelope_def)
  from envelope_transaction [OF this, of "[\<lparr>Name = [], Address = ''a@b''\<rparr>]" "[''hi'', ''there'']"]
  show ?thesis by auto
qed

end
