(* ===== verification/Utils.thy ===== *)
theory Utils
  imports GoStrings
begin

text \<open>
  \<open>utils.go\<close>: TLS description strings, bracket removal, the length-limited line splitter,
  slice membership and the header wrapper. \<open>wrap\<close> is modelled with the in-place slice
  operations of the code (append, overlapping copy, three stores) and proved equal to a
  one-pass reference, from which its folding properties follow. The text of a TLS version and
  cipher suite comes from the third-party package \<open>tlstext\<close> and is a parameter.
\<close>

section \<open>TLS description\<close>

text \<open>The two fields of \<open>tls.ConnectionState\<close> the descriptions are made from.\<close>

record tls_state =
  tls_Version :: "16 word"
  tls_CipherSuite :: "16 word"

definition zero_tls_state :: tls_state where
  "zero_tls_state = \<lparr>tls_Version = 0, tls_CipherSuite = 0\<rparr>"

definition tlsVersionString :: "(tls_state \<Rightarrow> string) \<Rightarrow> tls_state \<Rightarrow> string" where
  "tlsVersionString VersionFromConnection conn = VersionFromConnection conn"

definition tlsCiherSuiteString :: "(tls_state \<Rightarrow> string) \<Rightarrow> tls_state \<Rightarrow> string" where
  "tlsCiherSuiteString CipherSuiteFromConnection conn = CipherSuiteFromConnection conn"

definition tlsInfo ::
  "(tls_state \<Rightarrow> string) \<Rightarrow> (tls_state \<Rightarrow> string) \<Rightarrow> tls_state \<Rightarrow> string" where
  "tlsInfo ver cip conn =
     ''(using '' @ tlsVersionString ver conn @ '' with cipher '' @ tlsCiherSuiteString cip conn @ '')''"

section \<open>Brackets, slices, line splitting\<close>

definition removeBrackets :: "string \<Rightarrow> string" where
  "removeBrackets s =
     (let s1 = (if HasPrefix s ''<'' then drop 1 s else s)
      in if HasSuffix s1 ''>'' then take (length s1 - 1) s1 else s1)"

fun stringInSlice :: "string \<Rightarrow> string list \<Rightarrow> bool" where
  "stringInSlice a [] = False"
| "stringInSlice a (b # list) = (if b = a then True else stringInSlice a list)"

abbreviation maxCommandLineLength :: nat where "maxCommandLineLength \<equiv> 512"

definition dropCR :: "string \<Rightarrow> string" where
  "dropCR data =
     (if 0 < length data \<and> data ! (length data - 1) = CR then take (length data - 1) data else data)"

definition IndexByte :: "string \<Rightarrow> char \<Rightarrow> nat option" where
  "IndexByte s c = (if c \<in> set s then Some (length (takeWhile (\<lambda>x. x \<noteq> c) s)) else None)"

text \<open>The advance and the token, \<open>None\<close> for a nil token; the error result is always nil.\<close>

definition limitedLineSplitter :: "string \<Rightarrow> bool \<Rightarrow> nat \<times> string option" where
  "limitedLineSplitter data atEOF =
     (if atEOF \<and> length data = 0 then (0, None)
      else case IndexByte data LF of
          Some i \<Rightarrow>
            if i < maxCommandLineLength then (i + 1, Some (dropCR (take i data)))
            else let l = min (length data) maxCommandLineLength
                 in (l + 1, Some (dropCR (take l data)))
        | None \<Rightarrow> if atEOF then (length data, Some (dropCR data)) else (0, None))"

text \<open>\<open>DummyMailStore.Handle\<close>: the identifier it returns; it never fails.\<close>

definition DummyMailStore_Handle :: "'e \<Rightarrow> string \<Rightarrow> go_error + string" where
  "DummyMailStore_Handle env user = Inr ''QUEUED_MAIL_ID''"

section \<open>Header wrapping\<close>

text \<open>Go's \<open>copy(sl[d:], sl[s:])\<close> on one slice, overlapping regions included.\<close>

definition copy_within :: "nat \<Rightarrow> nat \<Rightarrow> string \<Rightarrow> string" where
  "copy_within d s sl =
     take d sl @ take (length sl - d) (drop s sl) @ drop (d + (length sl - s)) sl"

definition wrap_step :: "string \<Rightarrow> nat \<Rightarrow> nat \<Rightarrow> string \<times> nat \<times> nat" where
  "wrap_step sl i n =
     (let (sl, i, n) =
        (if 76 < n \<and> sl ! i = CHR '' ''
         then let sl1 = sl @ [CHR 0x00, CHR 0x00];
                  sl2 = copy_within (i + 2) i sl1;
                  sl3 = sl2[i := CR, i + 1 := LF, i + 2 := CHR 0x09]
              in (sl3, i + 2, 0)
         else (sl, i, n));
        n = (if sl ! i = LF then 0 else n)
      in (sl, i + 1, n + 1))"

lemma wrap_step_fold:
  assumes "i < length sl" and "76 < n" and "sl ! i = CHR '' ''"
  shows "wrap_step sl i n = (take i sl @ [CR, LF, CHR 0x09] @ drop (Suc i) sl, i + 3, 1)"
proof -
  define a where "a = take i sl"
  define b where "b = drop (Suc i) sl"
  have sl: "sl = a @ CHR '' '' # b"
    unfolding a_def b_def using assms by (metis id_take_nth_drop)
  have i: "i = length a" using assms(1) by (simp add: a_def)
  have cp: "copy_within (i + 2) i (sl @ [CHR 0x00, CHR 0x00]) =
      take (i + 2) (sl @ [CHR 0x00, CHR 0x00]) @ CHR '' '' # b"
    unfolding sl i by (simp add: copy_within_def)
  obtain x y where "take (i + 2) (sl @ [CHR 0x00, CHR 0x00]) = a @ [x, y]"
    unfolding sl i by (cases b) auto
  with cp have eq: "copy_within (i + 2) i (sl @ [CHR 0x00, CHR 0x00]) = a @ x # y # CHR '' '' # b"
    by (simp only: append.simps append_assoc)
  have "(copy_within (i + 2) i (sl @ [CHR 0x00, CHR 0x00]))
      [i := CR, i + 1 := LF, i + 2 := CHR 0x09] = a @ [CR, LF, CHR 0x09] @ b"
    unfolding eq unfolding i by (simp add: list_update_append)
  with assms show ?thesis
    by (simp add: wrap_step_def a_def b_def nth_append)
qed

lemma wrap_step_keep:
  assumes "\<not> (76 < n \<and> sl ! i = CHR '' '')"
  shows "wrap_step sl i n = (sl, i + 1, (if sl ! i = LF then 1 else n + 1))"
  using assms by (auto simp: wrap_step_def)

lemma wrap_step_decreases:
  assumes "i < length sl" and "wrap_step sl i n = (sl', i', n')"
  shows "length sl' - i' < length sl - i"
proof (cases "76 < n \<and> sl ! i = CHR '' ''")
  case True
  with assms show ?thesis by (auto simp: wrap_step_fold)
next
  case False
  with assms show ?thesis by (auto simp: wrap_step_keep)
qed

function wrap_loop :: "string \<Rightarrow> nat \<Rightarrow> nat \<Rightarrow> string" where
  "wrap_loop sl i n =
     (if i < length sl then (case wrap_step sl i n of (sl', i', n') \<Rightarrow> wrap_loop sl' i' n') else sl)"
  by pat_completeness auto
termination
  by (relation "measure (\<lambda>(sl, i, n). length sl - i)") (auto split: prod.split intro: wrap_step_decreases)

declare wrap_loop.simps [simp del]

definition wrap :: "string \<Rightarrow> string" where
  "wrap sl = wrap_loop sl 0 0"

text \<open>
  The reference: one pass over the bytes with the counter of the bytes since the last line
  break; a space met when the counter is beyond 76 becomes CR LF TAB.
\<close>

fun wrap_ref :: "nat \<Rightarrow> string \<Rightarrow> string" where
  "wrap_ref n [] = []"
| "wrap_ref n (c # cs) =
     (if 76 < n \<and> c = CHR '' '' then [CR, LF, CHR 0x09] @ wrap_ref 1 cs
      else c # wrap_ref (if c = LF then 1 else n + 1) cs)"

lemma wrap_loop_ref: "i \<le> length sl \<Longrightarrow> wrap_loop sl i n = take i sl @ wrap_ref n (drop i sl)"
proof (induction sl i n rule: wrap_loop.induct)
  case (1 sl i n)
  show ?case
  proof (cases "i < length sl")
    case False
    with "1.prems" show ?thesis by (subst wrap_loop.simps) simp
  next
    case i: True
    obtain sl' i' n' where st: "wrap_step sl i n = (sl', i', n')"
      by (metis prod_cases3)
    have IH: "i' \<le> length sl' \<Longrightarrow> wrap_loop sl' i' n' = take i' sl' @ wrap_ref n' (drop i' sl')"
      using "1.IH" [OF i] st by simp
    have drop: "drop i sl = sl ! i # drop (Suc i) sl"
      using i by (simp add: Cons_nth_drop_Suc)
    have unf: "wrap_loop sl i n = wrap_loop sl' i' n'"
      using i st by (subst wrap_loop.simps) simp
    show ?thesis
    proof (cases "76 < n \<and> sl ! i = CHR '' ''")
      case True
      with st i have "sl' = take i sl @ [CR, LF, CHR 0x09] @ drop (Suc i) sl" "i' = i + 3" "n' = 1"
        by (auto simp: wrap_step_fold)
      with IH unf i True show ?thesis by (simp add: drop)
    next
      case False
      with st have "sl' = sl" "i' = i + 1" "n' = (if sl ! i = LF then 1 else n + 1)"
        by (auto simp: wrap_step_keep)
      with IH unf i False show ?thesis by (auto simp: drop take_Suc_conv_app_nth)
    qed
  qed
qed

section \<open>Properties\<close>

text \<open>
  C23: The in-place loop of \<open>wrap\<close> terminates on every input and computes the one-pass
  reference: the append, the overlapping copy and the three stores together replace the
  space by CR LF TAB and lose or duplicate no other byte.
\<close>

theorem wrap_eq_ref: "wrap sl = wrap_ref 0 sl"
  by (simp add: wrap_def wrap_loop_ref)

text \<open>Unfolding a header: every CR LF TAB becomes a space.\<close>

fun unfold_header :: "string \<Rightarrow> string" where
  "unfold_header [] = []"
| "unfold_header (c # cs) =
     (if c = CR \<and> HasPrefix cs [LF, CHR 0x09] then CHR '' '' # unfold_header (drop 2 cs)
      else c # unfold_header cs)"

fun has_fold :: "string \<Rightarrow> bool" where
  "has_fold [] = False"
| "has_fold (c # cs) = ((c = CR \<and> HasPrefix cs [LF, CHR 0x09]) \<or> has_fold cs)"

lemma HasPrefix_2: "HasPrefix (x # y # s) [a, b] \<longleftrightarrow> x = a \<and> y = b"
  by (simp add: HasPrefix_def)

lemma wrap_ref_prefix_fold:
  "HasPrefix (wrap_ref n cs) [LF, CHR 0x09] \<Longrightarrow> HasPrefix cs [LF, CHR 0x09]"
proof -
  assume "HasPrefix (wrap_ref n cs) [LF, CHR 0x09]"
  then show ?thesis
    by (cases cs; cases "tl cs") (auto simp: HasPrefix_def split: if_splits)
qed

lemma unfold_wrap_ref: "\<not> has_fold s \<Longrightarrow> unfold_header (wrap_ref n s) = s"
  by (induction n s rule: wrap_ref.induct) (auto simp: HasPrefix_2 dest: wrap_ref_prefix_fold)

text \<open>
  C24: Wrapping only folds: unfolding a wrapped header (turning every CR LF TAB back into a
  space) gives the header back, for every header that does not contain a fold already.
\<close>

theorem unfold_wrap: "\<not> has_fold s \<Longrightarrow> unfold_header (wrap s) = s"
  by (simp add: wrap_def wrap_loop_ref unfold_wrap_ref)

theorem unfold_wrap_witness:
  "unfold_header (wrap (replicate 80 CHR ''x'' @ '' y'')) = replicate 80 CHR ''x'' @ '' y'' \<and>
   wrap (replicate 80 CHR ''x'' @ '' y'') \<noteq> replicate 80 CHR ''x'' @ '' y''"
proof
  have "\<not> has_fold (replicate 80 CHR ''x'' @ '' y'')"
    by code_simp
  then show "unfold_header (wrap (replicate 80 CHR ''x'' @ '' y'')) = replicate 80 CHR ''x'' @ '' y''"
    by (rule unfold_wrap)
  have "wrap_ref 0 (replicate 80 CHR ''x'' @ '' y'') \<noteq> replicate 80 CHR ''x'' @ '' y''"
    by code_simp
  then show "wrap (replicate 80 CHR ''x'' @ '' y'') \<noteq> replicate 80 CHR ''x'' @ '' y''"
    by (simp add: wrap_def wrap_loop_ref)
qed

text \<open>No space stands beyond column \<open>m\<close> of its line, counting from column \<open>n\<close>.\<close>

fun spaces_within :: "nat \<Rightarrow> nat \<Rightarrow> string \<Rightarrow> bool" where
  "spaces_within m n [] = True"
| "spaces_within m n (c # cs) =
     ((c = CHR '' '' \<longrightarrow> n \<le> m) \<and> spaces_within m (if c = LF then 1 else n + 1) cs)"

lemma spaces_within_wrap_ref: "k \<le> n + 1 \<Longrightarrow> spaces_within 77 k (wrap_ref n s)"
  by (induction n s arbitrary: k rule: wrap_ref.induct) auto

text \<open>
  C25: A wrapped header has no space beyond column 77 of a line: a line is longer only where
  a single word is.
\<close>

theorem wrap_spaces_within: "spaces_within 77 0 (wrap s)"
  by (simp add: wrap_def wrap_loop_ref spaces_within_wrap_ref)

text \<open>
  \<open>limitedLineSplitter\<close> keeps the contract of a \<open>bufio.Scanner\<close> split function: it
  never advances beyond the data, it makes progress whenever it returns a token, and a token
  cut from data that holds a line feed is at most 512 bytes long and holds none itself.
\<close>

lemma limitedLineSplitter_contract:
  assumes "limitedLineSplitter data atEOF = (advance, token)"
  shows "advance \<le> length data \<and>
    (token \<noteq> None \<longrightarrow> 0 < advance) \<and>
    (\<forall>t. token = Some t \<and> LF \<in> set data \<longrightarrow> length t \<le> maxCommandLineLength \<and> LF \<notin> set t)"
proof (cases "LF \<in> set data")
  case False
  with assms show ?thesis
    by (auto simp: limitedLineSplitter_def IndexByte_def split: if_splits)
next
  case True
  let ?i = "length (takeWhile (\<lambda>x. x \<noteq> LF) data)"
  have lt: "?i < length data"
    using arg_cong [OF split_at_first [OF True], of length] by simp
  have "LF \<notin> set (take k data)" if "k \<le> ?i" for k
  proof -
    have "take k data = take k (takeWhile (\<lambda>x. x \<noteq> LF) data)"
      using that by (metis takeWhile_eq_take take_take min.absorb1)
    then show ?thesis by (metis in_set_takeD set_takeWhileD)
  qed
  moreover have "set (dropCR t) \<subseteq> set t" "length (dropCR t) \<le> length t" for t
    by (auto simp: dropCR_def dest: in_set_takeD)
  ultimately have tok: "LF \<notin> set (dropCR (take k data)) \<and> length (dropCR (take k data)) \<le> k"
    if "k \<le> ?i" for k
    using that by (metis length_take min.cobounded2 order_trans subsetD)
  show ?thesis
  proof (cases "?i < maxCommandLineLength")
    case True
    with assms \<open>LF \<in> set data\<close> lt tok [of ?i] show ?thesis
      by (auto simp: limitedLineSplitter_def IndexByte_def split: if_splits)
  next
    case False
    with assms \<open>LF \<in> set data\<close> lt tok [of maxCommandLineLength] show ?thesis
      by (auto simp: limitedLineSplitter_def IndexByte_def Let_def split: if_splits)
  qed
qed

text \<open>
  \<open>removeBrackets\<close> undoes one pair of angle brackets around a text and leaves a text
  without them alone.
\<close>

lemma removeBrackets_bracketed:
  "removeBrackets (''<'' @ s @ ''>'') = s \<and>
   (\<not> HasPrefix s ''<'' \<and> \<not> HasSuffix s ''>'' \<longrightarrow> removeBrackets s = s)"
  by (auto simp: removeBrackets_def Let_def HasPrefix_def HasSuffix_def)

lemma stringInSlice_iff: "stringInSlice a list \<longleftrightarrow> a \<in> set list"
  by (induction list) auto

end
