(* ===== verification/Bufio.thy ===== *)
theory Bufio
  imports Prelude
begin

text \<open>
  The buffered connection of a session: Go's \<open>bufio.Reader\<close> and \<open>bufio.Writer\<close> over a
  \<open>net.Conn\<close>, as far as \<open>session.go\<close> uses them (\<open>ReadString\<close>, \<open>Read\<close>,
  \<open>WriteString\<close>, \<open>Flush\<close>). The receiving side of the connection is the list of the
  results its \<open>Read\<close> will give: a segment of bytes, or an error (a deadline, a reset);
  after the last one it reports \<open>EOF\<close> for ever. A segment longer than the space offered is
  delivered in parts, and an empty segment is no result at all, since \<open>net.Conn\<close> blocks
  until it has a byte or an error. The sending side accepts \<open>wcap\<close> more bytes
  (\<open>None\<close>: no bound) and then fails; the writer's error is sticky.

  The lemmas show that \<open>ReadString\<close> terminates, consumes input, and depends on the byte
  stream only, not on how the network cut it (locale \<open>line_source\<close>); \<open>Read\<close> does not
  have that property, which is why it is modelled with the buffer and the segments.
\<close>

section \<open>The connection\<close>

datatype netread = Chunk string | NetErr go_error

fun conn_read :: "nat \<Rightarrow> netread list \<Rightarrow> (go_error + string) \<times> netread list" where
  "conn_read n [] = (Inl EOF, [])"
| "conn_read n (NetErr e # es) = (Inl e, es)"
| "conn_read n (Chunk d # es) =
     (if d = [] then conn_read n es
      else (Inr (take n d), if length d \<le> n then es else Chunk (drop n d) # es))"

record bufio =
  rbuf :: string
  net :: "netread list"
  written :: string
  wcap :: "nat option"
  werr :: bool

definition NewReadWriter :: "netread list \<Rightarrow> nat option \<Rightarrow> bufio" where
  "NewReadWriter es cap = \<lparr>rbuf = [], net = es, written = [], wcap = cap, werr = False\<rparr>"

fun net_size :: "netread list \<Rightarrow> nat" where
  "net_size [] = 0"
| "net_size (NetErr e # es) = Suc (net_size es)"
| "net_size (Chunk d # es) = Suc (length d + net_size es)"

definition input_size :: "bufio \<Rightarrow> nat" where
  "input_size b = length (rbuf b) + net_size (net b)"

lemma conn_read_size_Inr:
  "conn_read n es = (Inr d, es') \<Longrightarrow> length d + net_size es' \<le> net_size es \<and> (0 < n \<longrightarrow> d \<noteq> [])"
  by (induction n es rule: conn_read.induct) (auto split: if_splits)

lemma conn_read_size: "net_size (snd (conn_read n es)) \<le> net_size es"
  by (induction n es rule: conn_read.induct) auto

lemma conn_read_error_size: "conn_read n es = (Inl e, es') \<Longrightarrow> net_size es' \<le> net_size es"
  by (metis conn_read_size snd_conv)

section \<open>Reading\<close>

abbreviation defaultBufSize :: nat where "defaultBufSize \<equiv> 4096"

text \<open>
  \<open>ReadString('\n')\<close>: search the buffer; when it is full without a delimiter keep its
  contents as a fragment and empty it; otherwise fill it with one \<open>Read\<close> of the connection.
  On an error the bytes read so far are consumed (the callers drop them).
\<close>

lemma conn_read_progress:
  assumes "conn_read n es = (Inr d, es')" and "0 < n"
  shows "net_size es' < net_size es"
  using conn_read_size_Inr [OF assms(1)] assms(2) by (cases d) auto

function read_delim :: "string \<Rightarrow> string \<Rightarrow> netread list \<Rightarrow> (go_error + string) \<times> string \<times> netread list" where
  "read_delim acc buf es =
     (if LF \<in> set buf
      then (Inr (acc @ takeWhile (\<lambda>c. c \<noteq> LF) buf @ [LF]), tl (dropWhile (\<lambda>c. c \<noteq> LF) buf), es)
      else if defaultBufSize \<le> length buf then read_delim (acc @ buf) [] es
      else (case conn_read (defaultBufSize - length buf) es of
          (Inl e, es') \<Rightarrow> (Inl e, [], es')
        | (Inr d, es') \<Rightarrow> read_delim acc (buf @ d) es'))"
  by pat_completeness auto
termination
  by (relation "measures [\<lambda>(acc, buf, es). net_size es, \<lambda>(acc, buf, es). length buf]")
    (auto dest: conn_read_progress [OF sym])

declare read_delim.simps [simp del]

definition ReadString :: "bufio \<Rightarrow> (go_error + string) \<times> bufio" where
  "ReadString b =
     (case read_delim [] (rbuf b) (net b) of (r, buf, es) \<Rightarrow> (r, b\<lparr>rbuf := buf, net := es\<rparr>))"

text \<open>
  \<open>Read(p)\<close> for a slice of \<open>n\<close> bytes: what is buffered, or else what one \<open>Read\<close> of
  the connection gives (directly into a slice at least as large as the buffer).
\<close>

definition bufio_Read :: "nat \<Rightarrow> bufio \<Rightarrow> (go_error + string) \<times> bufio" where
  "bufio_Read n b =
     (if n = 0 then (Inr [], b)
      else if rbuf b = [] then
        (if defaultBufSize \<le> n
         then (case conn_read n (net b) of (r, es) \<Rightarrow> (r, b\<lparr>net := es\<rparr>))
         else (case conn_read defaultBufSize (net b) of
             (Inl e, es) \<Rightarrow> (Inl e, b\<lparr>net := es\<rparr>)
           | (Inr d, es) \<Rightarrow> (Inr (take n d), b\<lparr>rbuf := drop n d, net := es\<rparr>)))
      else (Inr (take n (rbuf b)), b\<lparr>rbuf := drop n (rbuf b)\<rparr>))"

section \<open>Writing\<close>

text \<open>
  The writes of one reply followed by \<open>Flush\<close>: \<open>True\<close> when everything was delivered.
\<close>

definition write_flush :: "string \<Rightarrow> bufio \<Rightarrow> bool \<times> bufio" where
  "write_flush d b =
     (if werr b then (False, b)
      else case wcap b of
          None \<Rightarrow> (True, b\<lparr>written := written b @ d\<rparr>)
        | Some k \<Rightarrow>
            if length d \<le> k then (True, b\<lparr>written := written b @ d, wcap := Some (k - length d)\<rparr>)
            else (False, b\<lparr>written := written b @ take k d, wcap := Some 0, werr := True\<rparr>))"

lemma write_flush_frame [frame]:
  "rbuf (snd (write_flush d b)) = rbuf b" "net (snd (write_flush d b)) = net b"
  by (auto simp: write_flush_def split: option.splits)

lemma input_size_write_flush [frame]: "input_size (snd (write_flush d b)) = input_size b"
  by (simp add: input_size_def frame)

text \<open>A connection whose peer keeps reading: every flush succeeds.\<close>

definition writable :: "bufio \<Rightarrow> bool" where
  "writable b \<longleftrightarrow> \<not> werr b \<and> wcap b = None"

lemma write_flush_writable:
  "writable b \<Longrightarrow> write_flush d b = (True, b\<lparr>written := written b @ d\<rparr>)"
  by (simp add: write_flush_def writable_def)

lemma write_flush_written: "\<exists>k. written (snd (write_flush d b)) = written b @ take k d"
  by (auto simp: write_flush_def split: option.splits intro: exI [of _ 0] exI [of _ "length d"])

section \<open>Consumption\<close>

text \<open>The four ways a round of \<open>read_delim\<close> can go, as equations and as an induction rule.\<close>

lemma read_delim_eqs:
  "LF \<in> set buf \<Longrightarrow> read_delim acc buf es =
     (Inr (acc @ takeWhile (\<lambda>c. c \<noteq> LF) buf @ [LF]), tl (dropWhile (\<lambda>c. c \<noteq> LF) buf), es)"
  "LF \<notin> set buf \<Longrightarrow> defaultBufSize \<le> length buf \<Longrightarrow>
     read_delim acc buf es = read_delim (acc @ buf) [] es"
  "LF \<notin> set buf \<Longrightarrow> length buf < defaultBufSize \<Longrightarrow>
     conn_read (defaultBufSize - length buf) es = (Inl e, es') \<Longrightarrow>
     read_delim acc buf es = (Inl e, [], es')"
  "LF \<notin> set buf \<Longrightarrow> length buf < defaultBufSize \<Longrightarrow>
     conn_read (defaultBufSize - length buf) es = (Inr d, es') \<Longrightarrow>
     read_delim acc buf es = read_delim acc (buf @ d) es'"
  by (subst read_delim.simps, simp)+

lemma read_delim_induct [case_names found full fail fill]:
  assumes found: "\<And>acc buf es. LF \<in> set buf \<Longrightarrow> P acc buf es"
    and full: "\<And>acc buf es. LF \<notin> set buf \<Longrightarrow> defaultBufSize \<le> length buf \<Longrightarrow>
      P (acc @ buf) [] es \<Longrightarrow> P acc buf es"
    and fail: "\<And>acc buf es e es'. LF \<notin> set buf \<Longrightarrow> length buf < defaultBufSize \<Longrightarrow>
      conn_read (defaultBufSize - length buf) es = (Inl e, es') \<Longrightarrow> P acc buf es"
    and fill: "\<And>acc buf es d es'. LF \<notin> set buf \<Longrightarrow> length buf < defaultBufSize \<Longrightarrow>
      conn_read (defaultBufSize - length buf) es = (Inr d, es') \<Longrightarrow> P acc (buf @ d) es' \<Longrightarrow> P acc buf es"
  shows "P acc buf es"
proof (induction acc buf es rule: read_delim.induct)
  case (1 acc buf es)
  obtain x es' where r: "conn_read (defaultBufSize - length buf) es = (x, es')"
    by fastforce
  consider "LF \<in> set buf" | "LF \<notin> set buf" "defaultBufSize \<le> length buf"
    | "LF \<notin> set buf" "length buf < defaultBufSize"
    by linarith
  then show ?case
  proof cases
    case 3
    with r "1.IH"(2) show ?thesis
      by (cases x) (auto intro: fail fill)
  qed (use "1.IH"(1) in \<open>auto intro: found full\<close>)
qed

lemma read_delim_size:
  "read_delim acc buf es = (r, buf', es') \<Longrightarrow>
   length buf' + net_size es' \<le> length buf + net_size es \<and>
   (\<forall>l. r = Inr l \<longrightarrow> length buf' + net_size es' < length buf + net_size es)"
proof (induction acc buf es rule: read_delim_induct)
  case (found acc buf es)
  with length_after_first [OF found(1)] show ?case
    by (auto simp: read_delim_eqs)
next
  case (full acc buf es)
  then show ?case by (fastforce simp: read_delim_eqs)
next
  case (fail acc buf es e es')
  then show ?case by (auto simp: read_delim_eqs dest: conn_read_error_size)
next
  case (fill acc buf es d es1)
  from conn_read_size_Inr [OF fill(3)] have "length d + net_size es1 \<le> net_size es" ..
  with fill show ?case by (fastforce simp: read_delim_eqs)
qed

lemma ReadString_frame [frame]:
  "ReadString b = (r, b') \<Longrightarrow> written b' = written b"
  "ReadString b = (r, b') \<Longrightarrow> wcap b' = wcap b"
  "ReadString b = (r, b') \<Longrightarrow> werr b' = werr b"
  by (auto simp: ReadString_def split: prod.splits)

lemma ReadString_writable [frame]: "ReadString b = (r, b') \<Longrightarrow> writable b' = writable b"
  using ReadString_frame by (simp add: writable_def)

lemma ReadString_size: "ReadString b = (r, b') \<Longrightarrow> input_size b' \<le> input_size b"
  by (auto simp: ReadString_def input_size_def dest: read_delim_size split: prod.splits)

lemma ReadString_progress: "ReadString b = (Inr l, b') \<Longrightarrow> input_size b' < input_size b"
  by (auto simp: ReadString_def input_size_def dest: read_delim_size split: prod.splits)

lemma bufio_Read_size: "input_size (snd (bufio_Read n b)) \<le> input_size b"
  using conn_read_size [of n "net b"] conn_read_size [of defaultBufSize "net b"]
  by (auto simp: bufio_Read_def input_size_def split: prod.splits sum.splits
      dest: conn_read_size_Inr)

lemma bufio_Read_frame [frame]:
  "written (snd (bufio_Read n b)) = written b"
  "wcap (snd (bufio_Read n b)) = wcap b"
  "werr (snd (bufio_Read n b)) = werr b"
  by (auto simp: bufio_Read_def split: prod.splits sum.splits)

section \<open>The byte stream\<close>

text \<open>
  The bytes that arrive before the next failure, that failure, and what the connection
  reports after it.
\<close>

fun net_bytes :: "netread list \<Rightarrow> string" where
  "net_bytes [] = []"
| "net_bytes (NetErr e # es) = []"
| "net_bytes (Chunk d # es) = d @ net_bytes es"

fun net_failure :: "netread list \<Rightarrow> go_error" where
  "net_failure [] = EOF"
| "net_failure (NetErr e # es) = e"
| "net_failure (Chunk d # es) = net_failure es"

fun net_after :: "netread list \<Rightarrow> netread list" where
  "net_after [] = []"
| "net_after (NetErr e # es) = es"
| "net_after (Chunk d # es) = net_after es"

definition pending :: "bufio \<Rightarrow> string" where
  "pending b = rbuf b @ net_bytes (net b)"

definition failure :: "bufio \<Rightarrow> go_error" where
  "failure b = net_failure (net b)"

lemma conn_read_Inl:
  "conn_read n es = (Inl e, es') \<Longrightarrow> net_bytes es = [] \<and> e = net_failure es \<and> es' = net_after es"
  by (induction n es rule: conn_read.induct) (auto split: if_splits)

lemma conn_read_Inr:
  "conn_read n es = (Inr d, es') \<Longrightarrow>
   net_bytes es = d @ net_bytes es' \<and> net_failure es' = net_failure es \<and> net_after es' = net_after es"
  by (induction n es rule: conn_read.induct) (auto split: if_splits)

lemma read_delim_found:
  "LF \<in> set (buf @ net_bytes es) \<Longrightarrow>
   \<exists>buf' es'. read_delim acc buf es = (Inr (acc @ takeWhile (\<lambda>c. c \<noteq> LF) (buf @ net_bytes es) @ [LF]), buf', es') \<and>
     buf' @ net_bytes es' = tl (dropWhile (\<lambda>c. c \<noteq> LF) (buf @ net_bytes es)) \<and>
     net_failure es' = net_failure es \<and> net_after es' = net_after es"
proof (induction acc buf es rule: read_delim_induct)
  case (found acc buf es)
  then have "dropWhile (\<lambda>c. c \<noteq> LF) buf \<noteq> []" by simp
  with found show ?case by (simp add: read_delim_eqs neq_append_simps)
next
  case (full acc buf es)
  then have "LF \<in> set (net_bytes es)" by simp
  with full.IH full.hyps show ?case by (simp add: read_delim_eqs neq_append_simps)
next
  case (fail acc buf es e es')
  then show ?case by (auto dest: conn_read_Inl)
next
  case (fill acc buf es d es')
  with conn_read_Inr [OF fill(3)] show ?case by (simp add: read_delim_eqs)
qed

lemma read_delim_none:
  "LF \<notin> set (buf @ net_bytes es) \<Longrightarrow> read_delim acc buf es = (Inl (net_failure es), [], net_after es)"
proof (induction acc buf es rule: read_delim_induct)
  case (fail acc buf es e es')
  then show ?case by (auto simp: read_delim_eqs dest: conn_read_Inl)
next
  case (fill acc buf es d es')
  with conn_read_Inr [OF fill(3)] show ?case by (simp add: read_delim_eqs)
qed (simp_all add: read_delim_eqs)

text \<open>
  A source of lines: what a client of \<open>ReadString\<close> may rely on. The line is cut from the
  pending bytes at the first line feed; without one the read reports the failure.
\<close>

fun read_lines :: "('r \<Rightarrow> (go_error + string) \<times> 'r) \<Rightarrow> nat \<Rightarrow> 'r \<Rightarrow> string list \<times> go_error option" where
  "read_lines rd 0 r = ([], None)"
| "read_lines rd (Suc n) r =
     (case rd r of
        (Inl e, r') \<Rightarrow> ([], Some e)
      | (Inr l, r') \<Rightarrow> (case read_lines rd n r' of (ls, e) \<Rightarrow> (l # ls, e)))"

locale line_source =
  fixes read :: "'r \<Rightarrow> (go_error + string) \<times> 'r"
    and bytes :: "'r \<Rightarrow> string"
    and fault :: "'r \<Rightarrow> go_error"
  assumes read_line: "LF \<in> set (bytes r) \<Longrightarrow>
      \<exists>r'. read r = (Inr (takeWhile (\<lambda>c. c \<noteq> LF) (bytes r) @ [LF]), r') \<and>
        bytes r' = tl (dropWhile (\<lambda>c. c \<noteq> LF) (bytes r)) \<and> fault r' = fault r"
    and read_fault: "LF \<notin> set (bytes r) \<Longrightarrow> fst (read r) = Inl (fault r)"
begin

lemma read_prefix_line:
  assumes "bytes r = l @ LF # rest" and "LF \<notin> set l"
  shows "\<exists>r'. read r = (Inr (l @ [LF]), r') \<and> bytes r' = rest \<and> fault r' = fault r"
  using read_line [of r] assms by (simp add: neq_append_simps)

lemma read_Inr_iff: "(\<exists>l r'. read r = (Inr l, r')) \<longleftrightarrow> LF \<in> set (bytes r)"
  using read_line [of r] read_fault [of r] by (metis Inl_Inr_False fst_conv)

lemma read_lines_stream:
  "bytes r1 = bytes r2 \<Longrightarrow> fault r1 = fault r2 \<Longrightarrow> read_lines read n r1 = read_lines read n r2"
proof (induction n arbitrary: r1 r2)
  case 0
  then show ?case by simp
next
  case (Suc n)
  show ?case
  proof (cases "LF \<in> set (bytes r1)")
    case True
    with Suc.prems obtain l s1 s2 where "read r1 = (Inr l, s1)" "read r2 = (Inr l, s2)"
      "bytes s1 = bytes s2" "fault s1 = fault s2"
      using read_line [of r1] read_line [of r2] by force
    with Suc.IH [of s1 s2] show ?thesis by simp
  next
    case False
    with Suc.prems read_fault [of r1] read_fault [of r2] show ?thesis
      by (cases "read r1"; cases "read r2") simp
  qed
qed

lemma read_lines_all:
  assumes "bytes r = concat (map (\<lambda>l. l @ [LF]) ls) @ rest" and "\<forall>l \<in> set ls. LF \<notin> set l"
  shows "read_lines read (length ls) r = (map (\<lambda>l. l @ [LF]) ls, None)"
  using assms
proof (induction ls arbitrary: r)
  case Nil
  then show ?case by simp
next
  case (Cons l ls)
  then obtain r' where "read r = (Inr (l @ [LF]), r')"
    and "bytes r' = concat (map (\<lambda>l. l @ [LF]) ls) @ rest"
    using read_prefix_line [of r l] by auto
  with Cons show ?case by simp
qed

end

interpretation bufio_lines: line_source ReadString pending failure
proof
  fix b
  assume "LF \<in> set (pending b)"
  then obtain buf es where "read_delim [] (rbuf b) (net b) =
      (Inr (takeWhile (\<lambda>c. c \<noteq> LF) (pending b) @ [LF]), buf, es)"
    "buf @ net_bytes es = tl (dropWhile (\<lambda>c. c \<noteq> LF) (pending b))" "net_failure es = failure b"
    using read_delim_found [of "rbuf b" "net b" "[]"] by (auto simp: pending_def failure_def)
  then show "\<exists>r'. ReadString b = (Inr (takeWhile (\<lambda>c. c \<noteq> LF) (pending b) @ [LF]), r') \<and>
      pending r' = tl (dropWhile (\<lambda>c. c \<noteq> LF) (pending b)) \<and> failure r' = failure b"
    by (simp add: ReadString_def pending_def failure_def)
next
  fix b
  assume "LF \<notin> set (pending b)"
  then show "fst (ReadString b) = Inl (failure b)"
    by (simp add: ReadString_def pending_def failure_def read_delim_none)
qed

lemma ReadString_fail:
  assumes "LF \<notin> set (pending b)"
  shows "ReadString b = (Inl (failure b), b\<lparr>rbuf := [], net := net_after (net b)\<rparr>)"
  using assms by (simp add: ReadString_def pending_def failure_def read_delim_none)

end
