(* ===== verification/Server.thy ===== *)
theory Server
  imports Envelope Utils Bufio
begin

text \<open>
  \<open>limits.go\<close> and the server half of \<open>server.go\<close>: limits, the peer and server
  structs, \<open>NewServer\<close> and \<open>Server.Auth\<close>. It also declares what stands outside the
  repository: the record \<open>env\<close> holds the standard library's mail parser, DNS, the TLS
  handshake, the clock and the Unicode tables, and the server record holds the user's
  callbacks. Each of them may depend on everything the session has asked of the outside so
  far: it takes the log of calls (\<open>call list\<close>) as an argument, so a callback with state, a
  changing DNS or a running clock are all instances. Callbacks return a result and are
  assumed not to write through the pointers they are given.
\<close>

section \<open>Limits\<close>

record Limits =
  CmdInput :: int
  MsgInput :: int
  ReplyOut :: int
  TLSSetup :: int
  MsgSize :: int
  BadCmds :: int
  MaxRcptCount :: int

text \<open>Durations are nanoseconds.\<close>

abbreviation Minute :: int where "Minute \<equiv> 60 * 1000000000"

definition DefaultLimits :: Limits where
  "DefaultLimits =
     \<lparr>CmdInput = 2 * Minute, MsgInput = 10 * Minute, ReplyOut = 2 * Minute, TLSSetup = 4 * Minute,
      MsgSize = 5 * 1024 * 1024, BadCmds = 5, MaxRcptCount = 200\<rparr>"

section \<open>Peer and calls to the outside\<close>

text \<open>
  The \<open>Peer\<close> of \<open>session.go\<close>. \<open>AdditionalField\<close>, a map of values of any type that
  the package never touches, is left out.
\<close>

record Peer =
  HeloName :: string
  HeloType :: string
  Protocol :: string
  ServerName :: string
  Username :: string
  Authenticated :: bool
  Addr :: string
  TLS :: "tls_state option"

definition SMTP :: string where "SMTP = ''SMTP''"
definition ESMTP :: string where "ESMTP = ''ESMTP''"

text \<open>What the session asked of the outside, with the answer it got.\<close>

datatype call =
    CallHelo Peer string "go_error option"
  | CallSender Peer mail_address "go_error option"
  | CallRcpt Peer mail_address "go_error option"
  | CallAuth Peer string "go_error + bool"
  | CallHandler Peer envelope "go_error + string"
  | CallDNS "mail_address option" string
  | CallHandshake bool
  | CallLookupAddr string

text \<open>
  A TLS handshake either fails after consuming some raw bytes, or gives the connection state
  the stream of application data that will follow, and what the peer will accept.
\<close>

datatype handshake =
    HandshakeFailed nat go_error
  | HandshakeDone tls_state "netread list" "nat option"

text \<open>
  The environment of a session. \<open>ParseAddress\<close> and \<open>ReadMessage\<close> are \<open>net/mail\<close>,
  the lookups are \<open>net\<close>, the descriptions are the third-party \<open>tlstext\<close>;
  \<open>maxAlloc\<close> is the largest slice the run-time system will allocate.
\<close>

record env =
  ParseAddress :: "string \<Rightarrow> go_error + mail_address"
  ReadMessage :: message_reader
  LookupMX :: "call list \<Rightarrow> string \<Rightarrow> go_error option"
  LookupHost :: "call list \<Rightarrow> string \<Rightarrow> go_error option"
  LookupAddr :: "call list \<Rightarrow> string \<Rightarrow> go_error + string list"
  Handshake :: "call list \<Rightarrow> handshake"
  now_Unix :: "call list \<Rightarrow> int"
  now_RFC1123 :: "call list \<Rightarrow> string"
  VersionFromConnection :: "tls_state \<Rightarrow> string"
  CipherSuiteFromConnection :: "tls_state \<Rightarrow> string"
  unicode_ToUpper :: rune_map
  unicode_ToLower :: rune_map
  maxAlloc :: int

section \<open>The server\<close>

text \<open>A nil TLS configuration is \<open>TLSConfig = False\<close>; a nil function is \<open>None\<close>.\<close>

record Server =
  srv_Addr :: string
  Hostname :: string
  TLSConfig :: bool
  TLSOnly :: bool
  authMechanisms :: "string list"
  shuttingDown :: bool
  srv_Limits :: Limits
  Handler :: "(call list \<Rightarrow> Peer \<Rightarrow> envelope \<Rightarrow> go_error + string) option"
  Authenticator :: "(call list \<Rightarrow> Peer \<Rightarrow> string \<Rightarrow> go_error + bool) option"
  ConnectionChecker :: "(call list \<Rightarrow> Peer \<Rightarrow> go_error option) option"
  HeloChecker :: "(call list \<Rightarrow> Peer \<Rightarrow> string \<Rightarrow> go_error option) option"
  SenderChecker :: "(call list \<Rightarrow> Peer \<Rightarrow> mail_address \<Rightarrow> go_error option) option"
  RecipientChecker :: "(call list \<Rightarrow> Peer \<Rightarrow> mail_address \<Rightarrow> go_error option) option"

definition SupportedAuthMechanisms :: "string list" where
  "SupportedAuthMechanisms = [''LOGIN'', ''PLAIN'']"

text \<open>The loop of \<open>Auth\<close>: the error for the first mechanism that is not supported.\<close>

fun check_mechanisms :: "string list \<Rightarrow> go_error option" where
  "check_mechanisms [] = None"
| "check_mechanisms (mech # ms) =
     (if \<not> stringInSlice mech SupportedAuthMechanisms
      then Some (OtherError ''*errors.errorString'' (mech @ '' authentication mechanism is not supported''))
      else check_mechanisms ms)"

definition Server_Auth ::
  "(call list \<Rightarrow> Peer \<Rightarrow> string \<Rightarrow> go_error + bool) option \<Rightarrow> string list \<Rightarrow> Server \<Rightarrow> go_error option \<times> Server" where
  "Server_Auth f mechanisms srv =
     (if length mechanisms \<noteq> 0
      then (case check_mechanisms mechanisms of
              Some err \<Rightarrow> (Some err, srv)
            | None \<Rightarrow> (None, srv\<lparr>authMechanisms := mechanisms, Authenticator := f\<rparr>))
      else (None, srv\<lparr>authMechanisms := SupportedAuthMechanisms, Authenticator := f\<rparr>))"

definition NewServer :: "string \<Rightarrow> Limits list \<Rightarrow> Server" where
  "NewServer port limits =
     \<lparr>srv_Addr = port, Hostname = [], TLSConfig = False, TLSOnly = False, authMechanisms = [],
      shuttingDown = False,
      srv_Limits = (if length limits = 1 then limits ! 0 else DefaultLimits),
      Handler = None, Authenticator = None, ConnectionChecker = None, HeloChecker = None,
      SenderChecker = None, RecipientChecker = None\<rparr>"

lemma check_mechanisms_None: "check_mechanisms ms = None \<longleftrightarrow> set ms \<subseteq> set SupportedAuthMechanisms"
  by (induction ms) (auto simp: stringInSlice_iff)

text \<open>
  C38: \<open>Server.Auth\<close> succeeds exactly when every mechanism is supported; then the server
  announces a non-empty list of supported mechanisms (both of them when none is named) and
  uses the given function; otherwise the server is unchanged.
\<close>

theorem Server_Auth_correct:
  "(fst (Server_Auth f ms srv) = None \<longleftrightarrow> set ms \<subseteq> {''LOGIN'', ''PLAIN''}) \<and>
   (if fst (Server_Auth f ms srv) = None
    then authMechanisms (snd (Server_Auth f ms srv)) = (if ms = [] then [''LOGIN'', ''PLAIN''] else ms) \<and>
         Authenticator (snd (Server_Auth f ms srv)) = f
    else snd (Server_Auth f ms srv) = srv)"
  using check_mechanisms_None [of ms]
  by (cases "check_mechanisms ms") (auto simp: Server_Auth_def SupportedAuthMechanisms_def)

end
