(* ===== verification/Response.thy ===== *)
theory Response
  imports GoStrings
begin

text \<open>
  \<open>response.go\<close>: status classes, the enhanced status codes of RFC 3463, the table from
  enhanced to basic codes, the rendering of a \<open>Response\<close>, and the table \<open>Codes\<close> of
  prepared replies that \<open>init\<close> fills. The struct \<open>Responses\<close> is a function from its
  fields (\<open>code_field\<close>) to strings, starting from the zero value \<open>""\<close>, and \<open>init\<close>
  is the list of its assignments in source order, so that a field assigned twice holds the
  later value and a field never assigned stays empty. Lemmas: every reply in use is a
  three-digit code followed by text, basic and enhanced code agree in their class.
\<close>

section \<open>Classes, subjects and details\<close>

type_synonym class_code = int
type_synonym subject = int
type_synonym subjectDetail = string

abbreviation ClassSuccess :: class_code where "ClassSuccess \<equiv> 2"
abbreviation ClassTransientFailure :: class_code where "ClassTransientFailure \<equiv> 4"
abbreviation ClassPermanentFailure :: class_code where "ClassPermanentFailure \<equiv> 5"

text \<open>\<open>fmt.Sprintf("%c00", c)\<close>: the verb prints the rune numbered \<open>c\<close>.\<close>

definition class_String :: "class_code \<Rightarrow> string" where
  "class_String c = encode_rune (if c < 0 then RuneError else nat c) @ ''00''"

abbreviation SubjectUndefined :: subject where "SubjectUndefined \<equiv> 0"
abbreviation SubjectAddressing :: subject where "SubjectAddressing \<equiv> 1"
abbreviation SubjectMailbox :: subject where "SubjectMailbox \<equiv> 2"
abbreviation SubjectMail :: subject where "SubjectMail \<equiv> 3"
abbreviation SubjectNetwork :: subject where "SubjectNetwork \<equiv> 4"
abbreviation SubjectDelivery :: subject where "SubjectDelivery \<equiv> 5"
abbreviation SubjectContent :: subject where "SubjectContent \<equiv> 6"
abbreviation SubjectPolicy :: subject where "SubjectPolicy \<equiv> 7"

abbreviation OtherStatus :: subjectDetail where "OtherStatus \<equiv> ''.0.0''"
abbreviation OtherAddressStatus :: subjectDetail where "OtherAddressStatus \<equiv> ''.1.0''"
abbreviation BadDestinationMailboxAddress :: subjectDetail where "BadDestinationMailboxAddress \<equiv> ''.1.1''"
abbreviation BadDestinationSystemAddress :: subjectDetail where "BadDestinationSystemAddress \<equiv> ''.1.2''"
abbreviation BadDestinationMailboxAddressSyntax :: subjectDetail where "BadDestinationMailboxAddressSyntax \<equiv> ''.1.3''"
abbreviation DestinationMailboxAddressAmbiguous :: subjectDetail where "DestinationMailboxAddressAmbiguous \<equiv> ''.1.4''"
abbreviation DestinationMailboxAddressValid :: subjectDetail where "DestinationMailboxAddressValid \<equiv> ''.1.5''"
abbreviation MailboxHasMoved :: subjectDetail where "MailboxHasMoved \<equiv> ''.1.6''"
abbreviation BadSendersMailboxAddressSyntax :: subjectDetail where "BadSendersMailboxAddressSyntax \<equiv> ''.1.7''"
abbreviation BadSendersSystemAddress :: subjectDetail where "BadSendersSystemAddress \<equiv> ''.1.8''"
abbreviation OtherOrUndefinedMailboxStatus :: subjectDetail where "OtherOrUndefinedMailboxStatus \<equiv> ''.2.0''"
abbreviation MailboxDisabled :: subjectDetail where "MailboxDisabled \<equiv> ''.2.1''"
abbreviation MailboxFull :: subjectDetail where "MailboxFull \<equiv> ''.2.2''"
abbreviation MessageLengthExceedsAdministrativeLimit :: subjectDetail where "MessageLengthExceedsAdministrativeLimit \<equiv> ''.2.3''"
abbreviation MailingListExpansionProblem :: subjectDetail where "MailingListExpansionProblem \<equiv> ''.2.4''"
abbreviation OtherOrUndefinedMailSystemStatus :: subjectDetail where "OtherOrUndefinedMailSystemStatus \<equiv> ''.3.0''"
abbreviation MailSystemFull :: subjectDetail where "MailSystemFull \<equiv> ''.3.1''"
abbreviation SystemNotAcceptingNetworkMessages :: subjectDetail where "SystemNotAcceptingNetworkMessages \<equiv> ''.3.2''"
abbreviation SystemNotCapableOfSelectedFeatures :: subjectDetail where "SystemNotCapableOfSelectedFeatures \<equiv> ''.3.3''"
abbreviation MessageTooBigForSystem :: subjectDetail where "MessageTooBigForSystem \<equiv> ''.3.4''"
abbreviation OtherOrUndefinedNetworkOrRoutingStatus :: subjectDetail where "OtherOrUndefinedNetworkOrRoutingStatus \<equiv> ''.4.0''"
abbreviation NoAnswerFromHost :: subjectDetail where "NoAnswerFromHost \<equiv> ''.4.1''"
abbreviation BadConnection :: subjectDetail where "BadConnection \<equiv> ''.4.2''"
abbreviation RoutingServerFailure :: subjectDetail where "RoutingServerFailure \<equiv> ''.4.3''"
abbreviation UnableToRoute :: subjectDetail where "UnableToRoute \<equiv> ''.4.4''"
abbreviation NetworkCongestion :: subjectDetail where "NetworkCongestion \<equiv> ''.4.5''"
abbreviation RoutingLoopDetected :: subjectDetail where "RoutingLoopDetected \<equiv> ''.4.6''"
abbreviation DeliveryTimeExpired :: subjectDetail where "DeliveryTimeExpired \<equiv> ''.4.7''"
abbreviation OtherOrUndefinedProtocolStatus :: subjectDetail where "OtherOrUndefinedProtocolStatus \<equiv> ''.5.0''"
abbreviation InvalidCommand :: subjectDetail where "InvalidCommand \<equiv> ''.5.1''"
abbreviation SyntaxError :: subjectDetail where "SyntaxError \<equiv> ''.5.2''"
abbreviation TooManyRecipients :: subjectDetail where "TooManyRecipients \<equiv> ''.5.3''"
abbreviation InvalidCommandArguments :: subjectDetail where "InvalidCommandArguments \<equiv> ''.5.4''"
abbreviation WrongProtocolVersion :: subjectDetail where "WrongProtocolVersion \<equiv> ''.5.5''"
abbreviation OtherOrUndefinedMediaError :: subjectDetail where "OtherOrUndefinedMediaError \<equiv> ''.6.0''"
abbreviation MediaNotSupported :: subjectDetail where "MediaNotSupported \<equiv> ''.6.1''"
abbreviation ConversionRequiredAndProhibited :: subjectDetail where "ConversionRequiredAndProhibited \<equiv> ''.6.2''"
abbreviation ConversionRequiredButNotSupported :: subjectDetail where "ConversionRequiredButNotSupported \<equiv> ''.6.3''"
abbreviation ConversionWithLossPerformed :: subjectDetail where "ConversionWithLossPerformed \<equiv> ''.6.4''"
abbreviation ConversionFailed :: subjectDetail where "ConversionFailed \<equiv> ''.6.5''"
abbreviation SecurityStatus :: subjectDetail where "SecurityStatus \<equiv> ''.7.0''"
abbreviation DeliveryNotAuthorized :: subjectDetail where "DeliveryNotAuthorized \<equiv> ''.7.1''"
abbreviation MailingListExpansionProhibited :: subjectDetail where "MailingListExpansionProhibited \<equiv> ''.7.2''"
abbreviation SecurityConversionRequiredButNotSupported :: subjectDetail where "SecurityConversionRequiredButNotSupported \<equiv> ''.7.3''"
abbreviation EncryptionNeeded :: subjectDetail where "EncryptionNeeded \<equiv> ''.7.10''"

record EnhancedStatusCode =
  Class :: class_code
  SubjectDetailCode :: subjectDetail

definition esc :: "class_code \<Rightarrow> subjectDetail \<Rightarrow> EnhancedStatusCode" where
  "esc c d = \<lparr>Class = c, SubjectDetailCode = d\<rparr>"

lemma esc_inject [simp]: "esc c d = esc c' d' \<longleftrightarrow> c = c' \<and> d = d'"
  by (simp add: esc_def)

lemma esc_sel [simp]: "Class (esc c d) = c" "SubjectDetailCode (esc c d) = d"
  by (simp_all add: esc_def)

lemma esc_collapse: "esc (Class e) (SubjectDetailCode e) = e"
  by (simp add: esc_def)

definition codeMap :: "(EnhancedStatusCode \<times> int) list" where
  "codeMap = [
     (esc ClassSuccess OtherAddressStatus, 250),
     (esc ClassSuccess DestinationMailboxAddressValid, 250),
     (esc ClassSuccess OtherOrUndefinedMailSystemStatus, 250),
     (esc ClassSuccess OtherOrUndefinedProtocolStatus, 250),
     (esc ClassSuccess ConversionWithLossPerformed, 250),
     (esc ClassSuccess ''.6.8'', 252),
     (esc ClassSuccess ''.7.0'', 220),
     (esc ClassTransientFailure BadDestinationMailboxAddress, 451),
     (esc ClassTransientFailure BadSendersSystemAddress, 451),
     (esc ClassTransientFailure MailingListExpansionProblem, 450),
     (esc ClassTransientFailure OtherOrUndefinedMailSystemStatus, 421),
     (esc ClassTransientFailure MailSystemFull, 452),
     (esc ClassTransientFailure SystemNotAcceptingNetworkMessages, 453),
     (esc ClassTransientFailure NoAnswerFromHost, 451),
     (esc ClassTransientFailure BadConnection, 421),
     (esc ClassTransientFailure RoutingServerFailure, 451),
     (esc ClassTransientFailure NetworkCongestion, 451),
     (esc ClassTransientFailure OtherOrUndefinedProtocolStatus, 451),
     (esc ClassTransientFailure InvalidCommand, 430),
     (esc ClassTransientFailure TooManyRecipients, 452),
     (esc ClassTransientFailure InvalidCommandArguments, 451),
     (esc ClassTransientFailure ''.7.0'', 450),
     (esc ClassTransientFailure ''.7.1'', 451),
     (esc ClassTransientFailure ''.7.12'', 422),
     (esc ClassTransientFailure ''.7.15'', 450),
     (esc ClassTransientFailure ''.7.24'', 451),
     (esc ClassPermanentFailure BadDestinationMailboxAddress, 550),
     (esc ClassPermanentFailure BadDestinationMailboxAddressSyntax, 501),
     (esc ClassPermanentFailure BadSendersSystemAddress, 501),
     (esc ClassPermanentFailure ''.1.10'', 556),
     (esc ClassPermanentFailure MailboxFull, 552),
     (esc ClassPermanentFailure MessageLengthExceedsAdministrativeLimit, 552),
     (esc ClassPermanentFailure OtherOrUndefinedMailSystemStatus, 550),
     (esc ClassPermanentFailure MessageTooBigForSystem, 552),
     (esc ClassPermanentFailure RoutingServerFailure, 550),
     (esc ClassPermanentFailure OtherOrUndefinedProtocolStatus, 501),
     (esc ClassPermanentFailure InvalidCommand, 500),
     (esc ClassPermanentFailure SyntaxError, 500),
     (esc ClassPermanentFailure InvalidCommandArguments, 501),
     (esc ClassPermanentFailure ''.5.6'', 500),
     (esc ClassPermanentFailure ConversionRequiredButNotSupported, 554),
     (esc ClassPermanentFailure ''.6.6'', 554),
     (esc ClassPermanentFailure ''.6.7'', 553),
     (esc ClassPermanentFailure ''.6.8'', 550),
     (esc ClassPermanentFailure ''.6.9'', 550),
     (esc ClassPermanentFailure ''.7.0'', 550),
     (esc ClassPermanentFailure ''.7.1'', 551),
     (esc ClassPermanentFailure ''.7.2'', 550),
     (esc ClassPermanentFailure ''.7.4'', 504),
     (esc ClassPermanentFailure ''.7.8'', 554),
     (esc ClassPermanentFailure ''.7.9'', 534),
     (esc ClassPermanentFailure ''.7.10'', 523),
     (esc ClassPermanentFailure ''.7.11'', 524),
     (esc ClassPermanentFailure ''.7.13'', 525),
     (esc ClassPermanentFailure ''.7.14'', 535),
     (esc ClassPermanentFailure ''.7.15'', 550),
     (esc ClassPermanentFailure ''.7.16'', 552),
     (esc ClassPermanentFailure ''.7.17'', 500),
     (esc ClassPermanentFailure ''.7.18'', 500),
     (esc ClassPermanentFailure ''.7.19'', 500),
     (esc ClassPermanentFailure ''.7.20'', 550),
     (esc ClassPermanentFailure ''.7.21'', 550),
     (esc ClassPermanentFailure ''.7.22'', 550),
     (esc ClassPermanentFailure ''.7.23'', 550),
     (esc ClassPermanentFailure ''.7.24'', 550),
     (esc ClassPermanentFailure ''.7.25'', 550),
     (esc ClassPermanentFailure ''.7.26'', 550),
     (esc ClassPermanentFailure ''.7.27'', 550)]"

definition defaultTexts :: "(EnhancedStatusCode \<times> string) list" where
  "defaultTexts = [
     (esc ClassSuccess ''.0.0'', ''OK''),
     (esc ClassSuccess ''.1.0'', ''OK''),
     (esc ClassSuccess ''.1.5'', ''OK''),
     (esc ClassSuccess ''.5.0'', ''OK''),
     (esc ClassTransientFailure ''.5.3'', ''Too many recipients''),
     (esc ClassTransientFailure ''.5.4'', ''Relay access denied''),
     (esc ClassPermanentFailure ''.5.1'', ''Invalid command'')]"

section \<open>Rendering a response\<close>

record Response =
  EnhancedCode :: subjectDetail
  BasicCode :: int
  RespClass :: class_code
  Comment :: string

text \<open>\<open>EnhancedStatusCode.String\<close>, \<open>getBasicStatusCode\<close> and \<open>Response.String\<close>.\<close>

definition esc_String :: "EnhancedStatusCode \<Rightarrow> string" where
  "esc_String e = itoa (Class e) @ SubjectDetailCode e"

definition getBasicStatusCode :: "EnhancedStatusCode \<Rightarrow> int" where
  "getBasicStatusCode e = (case map_of codeMap e of Some v \<Rightarrow> v | None \<Rightarrow> int64 (Class e * 100))"

definition Response_comment :: "Response \<Rightarrow> string" where
  "Response_comment r =
     (if Comment r = [] \<and> BasicCode r = 0
      then (case map_of defaultTexts (esc (RespClass r) (EnhancedCode r)) of
              Some c \<Rightarrow> c
            | None \<Rightarrow>
                if RespClass r = 2 then ''OK''
                else if RespClass r = 4 then ''Temporary failure.''
                else if RespClass r = 5 then ''Permanent failure.''
                else [])
      else Comment r)"

definition Response_String :: "Response \<Rightarrow> string" where
  "Response_String r =
     (let e = esc (RespClass r) (EnhancedCode r);
          basicCode = (if BasicCode r = 0 then getBasicStatusCode e else BasicCode r)
      in itoa basicCode @ '' '' @ esc_String e @ '' '' @ Response_comment r)"

text \<open>A response literal; fields the source leaves out are zero values.\<close>

abbreviation resp :: "subjectDetail \<Rightarrow> int \<Rightarrow> class_code \<Rightarrow> string \<Rightarrow> string" where
  "resp d b c cm \<equiv> Response_String \<lparr>EnhancedCode = d, BasicCode = b, RespClass = c, Comment = cm\<rparr>"

section \<open>The table of prepared replies\<close>

datatype code_field =
    FailLineTooLong
  | FailNestedMailCmd
  | FailNoSenderDataCmd
  | FailNoRecipientsDataCmd
  | FailUnrecognizedCmd
  | FailMaxUnrecognizedCmd
  | FailReadLimitExceededDataCmd
  | FailMessageSizeExceeded
  | FailReadErrorDataCmd
  | FailPathTooLong
  | FailInvalidAddress
  | FailLocalPartTooLong
  | FailInvalidExtension
  | FailAuthentication
  | FailUnqalifiedHostName
  | FailDomainTooLong
  | FailBackendNotRunning
  | FailBackendTransaction
  | FailTooBig
  | FailBackendTimeout
  | FailRcptCmd
  | FailCmdNotSupported
  | FailRelayAccessDenied
  | FailMailboxDoesntExist
  | FailMailboxFull
  | FailBadSenderMailboxAddressSyntax
  | FailBadDestinationMailboxAddressSyntax
  | FailAccessDenied
  | FailBadSequence
  | FailInvalidRecipient
  | FailEncryptionNeeded
  | FailMissingArgument
  | FailUndefinedSecurityStatus
  | ErrorTooManyRecipients
  | ErrorRelayDenied
  | ErrorShutdown
  | ErrorRelayAccess
  | ErrorAuth
  | ErrorUnableToResolveHost
  | ErrorCmdParamNotImplemented
  | SuccessAuthentication
  | SuccessMailCmd
  | SuccessRcptCmd
  | SuccessResetCmd
  | SuccessVerifyCmd
  | SuccessNoopCmd
  | SuccessQuitCmd
  | SuccessDataCmd
  | SuccessHelpCmd
  | SuccessStartTLSCmd
  | SuccessMessageQueued

type_synonym Responses = "code_field \<Rightarrow> string"

text \<open>The assignments of \<open>init\<close>; each right-hand side sees the table built so far.\<close>

definition init_A :: "(code_field \<times> (Responses \<Rightarrow> string)) list" where
  "init_A = [
     (FailLineTooLong, \<lambda>_. resp InvalidCommand 554 ClassPermanentFailure ''Line too long!''),
     (FailMailboxDoesntExist, \<lambda>_. resp InvalidCommand 550 ClassPermanentFailure ''Sorry, no mailbox here by that name!''),
     (FailNestedMailCmd, \<lambda>_. resp InvalidCommand 503 ClassPermanentFailure ''Nested mail command!''),
     (FailBadSequence, \<lambda>_. resp InvalidCommand 503 ClassPermanentFailure ''Bad sequence!''),
     (SuccessMailCmd, \<lambda>_. resp OtherAddressStatus 0 ClassSuccess ''''),
     (SuccessHelpCmd, \<lambda>_. ''214''),
     (SuccessRcptCmd, \<lambda>_. resp DestinationMailboxAddressValid 0 ClassSuccess ''''),
     (SuccessResetCmd, \<lambda>t. t SuccessMailCmd),
     (SuccessNoopCmd, \<lambda>_. resp OtherStatus 0 ClassSuccess ''''),
     (ErrorUnableToResolveHost, \<lambda>_. resp '''' 451 ClassTransientFailure ''Unable to resolve host!''),
     (SuccessVerifyCmd, \<lambda>_. resp OtherOrUndefinedProtocolStatus 252 ClassSuccess ''Cannot verify user!''),
     (ErrorTooManyRecipients, \<lambda>_. resp TooManyRecipients 452 ClassTransientFailure ''Too many recipients!''),
     (FailTooBig, \<lambda>_. resp MessageLengthExceedsAdministrativeLimit 552 ClassTransientFailure ''Message exceeds maximum size!''),
     (FailMailboxFull, \<lambda>_. resp MailboxFull 522 ClassPermanentFailure ''Users mailbox is full!''),
     (ErrorRelayDenied, \<lambda>_. resp BadDestinationMailboxAddress 454 ClassTransientFailure ''Relay access denied!''),
     (ErrorAuth, \<lambda>_. resp OtherOrUndefinedMailSystemStatus 454 ClassTransientFailure ''Problem with auth!''),
     (SuccessQuitCmd, \<lambda>_. resp OtherStatus 221 ClassSuccess ''Bye!'')]"

definition init_B :: "(code_field \<times> (Responses \<Rightarrow> string)) list" where
  "init_B = [
     (FailNoSenderDataCmd, \<lambda>_. resp InvalidCommand 503 ClassPermanentFailure ''No sender!''),
     (FailNoRecipientsDataCmd, \<lambda>_. resp InvalidCommand 503 ClassPermanentFailure ''No recipients!''),
     (FailAccessDenied, \<lambda>_. resp DeliveryNotAuthorized 530 ClassPermanentFailure ''Authentication required!''),
     (FailAccessDenied, \<lambda>_. resp DeliveryNotAuthorized 554 ClassPermanentFailure ''Relay access denied!''),
     (ErrorRelayAccess, \<lambda>_. resp OtherOrUndefinedMailSystemStatus 455 ClassTransientFailure ''Oops, problem with relay access!''),
     (SuccessDataCmd, \<lambda>_. ''354 Go ahead!''),
     (SuccessAuthentication, \<lambda>_. resp SecurityStatus 235 ClassSuccess ''Authentication successful!''),
     (SuccessStartTLSCmd, \<lambda>_. resp OtherStatus 220 ClassSuccess ''Ready to start TLS!''),
     (FailUnrecognizedCmd, \<lambda>_. resp InvalidCommand 554 ClassPermanentFailure ''Unrecognized command!''),
     (FailMaxUnrecognizedCmd, \<lambda>_. resp InvalidCommand 554 ClassPermanentFailure ''Too many unrecognized commands!''),
     (ErrorShutdown, \<lambda>_. resp OtherOrUndefinedMailSystemStatus 421 ClassTransientFailure ''Server is shutting down. Please try again later!''),
     (FailReadLimitExceededDataCmd, \<lambda>_. resp SyntaxError 550 ClassPermanentFailure ''ERR ''),
     (FailCmdNotSupported, \<lambda>_. resp '''' 502 ClassPermanentFailure ''Cmd not supported''),
     (FailUnqalifiedHostName, \<lambda>_. resp SyntaxError 550 ClassPermanentFailure ''Need fully-qualified hostname for domain part''),
     (FailReadErrorDataCmd, \<lambda>_. resp OtherOrUndefinedMailSystemStatus 451 ClassTransientFailure ''ERR ''),
     (FailPathTooLong, \<lambda>_. resp InvalidCommandArguments 550 ClassPermanentFailure ''Path too long''),
     (FailInvalidAddress, \<lambda>_. resp InvalidCommandArguments 501 ClassPermanentFailure ''Syntax: MAIL FROM:<address> [EXT]'')]"

definition init_C :: "(code_field \<times> (Responses \<Rightarrow> string)) list" where
  "init_C = [
     (FailInvalidRecipient, \<lambda>_. resp InvalidCommandArguments 501 ClassPermanentFailure ''Syntax: RCPT TO:<address>''),
     (FailInvalidExtension, \<lambda>_. resp InvalidCommandArguments 501 ClassPermanentFailure ''Invalid arguments''),
     (FailLocalPartTooLong, \<lambda>_. resp InvalidCommandArguments 550 ClassPermanentFailure ''Local part too long, cannot exceed 64 characters''),
     (FailDomainTooLong, \<lambda>_. resp InvalidCommandArguments 550 ClassPermanentFailure ''Domain cannot exceed 255 characters''),
     (FailMissingArgument, \<lambda>_. resp InvalidCommandArguments 550 ClassPermanentFailure ''Argument is missing in you command''),
     (FailBackendNotRunning, \<lambda>_. resp OtherOrUndefinedProtocolStatus 554 ClassPermanentFailure ''Transaction failed - backend not running ''),
     (FailBackendTransaction, \<lambda>_. resp OtherOrUndefinedProtocolStatus 554 ClassPermanentFailure ''ERR ''),
     (SuccessMessageQueued, \<lambda>_. resp OtherStatus 250 ClassSuccess ''OK Queued as ''),
     (FailBackendTimeout, \<lambda>_. resp OtherOrUndefinedProtocolStatus 554 ClassPermanentFailure ''ERR transaction timeout''),
     (FailAuthentication, \<lambda>_. resp OtherOrUndefinedProtocolStatus 535 ClassPermanentFailure ''ERR Authentication failed''),
     (ErrorCmdParamNotImplemented, \<lambda>_. resp InvalidCommandArguments 504 ClassPermanentFailure ''ERR Command parameter not implemented''),
     (FailRcptCmd, \<lambda>_. resp BadDestinationMailboxAddress 550 ClassPermanentFailure ''User unknown in local recipient table''),
     (FailBadSenderMailboxAddressSyntax, \<lambda>_. resp BadSendersMailboxAddressSyntax 501 ClassPermanentFailure ''Bad sender address syntax''),
     (FailBadDestinationMailboxAddressSyntax, \<lambda>_. resp BadSendersMailboxAddressSyntax 501 ClassPermanentFailure ''Bad sender address syntax''),
     (FailEncryptionNeeded, \<lambda>_. resp EncryptionNeeded 523 ClassPermanentFailure ''TLS required, use STARTTLS''),
     (FailUndefinedSecurityStatus, \<lambda>_. resp SecurityStatus 550 ClassPermanentFailure ''Undefined security failure'')]"

definition init_Codes :: Responses where
  "init_Codes = foldl (\<lambda>t (f, v). t(f := v t)) (\<lambda>_. []) (init_A @ init_B @ init_C)"

text \<open>The package variable, filled once when the package loads and only read afterwards.\<close>

definition Codes :: Responses where
  "Codes = init_Codes"


lemmas Codes_unfold = Codes_def init_Codes_def init_A_def init_B_def init_C_def

lemma Codes_rendered:
  "Codes FailLineTooLong = resp InvalidCommand 554 ClassPermanentFailure ''Line too long!''"
  "Codes FailNestedMailCmd = resp InvalidCommand 503 ClassPermanentFailure ''Nested mail command!''"
  "Codes FailNoSenderDataCmd = resp InvalidCommand 503 ClassPermanentFailure ''No sender!''"
  "Codes FailNoRecipientsDataCmd = resp InvalidCommand 503 ClassPermanentFailure ''No recipients!''"
  "Codes FailUnrecognizedCmd = resp InvalidCommand 554 ClassPermanentFailure ''Unrecognized command!''"
  "Codes FailMaxUnrecognizedCmd = resp InvalidCommand 554 ClassPermanentFailure ''Too many unrecognized commands!''"
  "Codes FailReadLimitExceededDataCmd = resp SyntaxError 550 ClassPermanentFailure ''ERR ''"
  "Codes FailMessageSizeExceeded = []"
  "Codes FailReadErrorDataCmd = resp OtherOrUndefinedMailSystemStatus 451 ClassTransientFailure ''ERR ''"
  "Codes FailPathTooLong = resp InvalidCommandArguments 550 ClassPermanentFailure ''Path too long''"
  "Codes FailInvalidAddress = resp InvalidCommandArguments 501 ClassPermanentFailure ''Syntax: MAIL FROM:<address> [EXT]''"
  "Codes FailLocalPartTooLong = resp InvalidCommandArguments 550 ClassPermanentFailure ''Local part too long, cannot exceed 64 characters''"
  "Codes FailInvalidExtension = resp InvalidCommandArguments 501 ClassPermanentFailure ''Invalid arguments''"
  "Codes FailAuthentication = resp OtherOrUndefinedProtocolStatus 535 ClassPermanentFailure ''ERR Authentication failed''"
  "Codes FailUnqalifiedHostName = resp SyntaxError 550 ClassPermanentFailure ''Need fully-qualified hostname for domain part''"
  "Codes FailDomainTooLong = resp InvalidCommandArguments 550 ClassPermanentFailure ''Domain cannot exceed 255 characters''"
  "Codes FailBackendNotRunning = resp OtherOrUndefinedProtocolStatus 554 ClassPermanentFailure ''Transaction failed - backend not running ''"
  "Codes FailBackendTransaction = resp OtherOrUndefinedProtocolStatus 554 ClassPermanentFailure ''ERR ''"
  "Codes FailTooBig = resp MessageLengthExceedsAdministrativeLimit 552 ClassTransientFailure ''Message exceeds maximum size!''"
  "Codes FailBackendTimeout = resp OtherOrUndefinedProtocolStatus 554 ClassPermanentFailure ''ERR transaction timeout''"
  "Codes FailRcptCmd = resp BadDestinationMailboxAddress 550 ClassPermanentFailure ''User unknown in local recipient table''"
  "Codes FailCmdNotSupported = resp '''' 502 ClassPermanentFailure ''Cmd not supported''"
  "Codes FailRelayAccessDenied = []"
  "Codes FailMailboxDoesntExist = resp InvalidCommand 550 ClassPermanentFailure ''Sorry, no mailbox here by that name!''"
  "Codes FailMailboxFull = resp MailboxFull 522 ClassPermanentFailure ''Users mailbox is full!''"
  "Codes FailBadSenderMailboxAddressSyntax = resp BadSendersMailboxAddressSyntax 501 ClassPermanentFailure ''Bad sender address syntax''"
  "Codes FailBadDestinationMailboxAddressSyntax = resp BadSendersMailboxAddressSyntax 501 ClassPermanentFailure ''Bad sender address syntax''"
  "Codes FailAccessDenied = resp DeliveryNotAuthorized 554 ClassPermanentFailure ''Relay access denied!''"
  "Codes FailBadSequence = resp InvalidCommand 503 ClassPermanentFailure ''Bad sequence!''"
  "Codes FailInvalidRecipient = resp InvalidCommandArguments 501 ClassPermanentFailure ''Syntax: RCPT TO:<address>''"
  "Codes FailEncryptionNeeded = resp EncryptionNeeded 523 ClassPermanentFailure ''TLS required, use STARTTLS''"
  "Codes FailMissingArgument = resp InvalidCommandArguments 550 ClassPermanentFailure ''Argument is missing in you command''"
  "Codes FailUndefinedSecurityStatus = resp SecurityStatus 550 ClassPermanentFailure ''Undefined security failure''"
  "Codes ErrorTooManyRecipients = resp TooManyRecipients 452 ClassTransientFailure ''Too many recipients!''"
  "Codes ErrorRelayDenied = resp BadDestinationMailboxAddress 454 ClassTransientFailure ''Relay access denied!''"
  "Codes ErrorShutdown = resp OtherOrUndefinedMailSystemStatus 421 ClassTransientFailure ''Server is shutting down. Please try again later!''"
  "Codes ErrorRelayAccess = resp OtherOrUndefinedMailSystemStatus 455 ClassTransientFailure ''Oops, problem with relay access!''"
  "Codes ErrorAuth = resp OtherOrUndefinedMailSystemStatus 454 ClassTransientFailure ''Problem with auth!''"
  "Codes ErrorUnableToResolveHost = resp '''' 451 ClassTransientFailure ''Unable to resolve host!''"
  "Codes ErrorCmdParamNotImplemented = resp InvalidCommandArguments 504 ClassPermanentFailure ''ERR Command parameter not implemented''"
  "Codes SuccessAuthentication = resp SecurityStatus 235 ClassSuccess ''Authentication successful!''"
  "Codes SuccessMailCmd = resp OtherAddressStatus 0 ClassSuccess ''''"
  "Codes SuccessRcptCmd = resp DestinationMailboxAddressValid 0 ClassSuccess ''''"
  "Codes SuccessResetCmd = resp OtherAddressStatus 0 ClassSuccess ''''"
  "Codes SuccessVerifyCmd = resp OtherOrUndefinedProtocolStatus 252 ClassSuccess ''Cannot verify user!''"
  "Codes SuccessNoopCmd = resp OtherStatus 0 ClassSuccess ''''"
  "Codes SuccessQuitCmd = resp OtherStatus 221 ClassSuccess ''Bye!''"
  "Codes SuccessDataCmd = ''354 Go ahead!''"
  "Codes SuccessHelpCmd = ''214''"
  "Codes SuccessStartTLSCmd = resp OtherStatus 220 ClassSuccess ''Ready to start TLS!''"
  "Codes SuccessMessageQueued = resp OtherStatus 250 ClassSuccess ''OK Queued as ''"
  by (simp_all only: Codes_unfold append.simps foldl.simps prod.case fun_upd_apply code_field.distinct if_True if_False refl)

section \<open>Reply codes\<close>

text \<open>
  What a client reads: three digits, then the end of the line, a space or (in all but the
  last line of a reply) a hyphen.
\<close>

definition reply_code :: "string \<Rightarrow> nat option" where
  "reply_code s =
     (if 3 \<le> length s \<and> (length s = 3 \<or> s ! 3 \<in> {CHR '' '', CHR ''-''})
      then parse_digits 0 (take 3 s) else None)"

lemma itoa_1: "0 \<le> n \<Longrightarrow> n < 10 \<Longrightarrow> itoa n = [char_of (48 + nat n)]"
  by (simp add: itoa_def itoa_nat.simps)

lemma itoa_3:
  assumes "100 \<le> n" and "n < 1000"
  shows "itoa n = [char_of (48 + nat n div 100), char_of (48 + nat n div 10 mod 10),
    char_of (48 + nat n mod 10)]"
proof -
  let ?k = "nat n"
  have "itoa_nat (?k div 100) = [char_of (48 + ?k div 100)]"
    using assms by (subst itoa_nat.simps) auto
  moreover have "itoa_nat (?k div 10) = itoa_nat (?k div 100) @ [char_of (48 + ?k div 10 mod 10)]"
    using assms by (subst itoa_nat.simps) (auto simp: div_mult2_eq [symmetric] nat_less_iff)
  moreover have "itoa_nat ?k = itoa_nat (?k div 10) @ [char_of (48 + ?k mod 10)]"
    using assms by (subst itoa_nat.simps) (auto simp: nat_less_iff)
  ultimately show ?thesis
    using assms by (simp add: itoa_def)
qed

lemma parse_digits_itoa_3:
  assumes "100 \<le> n" and "n < 1000"
  shows "length (itoa n) = 3" and "parse_digits 0 (itoa n) = Some (nat n)"
proof -
  show "length (itoa n) = 3"
    using assms by (simp add: itoa_3)
  have "itoa n = itoa_nat (nat n)"
    using assms by (simp add: itoa_def)
  then show "parse_digits 0 (itoa n) = Some (nat n)"
    by (simp only: parse_digits_itoa_nat)
qed

lemma reply_code_itoa:
  assumes "100 \<le> n" and "n < 1000"
  shows "reply_code (itoa n @ CHR '' '' # t) = Some (nat n)"
  using parse_digits_itoa_3 [OF assms] by (simp add: reply_code_def nth_append)

lemma Response_String_basic:
  "b \<noteq> 0 \<Longrightarrow> resp d b c cm = itoa b @ '' '' @ itoa c @ d @ '' '' @ cm"
  by (simp add: Response_String_def Response_comment_def esc_String_def)

lemma Response_String_reply_code:
  assumes "BasicCode r = 0 \<Longrightarrow>
      100 \<le> getBasicStatusCode (esc (RespClass r) (EnhancedCode r)) \<and>
      getBasicStatusCode (esc (RespClass r) (EnhancedCode r)) < 1000"
    and "BasicCode r \<noteq> 0 \<Longrightarrow> 100 \<le> BasicCode r \<and> BasicCode r < 1000"
  shows "reply_code (Response_String r) =
    Some (nat (if BasicCode r = 0 then getBasicStatusCode (esc (RespClass r) (EnhancedCode r))
               else BasicCode r))"
  using assms by (auto simp: Response_String_def Let_def reply_code_itoa)

text \<open>Every entry of the table has the class of its key as its first digit.\<close>

lemma codeMap_class: "\<forall>(e, v) \<in> set codeMap. v div 100 = Class e \<and> 200 \<le> v \<and> v < 600"
  by (simp add: codeMap_def)

lemma getBasicStatusCode_cases:
  assumes "Class e \<in> {2, 4, 5}"
  shows "getBasicStatusCode e div 100 = Class e \<and> 200 \<le> getBasicStatusCode e \<and> getBasicStatusCode e < 600"
proof (cases "map_of codeMap e")
  case None
  with assms show ?thesis
    by (auto simp: getBasicStatusCode_def int64_def)
next
  case (Some v)
  then have "(e, v) \<in> set codeMap" by (rule map_of_SomeD)
  with codeMap_class Some show ?thesis
    by (auto simp: getBasicStatusCode_def)
qed

text \<open>
  C26: A response of a success, transient or permanent class whose basic code is left to the
  table is sent with a three-digit reply code of that class, and carries the enhanced code
  right after it: the digit a client dispatches on is the class of the enhanced code.
\<close>

theorem Response_String_class_agrees:
  assumes "RespClass r \<in> {2, 4, 5}" and "BasicCode r = 0"
  shows "\<exists>n. reply_code (Response_String r) = Some n \<and> int n div 100 = RespClass r \<and>
    Response_String r =
      itoa (int n) @ '' '' @ esc_String (esc (RespClass r) (EnhancedCode r)) @ '' '' @ Response_comment r"
proof -
  let ?b = "getBasicStatusCode (esc (RespClass r) (EnhancedCode r))"
  have b: "?b div 100 = RespClass r" "200 \<le> ?b" "?b < 600"
    using getBasicStatusCode_cases [of "esc (RespClass r) (EnhancedCode r)"] assms(1) by auto
  then have "reply_code (Response_String r) = Some (nat ?b)"
    using assms(2) by (subst Response_String_reply_code) auto
  with b assms(2) show ?thesis
    by (intro exI [of _ "nat ?b"]) (simp add: Response_String_def Let_def)
qed

theorem Response_String_class_agrees_witness:
  "\<exists>n. reply_code (resp ''.1.5'' 0 2 []) = Some n \<and> int n div 100 = 2 \<and>
    resp ''.1.5'' 0 2 [] = itoa (int n) @ '' '' @ esc_String (esc 2 ''.1.5'') @ '' '' @ ''OK''"
  using Response_String_class_agrees
    [of "\<lparr>EnhancedCode = ''.1.5'', BasicCode = 0, RespClass = 2, Comment = []\<rparr>"]
  by (simp add: Response_comment_def defaultTexts_def)

lemma Codes_zero_basic:
  "resp OtherAddressStatus 0 ClassSuccess [] = ''250 2.1.0 OK''"
  "resp DestinationMailboxAddressValid 0 ClassSuccess [] = ''250 2.1.5 OK''"
  "resp OtherStatus 0 ClassSuccess [] = ''200 2.0.0 OK''"
  by code_simp+

lemma Codes_eqs:
  "Codes FailLineTooLong = ''554 5.5.1 Line too long!''"
  "Codes FailNestedMailCmd = ''503 5.5.1 Nested mail command!''"
  "Codes FailNoSenderDataCmd = ''503 5.5.1 No sender!''"
  "Codes FailNoRecipientsDataCmd = ''503 5.5.1 No recipients!''"
  "Codes FailUnrecognizedCmd = ''554 5.5.1 Unrecognized command!''"
  "Codes FailMaxUnrecognizedCmd = ''554 5.5.1 Too many unrecognized commands!''"
  "Codes FailReadLimitExceededDataCmd = ''550 5.5.2 ERR ''"
  "Codes FailMessageSizeExceeded = []"
  "Codes FailReadErrorDataCmd = ''451 4.3.0 ERR ''"
  "Codes FailPathTooLong = ''550 5.5.4 Path too long''"
  "Codes FailInvalidAddress = ''501 5.5.4 Syntax: MAIL FROM:<address> [EXT]''"
  "Codes FailLocalPartTooLong = ''550 5.5.4 Local part too long, cannot exceed 64 characters''"
  "Codes FailInvalidExtension = ''501 5.5.4 Invalid arguments''"
  "Codes FailAuthentication = ''535 5.5.0 ERR Authentication failed''"
  "Codes FailUnqalifiedHostName = ''550 5.5.2 Need fully-qualified hostname for domain part''"
  "Codes FailDomainTooLong = ''550 5.5.4 Domain cannot exceed 255 characters''"
  "Codes FailBackendNotRunning = ''554 5.5.0 Transaction failed - backend not running ''"
  "Codes FailBackendTransaction = ''554 5.5.0 ERR ''"
  "Codes FailTooBig = ''552 4.2.3 Message exceeds maximum size!''"
  "Codes FailBackendTimeout = ''554 5.5.0 ERR transaction timeout''"
  "Codes FailRcptCmd = ''550 5.1.1 User unknown in local recipient table''"
  "Codes FailCmdNotSupported = ''502 5 Cmd not supported''"
  "Codes FailRelayAccessDenied = []"
  "Codes FailMailboxDoesntExist = ''550 5.5.1 Sorry, no mailbox here by that name!''"
  "Codes FailMailboxFull = ''522 5.2.2 Users mailbox is full!''"
  "Codes FailBadSenderMailboxAddressSyntax = ''501 5.1.7 Bad sender address syntax''"
  "Codes FailBadDestinationMailboxAddressSyntax = ''501 5.1.7 Bad sender address syntax''"
  "Codes FailAccessDenied = ''554 5.7.1 Relay access denied!''"
  "Codes FailBadSequence = ''503 5.5.1 Bad sequence!''"
  "Codes FailInvalidRecipient = ''501 5.5.4 Syntax: RCPT TO:<address>''"
  "Codes FailEncryptionNeeded = ''523 5.7.10 TLS required, use STARTTLS''"
  "Codes FailMissingArgument = ''550 5.5.4 Argument is missing in you command''"
  "Codes FailUndefinedSecurityStatus = ''550 5.7.0 Undefined security failure''"
  "Codes ErrorTooManyRecipients = ''452 4.5.3 Too many recipients!''"
  "Codes ErrorRelayDenied = ''454 4.1.1 Relay access denied!''"
  "Codes ErrorShutdown = ''421 4.3.0 Server is shutting down. Please try again later!''"
  "Codes ErrorRelayAccess = ''455 4.3.0 Oops, problem with relay access!''"
  "Codes ErrorAuth = ''454 4.3.0 Problem with auth!''"
  "Codes ErrorUnableToResolveHost = ''451 4 Unable to resolve host!''"
  "Codes ErrorCmdParamNotImplemented = ''504 5.5.4 ERR Command parameter not implemented''"
  "Codes SuccessAuthentication = ''235 2.7.0 Authentication successful!''"
  "Codes SuccessMailCmd = ''250 2.1.0 OK''"
  "Codes SuccessRcptCmd = ''250 2.1.5 OK''"
  "Codes SuccessResetCmd = ''250 2.1.0 OK''"
  "Codes SuccessVerifyCmd = ''252 2.5.0 Cannot verify user!''"
  "Codes SuccessNoopCmd = ''200 2.0.0 OK''"
  "Codes SuccessQuitCmd = ''221 2.0.0 Bye!''"
  "Codes SuccessDataCmd = ''354 Go ahead!''"
  "Codes SuccessHelpCmd = ''214''"
  "Codes SuccessStartTLSCmd = ''220 2.0.0 Ready to start TLS!''"
  "Codes SuccessMessageQueued = ''250 2.0.0 OK Queued as ''"
  by (simp_all add: Codes_rendered Codes_zero_basic Response_String_basic itoa_1 itoa_3 char_of_digits)

text \<open>
  C27: The table of prepared replies: the code a client reads in each of them, for every
  field. The two fields \<open>init\<close> never assigns are empty, which is no reply at all; every
  other field is a reply line of class 2, 3, 4 or 5.
\<close>

theorem Codes_reply_code:
  "(\<exists>n. reply_code (Codes f) = Some n \<and> 200 \<le> n \<and> n < 600)
     \<longleftrightarrow> f \<noteq> FailMessageSizeExceeded \<and> f \<noteq> FailRelayAccessDenied"
  by (cases f) (simp_all add: Codes_eqs reply_code_def digit_val_def)

text \<open>
  C28: Among the replies that carry an enhanced code, the class digit of the enhanced code is
  the first digit of the reply code in every one but \<open>FailTooBig\<close>, which is sent as
  \<open>552 4.2.3\<close>: permanent to a client that reads the basic code and transient to one that
  reads the enhanced code.
\<close>

theorem Codes_class_mismatch_only_FailTooBig:
  "f \<notin> {FailMessageSizeExceeded, FailRelayAccessDenied, SuccessDataCmd, SuccessHelpCmd} \<Longrightarrow>
   (Codes f ! 4 = Codes f ! 0) \<longleftrightarrow> f \<noteq> FailTooBig"
  by (cases f) (simp_all add: Codes_eqs)

theorem Codes_class_mismatch_witness:
  "(Codes FailBadSequence ! 4 = Codes FailBadSequence ! 0) \<and> (Codes FailTooBig ! 4 \<noteq> Codes FailTooBig ! 0)"
  using Codes_class_mismatch_only_FailTooBig [of FailBadSequence]
    Codes_class_mismatch_only_FailTooBig [of FailTooBig] by simp

end
