(* ===== verification/Address.thy ===== *)
theory Address
  imports Server Response
begin

text \<open>
  \<open>address.go\<close>: address parsing, the host of an address and the check that the host has an
  MX or address record. The mail parser and the two lookups are arguments. \<open>IsFQN\<close> returns
  the reply to send, or the empty string; a nil address is a run-time panic.
\<close>

definition parseAddress :: "(string \<Rightarrow> go_error + mail_address) \<Rightarrow> string \<Rightarrow> go_error + mail_address" where
  "parseAddress pa src =
     (case pa src of
        Inl err \<Rightarrow> Inl (OtherError ''*errors.errorString'' (''malformed e-mail address: '' @ src))
      | Inr addr \<Rightarrow> Inr addr)"

definition hostname :: "mail_address option \<Rightarrow> string go" where
  "hostname addr =
     (case addr of
        None \<Rightarrow> Inl NilDereference
      | Some a \<Rightarrow> go_nth (Split CHR ''@'' (Address a)) 1)"

definition fqn ::
  "(string \<Rightarrow> go_error option) \<Rightarrow> (string \<Rightarrow> go_error option) \<Rightarrow> string \<Rightarrow> bool \<times> go_error option" where
  "fqn mx ah host =
     (case mx host of
        None \<Rightarrow> (True, None)
      | Some err \<Rightarrow>
          if HasSuffix (Error_text err) ''no such host''
          then (case ah host of Some err' \<Rightarrow> (False, Some err') | None \<Rightarrow> (True, None))
          else (True, None))"

definition IsFQN ::
  "(string \<Rightarrow> go_error option) \<Rightarrow> (string \<Rightarrow> go_error option) \<Rightarrow> mail_address option \<Rightarrow> string go" where
  "IsFQN mx ah addr =
     go_bind (hostname addr) (\<lambda>host.
       case fqn mx ah host of
         (_, Some err) \<Rightarrow> Inr (Codes ErrorUnableToResolveHost)
       | (ok, None) \<Rightarrow> if \<not> ok then Inr (Codes FailUnqalifiedHostName) else Inr [])"

lemma parseAddress_Inr [simp]: "parseAddress pa src = Inr a \<longleftrightarrow> pa src = Inr a"
  by (simp add: parseAddress_def split: sum.split)

lemma fqn_cases: "fqn mx ah host = (True, None) \<or> (\<exists>err. fqn mx ah host = (False, Some err))"
  by (auto simp: fqn_def split: option.split)

text \<open>
  C39: \<open>IsFQN\<close> on an address with an \<open>@\<close> answers "unable to resolve" exactly when the MX
  lookup of the host says there is no such host and the address lookup fails too, and accepts
  in every other case: the reply "need fully-qualified hostname" is never given.
\<close>

theorem IsFQN_correct:
  assumes "CHR ''@'' \<in> set (Address a)"
  shows "\<exists>host. hostname (Some a) = Inr host \<and>
    IsFQN mx ah (Some a) = Inr
      (if (\<exists>e. mx host = Some e \<and> HasSuffix (Error_text e) ''no such host'') \<and> ah host \<noteq> None
       then Codes ErrorUnableToResolveHost else [])"
proof -
  have "1 < length (Split CHR ''@'' (Address a))"
    using assms by (simp add: length_Split count_list_0_iff flip: neq0_conv)
  then obtain host where "hostname (Some a) = Inr host"
    by (auto simp: hostname_def go_nth_def)
  then show ?thesis
    by (auto simp: IsFQN_def fqn_def split: option.split)
qed

theorem IsFQN_correct_witness:
  "\<exists>host. hostname (Some \<lparr>Name = [], Address = ''a@b.c''\<rparr>) = Inr host \<and>
    IsFQN (\<lambda>h. Some (OtherError ''*net.DNSError'' ''lookup b.c: no such host'')) (\<lambda>h. Some EOF)
      (Some \<lparr>Name = [], Address = ''a@b.c''\<rparr>) = Inr (Codes ErrorUnableToResolveHost)"
  using IsFQN_correct [of "\<lparr>Name = [], Address = ''a@b.c''\<rparr>"
      "\<lambda>h. Some (OtherError ''*net.DNSError'' ''lookup b.c: no such host'')" "\<lambda>h. Some EOF"]
  by (simp add: HasSuffix_def)

end
