(* ===== verification/Command.thy ===== *)
theory Command
  imports GoStrings
begin

text \<open>
  \<open>command.go\<close>: the parsed command, the command codes (the indices of the handler table
  of \<open>session.go\<close>) and \<open>parseCommand\<close>. A nil argument slice is the empty list;
  \<open>strings.Split\<close> never returns an empty slice, so the two cannot be confused. The
  parser is characterised in both directions: what it accepts is the verb and the arguments
  joined by single spaces, and every such line is accepted. The interface the session relies
  on is the locale \<open>command_syntax\<close>, interpreted on \<open>parseCommand\<close>.
\<close>

section \<open>The model\<close>

record command =
  commandCode :: nat
  verb :: string
  cmd_data :: string
  arguments :: "string list"

abbreviation heloCmd :: nat where "heloCmd \<equiv> 0"
abbreviation ehloCmd :: nat where "ehloCmd \<equiv> 1"
abbreviation quitCmd :: nat where "quitCmd \<equiv> 2"
abbreviation rsetCmd :: nat where "rsetCmd \<equiv> 3"
abbreviation noopCmd :: nat where "noopCmd \<equiv> 4"
abbreviation mailCmd :: nat where "mailCmd \<equiv> 5"
abbreviation rcptCmd :: nat where "rcptCmd \<equiv> 6"
abbreviation dataCmd :: nat where "dataCmd \<equiv> 7"
abbreviation starttlsCmd :: nat where "starttlsCmd \<equiv> 8"
abbreviation vrfyCmd :: nat where "vrfyCmd \<equiv> 9"
abbreviation expnCmd :: nat where "expnCmd \<equiv> 10"
abbreviation helpCmd :: nat where "helpCmd \<equiv> 11"
abbreviation authCmd :: nat where "authCmd \<equiv> 12"
abbreviation bdatCmd :: nat where "bdatCmd \<equiv> 13"

fun isall7bit :: "string \<Rightarrow> bool" where
  "isall7bit [] = True"
| "isall7bit (c # b) = (if byte c > 127 then False else isall7bit b)"

text \<open>The \<open>switch\<close> of \<open>parseCommand\<close> on the upper-cased verb.\<close>

definition verb_code :: "string \<Rightarrow> nat option" where
  "verb_code v =
     (if v = ''HELO'' then Some heloCmd
      else if v = ''EHLO'' then Some ehloCmd
      else if v = ''QUIT'' then Some quitCmd
      else if v = ''RSET'' then Some rsetCmd
      else if v = ''NOOP'' then Some noopCmd
      else if v = ''MAIL'' then Some mailCmd
      else if v = ''RCPT'' then Some rcptCmd
      else if v = ''DATA'' then Some dataCmd
      else if v = ''STARTTLS'' then Some starttlsCmd
      else if v = ''VRFY'' then Some vrfyCmd
      else if v = ''EXPN'' then Some expnCmd
      else if v = ''HELP'' then Some helpCmd
      else if v = ''AUTH'' then Some authCmd
      else if v = ''BDAT'' then Some bdatCmd
      else None)"

definition parseCommand :: "rune_map \<Rightarrow> string \<Rightarrow> string + command" where
  "parseCommand U line =
     (let parts = SplitN2 CHR '' '' line
      in if parts = [] then Inl ''command empty''
         else if \<not> isall7bit (parts ! 0) then Inl ''command contains non 7-bit ASCII''
         else case verb_code (ToUpper U (parts ! 0)) of
             None \<Rightarrow> Inl ''unrecognized command''
           | Some cmdCode \<Rightarrow>
               let cmd = \<lparr>commandCode = cmdCode, verb = parts ! 0, cmd_data = line,
                          arguments = (if 1 < length parts then Split CHR '' '' (parts ! 1) else [])\<rparr>
               in if commandCode cmd \<in> {rsetCmd, dataCmd, quitCmd} \<and> arguments cmd \<noteq> []
                  then Inl ''unexpected argument''
                  else Inr cmd)"

definition command_String :: "command \<Rightarrow> string" where
  "command_String cmd = cmd_data cmd"

section \<open>Characterisation of the parser\<close>

lemma isall7bit_iff: "isall7bit b \<longleftrightarrow> list_all ascii b"
  by (induction b) (auto simp: ascii_def)

lemma verb_code_less: "verb_code v = Some c \<Longrightarrow> c < 14"
  by (auto simp: verb_code_def split: if_splits)

lemma verb_code_inj: "verb_code v = Some c \<Longrightarrow> verb_code w = Some c \<Longrightarrow> v = w"
  by (auto simp: verb_code_def split: if_splits)

lemma parts_cases:
  obtains (bare) "CHR '' '' \<notin> set line" "SplitN2 CHR '' '' line = [line]"
  | (args) v r where "CHR '' '' \<notin> set v" "line = v @ CHR '' '' # r" "SplitN2 CHR '' '' line = [v, r]"
proof (cases "CHR '' '' \<in> set line")
  case True
  then obtain v r where "line = v @ CHR '' '' # r" and "CHR '' '' \<notin> set v"
    by (blast dest: split_list_first)
  then show ?thesis by (intro args [of v r]) (auto simp: SplitN2_append)
next
  case False
  then show ?thesis by (intro bare) (auto simp: SplitN2_no_sep)
qed

text \<open>The lines the parser accepts, spelled out.\<close>

definition well_formed_command :: "rune_map \<Rightarrow> command \<Rightarrow> bool" where
  "well_formed_command U cmd \<longleftrightarrow>
     list_all ascii (verb cmd) \<and> CHR '' '' \<notin> set (verb cmd) \<and>
     verb_code (ToUpper U (verb cmd)) = Some (commandCode cmd) \<and>
     (\<forall>a \<in> set (arguments cmd). CHR '' '' \<notin> set a) \<and>
     cmd_data cmd = Join '' '' (verb cmd # arguments cmd) \<and>
     (commandCode cmd \<in> {rsetCmd, dataCmd, quitCmd} \<longrightarrow> arguments cmd = [])"

lemma parseCommand_bare:
  assumes "CHR '' '' \<notin> set line"
  shows "parseCommand U line =
    (if \<not> list_all ascii line then Inl ''command contains non 7-bit ASCII''
     else case verb_code (ToUpper U line) of
        None \<Rightarrow> Inl ''unrecognized command''
      | Some c \<Rightarrow> Inr \<lparr>commandCode = c, verb = line, cmd_data = line, arguments = []\<rparr>)"
  using assms by (simp add: parseCommand_def SplitN2_no_sep isall7bit_iff Let_def split: option.split)

lemma parseCommand_args:
  assumes "CHR '' '' \<notin> set v"
  shows "parseCommand U (v @ CHR '' '' # r) =
    (if \<not> list_all ascii v then Inl ''command contains non 7-bit ASCII''
     else case verb_code (ToUpper U v) of
        None \<Rightarrow> Inl ''unrecognized command''
      | Some c \<Rightarrow>
          if c \<in> {rsetCmd, dataCmd, quitCmd} then Inl ''unexpected argument''
          else Inr \<lparr>commandCode = c, verb = v, cmd_data = v @ CHR '' '' # r,
                    arguments = Split CHR '' '' r\<rparr>)"
  using assms by (simp add: parseCommand_def SplitN2_append isall7bit_iff Let_def split: option.split)

lemma parseCommand_sound:
  assumes "parseCommand U line = Inr cmd"
  shows "well_formed_command U cmd \<and> cmd_data cmd = line"
proof (cases line rule: parts_cases)
  case bare
  with assms show ?thesis
    by (auto simp: parseCommand_bare well_formed_command_def split: if_splits option.splits)
next
  case (args v r)
  have "Join '' '' (v # Split CHR '' '' r) = v @ CHR '' '' # r"
    by (simp add: Join_Cons Join_Split)
  with args assms show ?thesis
    by (auto simp: parseCommand_args well_formed_command_def split: if_splits option.splits
        dest: Split_parts_no_sep)
qed

lemma parseCommand_complete:
  assumes "well_formed_command U cmd"
  shows "parseCommand U (cmd_data cmd) = Inr cmd"
proof (cases "arguments cmd")
  case Nil
  with assms show ?thesis
    by (auto simp: well_formed_command_def parseCommand_bare)
next
  case (Cons a as)
  then have ne: "arguments cmd \<noteq> []" by simp
  with assms have eq: "cmd_data cmd = verb cmd @ CHR '' '' # Join '' '' (arguments cmd)"
    by (simp add: well_formed_command_def Join_Cons)
  have "Split CHR '' '' (Join '' '' (arguments cmd)) = arguments cmd"
    using assms ne by (intro Split_Join) (auto simp: well_formed_command_def)
  with assms ne show ?thesis
    by (auto simp: well_formed_command_def parseCommand_args Join_Cons)
qed

lemma well_formed_command_table: "well_formed_command U cmd \<Longrightarrow> well_formed_command U' cmd"
  by (auto simp: well_formed_command_def ToUpper_ascii)

section \<open>The interface of the session loop\<close>

text \<open>
  What the session relies on: a parse either fails or gives a command whose code is an
  index of the handler table and whose text is the line, and the parse of a command's text
  gives the command back.
\<close>

locale command_syntax =
  fixes parse :: "string \<Rightarrow> 'e + command"
    and valid :: "command \<Rightarrow> bool"
  assumes parse_valid: "parse line = Inr cmd \<Longrightarrow> valid cmd"
    and parse_text: "parse line = Inr cmd \<Longrightarrow> command_String cmd = line"
    and valid_parse: "valid cmd \<Longrightarrow> parse (command_String cmd) = Inr cmd"
    and valid_code: "valid cmd \<Longrightarrow> commandCode cmd < 14"
begin

lemma dispatch_in_range: "parse line = Inr cmd \<Longrightarrow> length hs = 14 \<Longrightarrow> \<exists>h. go_nth hs (commandCode cmd) = Inr h"
  using parse_valid valid_code by (auto simp: go_nth_def)

lemma reparse: "parse line = Inr cmd \<Longrightarrow> parse (command_String cmd) = Inr cmd"
  using parse_text by simp

lemma text_inj: "valid c \<Longrightarrow> valid d \<Longrightarrow> command_String c = command_String d \<Longrightarrow> c = d"
  using valid_parse by (metis sum.inject(2))

end

interpretation smtp_syntax: command_syntax "parseCommand U" "well_formed_command U" for U
proof
  fix cmd
  assume "well_formed_command U cmd"
  then show "commandCode cmd < 14"
    by (auto simp: well_formed_command_def dest: verb_code_less)
qed (auto simp: command_String_def dest: parseCommand_sound parseCommand_complete)

section \<open>Properties\<close>

text \<open>
  C7: \<open>parseCommand\<close> accepts a line exactly when it is the text of a well-formed command
  (a 7-bit verb of the command list in any letter case, then its arguments separated by
  single spaces, none for RSET, DATA and QUIT), and the command it returns is that command:
  parsing inverts printing.
\<close>

theorem parseCommand_iff:
  "parseCommand U line = Inr cmd \<longleftrightarrow> well_formed_command U cmd \<and> command_String cmd = line"
  using parseCommand_sound parseCommand_complete by (fastforce simp: command_String_def)

end
