(* ===== verification/Session.thy ===== *)
theory Session
  imports Address Command
begin

text \<open>
  \<open>session.go\<close>, first part: the session struct, its input and output, and the handlers
  that only answer (HELO, EHLO, VRFY, RSET, NOOP, QUIT, HELP, EXPN, STARTTLS). A handler takes
  the environment, the server, the command and the session and returns the new session or a
  panic. Logging, deadlines and the start time are not modelled: an expired deadline is an
  error event of the connection. The last field records the calls to the outside.
\<close>

section \<open>The session\<close>

datatype sessionState =
    sessionStateInit
  | sessionStateGotMail
  | sessionStateGotRcpt
  | sessionStateReadyForData
  | sessionStateGettingData
  | sessionStateDataDone
  | sessionStateAborted
  | sessionStateWaitingForQuit

record session =
  sid :: string
  remote_addr :: string
  local_addr :: string
  io :: bufio
  envelope :: envelope
  state :: sessionState
  badCommandsCount :: int
  vrfyCount :: int
  bodyType :: string
  peer :: Peer
  tls :: bool
  tlsState :: tls_state
  helloType :: int
  helloHost :: string
  helloSeen :: bool
  calls :: "call list"

type_synonym handler = "env \<Rightarrow> Server \<Rightarrow> command \<Rightarrow> session \<Rightarrow> session go"

definition Reset :: "session \<Rightarrow> session" where
  "Reset s = s\<lparr>envelope := Envelope_Reset (envelope s), state := sessionStateInit\<rparr>"

text \<open>\<open>ReadLine\<close> slices off the last two bytes: a line of one byte is a panic.\<close>

definition ReadLine :: "session \<Rightarrow> ((go_error + string) \<times> session) go" where
  "ReadLine s =
     (case ReadString (io s) of
        (Inl err, b) \<Rightarrow> Inr (Inl err, s\<lparr>io := b\<rparr>)
      | (Inr input, b) \<Rightarrow>
          if length input < 2 then Inl SliceBoundsOutOfRange
          else Inr (Inr (take (length input - 2) input), s\<lparr>io := b\<rparr>))"

definition Out :: "string list \<Rightarrow> session \<Rightarrow> session" where
  "Out msgs s =
     (case write_flush (concat (map (\<lambda>msg. msg @ CRLF) msgs)) (io s) of
        (True, b) \<Rightarrow> s\<lparr>io := b\<rparr>
      | (False, b) \<Rightarrow> s\<lparr>io := b, state := sessionStateAborted\<rparr>)"

definition abort :: "session \<Rightarrow> session" where
  "abort s = s\<lparr>state := sessionStateAborted\<rparr>"

definition bad_command :: "session \<Rightarrow> session" where
  "bad_command s = s\<lparr>badCommandsCount := int64 (badCommandsCount s + 1)\<rparr>"

text \<open>Recording a call to the outside.\<close>

definition ask :: "call \<Rightarrow> session \<Rightarrow> session" where
  "ask c s = s\<lparr>calls := calls s @ [c]\<rparr>"

definition handleWelcome :: "session \<Rightarrow> session" where
  "handleWelcome s =
     Out [''220 '' @ ServerName (peer s) @ '' ESMTP gomstp(0.0.1) I'm mr. Meeseeks, look at me!''] s"

definition Reject :: "session \<Rightarrow> session" where
  "Reject s = abort (Out [''421 Too busy. Try again later.''] s)"

section \<open>HELO and EHLO\<close>

text \<open>The optional check both greetings run on the announced host.\<close>

definition check_helo :: "Server \<Rightarrow> session \<Rightarrow> session" where
  "check_helo srv s =
     (case HeloChecker srv of
        None \<Rightarrow> s
      | Some f \<Rightarrow>
          let r = f (calls s) (peer s) (helloHost s);
              s1 = ask (CallHelo (peer s) (helloHost s) r) s
          in (case r of None \<Rightarrow> s1 | Some err \<Rightarrow> Out [''550 '' @ Error_text err] s1))"

definition ehloResp :: "Server \<Rightarrow> session \<Rightarrow> string list" where
  "ehloResp srv s =
     [''250-'' @ ''mail.example'' @ '' hello '' @ remote_addr s,
      ''250-8BITMIME'', ''250-CHUNKING'', ''250-BINARYMIME'', ''250-SMTPUTF8'',
      ''250-PIPELINING'', ''250-MT-PRIORITY'']
     @ (if TLSConfig srv then (if \<not> tls s then [''250-STARTTLS''] else []) else [])
     @ (if length (authMechanisms srv) \<noteq> 0 \<and> TLSConfig srv
        then [''250-AUTH '' @ Join '' '' (authMechanisms srv)] else [])
     @ [''250-HELP'', ''250 SIZE 35882577'']"

definition handleEhlo :: handler where
  "handleEhlo E srv cmd s =
     (let s1 = (Reset s)\<lparr>helloSeen := True, helloType := int (commandCode cmd)\<rparr>
      in go_bind (go_nth (arguments cmd) 0) (\<lambda>host.
           let s2 = check_helo srv (s1\<lparr>helloHost := host\<rparr>)
           in Inr (Out (ehloResp srv s2) s2)))"

definition handleHelo :: handler where
  "handleHelo E srv cmd s =
     (let s1 = (Reset s)\<lparr>helloSeen := True, helloType := int (commandCode cmd)\<rparr>
      in go_bind (go_nth (arguments cmd) 0) (\<lambda>host.
           let s2 = check_helo srv (s1\<lparr>helloHost := host\<rparr>)
           in Inr (Out [''250 '' @ ''mail.example'' @ '' hello '' @ remote_addr s2] s2)))"

section \<open>STARTTLS\<close>

text \<open>The raw bytes a failed handshake has taken from the connection.\<close>

fun net_drop :: "nat \<Rightarrow> netread list \<Rightarrow> netread list" where
  "net_drop 0 es = es"
| "net_drop n [] = []"
| "net_drop n (NetErr e # es) = es"
| "net_drop n (Chunk d # es) =
     (if length d \<le> n then net_drop (n - length d) es else Chunk (drop n d) # es)"

text \<open>
  A new \<open>bufio.ReadWriter\<close> over the TLS connection: what the old reader had buffered is
  gone. \<open>written\<close> goes on recording the application bytes sent, now through TLS.
\<close>

definition secure_io :: "netread list \<Rightarrow> nat option \<Rightarrow> bufio \<Rightarrow> bufio" where
  "secure_io es cap b = (NewReadWriter es cap)\<lparr>written := written b\<rparr>"

definition handleStartTLS :: handler where
  "handleStartTLS E srv cmd s =
     (if tls s then Inr (Out [Codes FailBadSequence] (bad_command s))
      else if \<not> TLSConfig srv then Inr (Out [Codes FailCmdNotSupported] s)
      else
        let s1 = Out [Codes SuccessStartTLSCmd] s
        in (case Handshake E (calls s1) of
              HandshakeFailed k err \<Rightarrow>
                let s2 = ask (CallHandshake False) (s1\<lparr>io := (io s1)\<lparr>net := net_drop k (net (io s1))\<rparr>\<rparr>)
                in Inr (Out [Codes FailUndefinedSecurityStatus] s2)
            | HandshakeDone st es cap \<Rightarrow>
                let s2 = Reset (ask (CallHandshake True) s1)
                in Inr (s2\<lparr>io := secure_io es cap (io s2), tls := True, tlsState := st,
                           peer := (peer s2)\<lparr>TLS := Some st\<rparr>, state := sessionStateInit\<rparr>)))"

section \<open>The remaining plain replies\<close>

definition handleVrfy :: handler where
  "handleVrfy E srv cmd s =
     Inr (Out [''252 send some mail, i'll try my best''] (s\<lparr>vrfyCount := int64 (vrfyCount s + 1)\<rparr>))"

definition handleRset :: handler where
  "handleRset E srv cmd s =
     Inr (Out [Codes SuccessResetCmd]
       (s\<lparr>envelope := Envelope_Reset (envelope s), state := sessionStateInit\<rparr>))"

definition handleNoop :: handler where
  "handleNoop E srv cmd s = Inr (Out [Codes SuccessNoopCmd] s)"

definition handleQuit :: handler where
  "handleQuit E srv cmd s = Inr (abort (Out [Codes SuccessQuitCmd] s))"

definition handleHelp :: handler where
  "handleHelp E srv cmd s = Inr (Out [Codes SuccessHelpCmd @ '' CaN yOu HelP Me PLeasE!''] s)"

definition handleExpn :: handler where
  "handleExpn E srv cmd s = Inr (Out [''252''] s)"

section \<open>What the operations leave alone\<close>

lemma Out_io: "io (Out msgs s) = snd (write_flush (concat (map (\<lambda>msg. msg @ CRLF) msgs)) (io s))"
  by (auto simp: Out_def split: prod.splits bool.splits)

lemma Out_frame [simp]:
  "sid (Out m s) = sid s" "remote_addr (Out m s) = remote_addr s"
  "local_addr (Out m s) = local_addr s" "envelope (Out m s) = envelope s"
  "badCommandsCount (Out m s) = badCommandsCount s" "vrfyCount (Out m s) = vrfyCount s"
  "bodyType (Out m s) = bodyType s" "peer (Out m s) = peer s" "tls (Out m s) = tls s"
  "tlsState (Out m s) = tlsState s" "helloType (Out m s) = helloType s"
  "helloHost (Out m s) = helloHost s" "helloSeen (Out m s) = helloSeen s"
  "calls (Out m s) = calls s"
  by (auto simp: Out_def split: prod.splits bool.splits)

lemma Out_state: "state (Out m s) = state s \<or> state (Out m s) = sessionStateAborted"
  by (auto simp: Out_def split: prod.splits bool.splits)

lemma Out_input_size [simp]: "input_size (io (Out m s)) = input_size (io s)"
  by (simp add: Out_io frame)

lemma Out_rbuf_net [simp]: "rbuf (io (Out m s)) = rbuf (io s)" "net (io (Out m s)) = net (io s)"
  by (simp_all add: Out_io frame)

text \<open>On a connection that accepts writes, \<open>Out\<close> appends its lines and does nothing else.\<close>

definition reply :: "string list \<Rightarrow> session \<Rightarrow> session" where
  "reply msgs s =
     s\<lparr>io := (io s)\<lparr>written := written (io s) @ concat (map (\<lambda>msg. msg @ CRLF) msgs)\<rparr>\<rparr>"

lemma Out_writable: "writable (io s) \<Longrightarrow> Out msgs s = reply msgs s"
  by (simp add: Out_def reply_def write_flush_writable)

lemma Out_writable_state [simp]: "writable (io s) \<Longrightarrow> state (Out m s) = state s"
  by (simp add: Out_writable reply_def)

lemma writable_Out [simp]: "writable (io s) \<Longrightarrow> writable (io (Out m s))"
  by (simp add: Out_writable reply_def writable_def)

lemma written_Out [simp]:
  "writable (io s) \<Longrightarrow> written (io (Out m s)) = written (io s) @ concat (map (\<lambda>msg. msg @ CRLF) m)"
  by (simp add: Out_writable reply_def)

lemma pending_Out [simp]: "pending (io (Out m s)) = pending (io s)" "failure (io (Out m s)) = failure (io s)"
  by (simp_all add: pending_def failure_def)

lemma abort_frame [simp]:
  "io (abort s) = io s" "envelope (abort s) = envelope s" "badCommandsCount (abort s) = badCommandsCount s"
  "peer (abort s) = peer s" "tls (abort s) = tls s" "helloSeen (abort s) = helloSeen s"
  "calls (abort s) = calls s" "state (abort s) = sessionStateAborted" "bodyType (abort s) = bodyType s"
  by (simp_all add: abort_def)

lemma bad_command_frame [simp]:
  "io (bad_command s) = io s" "envelope (bad_command s) = envelope s" "state (bad_command s) = state s"
  "peer (bad_command s) = peer s" "tls (bad_command s) = tls s" "helloSeen (bad_command s) = helloSeen s"
  "calls (bad_command s) = calls s" "bodyType (bad_command s) = bodyType s"
  "badCommandsCount (bad_command s) = int64 (badCommandsCount s + 1)"
  by (simp_all add: bad_command_def)

lemma ask_frame [simp]:
  "io (ask c s) = io s" "envelope (ask c s) = envelope s" "state (ask c s) = state s"
  "peer (ask c s) = peer s" "tls (ask c s) = tls s" "helloSeen (ask c s) = helloSeen s"
  "badCommandsCount (ask c s) = badCommandsCount s" "calls (ask c s) = calls s @ [c]"
  "bodyType (ask c s) = bodyType s" "helloHost (ask c s) = helloHost s" "sid (ask c s) = sid s"
  "remote_addr (ask c s) = remote_addr s" "local_addr (ask c s) = local_addr s"
  "tlsState (ask c s) = tlsState s" "helloType (ask c s) = helloType s"
  by (simp_all add: ask_def)

lemma Reset_frame [simp]:
  "io (Reset s) = io s" "envelope (Reset s) = Envelope_Reset (envelope s)"
  "state (Reset s) = sessionStateInit" "peer (Reset s) = peer s" "tls (Reset s) = tls s"
  "helloSeen (Reset s) = helloSeen s" "badCommandsCount (Reset s) = badCommandsCount s"
  "calls (Reset s) = calls s" "bodyType (Reset s) = bodyType s" "remote_addr (Reset s) = remote_addr s"
  by (simp_all add: Reset_def)

lemma net_drop_size: "net_size (net_drop n es) \<le> net_size es"
  by (induction n es rule: net_drop.induct) auto

lemma ReadLine_Inr:
  assumes "ReadLine s = Inr (r, s')"
  shows "s' = s\<lparr>io := io s'\<rparr>" and "input_size (io s') \<le> input_size (io s)"
    and "r = Inr l \<Longrightarrow> input_size (io s') < input_size (io s)"
    and "writable (io s') = writable (io s)" and "written (io s') = written (io s)"
  using assms
  by (auto simp: ReadLine_def split: prod.splits sum.splits if_splits
      dest: ReadString_size ReadString_progress ReadString_frame ReadString_writable)

lemma ReadLine_frame:
  assumes "ReadLine s = Inr (r, s')"
  shows "peer s' = peer s" and "tls s' = tls s" and "badCommandsCount s' = badCommandsCount s"
    and "envelope s' = envelope s" and "state s' = state s" and "calls s' = calls s"
    and "helloSeen s' = helloSeen s"
  using assms by (auto simp: ReadLine_def split: prod.splits sum.splits if_splits)

text \<open>A session that expects a CRLF-terminated line reads exactly that line.\<close>

lemma ReadLine_line:
  assumes "pending (io s) = l @ CRLF @ rest" and "LF \<notin> set l"
  shows "\<exists>b. ReadLine s = Inr (Inr l, s\<lparr>io := b\<rparr>) \<and> pending b = rest \<and> failure b = failure (io s) \<and>
    writable b = writable (io s) \<and> written b = written (io s)"
proof -
  have "pending (io s) = (l @ [CR]) @ LF # rest" "LF \<notin> set (l @ [CR])"
    using assms by auto
  from bufio_lines.read_prefix_line [OF this] obtain b
    where "ReadString (io s) = (Inr ((l @ [CR]) @ [LF]), b)" "pending b = rest" "failure b = failure (io s)"
    by blast
  then show ?thesis
    by (intro exI [of _ b]) (auto simp: ReadLine_def dest: ReadString_frame ReadString_writable)
qed

lemma check_helo_frame [simp]:
  "input_size (io (check_helo srv s)) = input_size (io s)" "envelope (check_helo srv s) = envelope s"
  "badCommandsCount (check_helo srv s) = badCommandsCount s" "peer (check_helo srv s) = peer s"
  "tls (check_helo srv s) = tls s" "helloSeen (check_helo srv s) = helloSeen s"
  "bodyType (check_helo srv s) = bodyType s" "remote_addr (check_helo srv s) = remote_addr s"
  by (auto simp: check_helo_def Let_def split: option.split)

lemma check_helo_state: "state (check_helo srv s) = state s \<or> state (check_helo srv s) = sessionStateAborted"
  using Out_state by (auto simp: check_helo_def Let_def split: option.split) (metis Out_state ask_frame(3))+

lemma check_helo_calls:
  "calls (check_helo srv s) = calls s \<or> (\<exists>p h r. calls (check_helo srv s) = calls s @ [CallHelo p h r])"
  by (auto simp: check_helo_def Let_def split: option.split)

section \<open>Lines of the byte stream\<close>

text \<open>
  What \<open>ReadLine\<close> should do on a stream of bytes that ends with an error: the line up to
  the line feed without the byte before it, and the rest of the stream.
\<close>

definition next_line :: "go_error \<Rightarrow> string \<Rightarrow> ((go_error + string) \<times> string) go" where
  "next_line err bs =
     (let l = takeWhile (\<lambda>c. c \<noteq> LF) bs
      in if l = bs then Inr (Inl err, [])
         else if l = [] then Inl SliceBoundsOutOfRange
         else Inr (Inr (butlast l), drop (Suc (length l)) bs))"

text \<open>
  C12: \<open>ReadLine\<close> depends only on the bytes of the stream, never on how the network cuts
  them into segments or on what is already buffered: it is the next line of the stream. It
  fails exactly when no line feed is left, drops the byte before the line feed whatever it is,
  and a line that consists of the line feed alone is a run-time panic.
\<close>

theorem ReadLine_eq_next_line:
  "map_sum id (\<lambda>(r, s'). (r, case r of Inl _ \<Rightarrow> [] | Inr _ \<Rightarrow> pending (io s'))) (ReadLine s) =
   next_line (failure (io s)) (pending (io s))"
proof (cases "LF \<in> set (pending (io s))")
  case False
  then show ?thesis
    by (auto simp: ReadLine_def ReadString_fail next_line_def Let_def)
next
  case True
  let ?l = "takeWhile (\<lambda>c. c \<noteq> LF) (pending (io s))"
  obtain b where b: "ReadString (io s) = (Inr (?l @ [LF]), b)" "pending b = tl (dropWhile (\<lambda>c. c \<noteq> LF) (pending (io s)))"
    using bufio_lines.read_line [OF True] by blast
  have "pending b = drop (Suc (length ?l)) (pending (io s))"
    unfolding b(2) by (simp add: dropWhile_eq_drop drop_Suc drop_tl)
  with b(1) True show ?thesis
    by (auto simp: ReadLine_def next_line_def Let_def butlast_conv_take takeWhile_eq_all_conv)
qed

end
