(* ===== verification/Example.thy ===== *)
theory Example
  imports Session
begin

text \<open>
  A concrete environment, server and session, on which the hypotheses of the properties are
  checked: a server with a recipient checker that accepts everybody and a delivery function
  that always queues, and a client at a fixed address.
\<close>

definition ex_env :: env where
  "ex_env =
     \<lparr>ParseAddress = (\<lambda>src. if CHR ''@'' \<in> set (removeBrackets src)
        then Inr \<lparr>Name = [], Address = removeBrackets src\<rparr> else Inl EOF),
      ReadMessage = (\<lambda>d. (Inr \<lparr>Header = Map.empty, Body = d\<rparr>, [])),
      LookupMX = (\<lambda>cs h. None), LookupHost = (\<lambda>cs h. None), LookupAddr = (\<lambda>cs ip. Inl EOF),
      Handshake = (\<lambda>cs. HandshakeFailed 0 EOF), now_Unix = (\<lambda>cs. 1500000000),
      now_RFC1123 = (\<lambda>cs. ''Fri, 14 Jul 2017 02:40:00 UTC''),
      VersionFromConnection = (\<lambda>st. ''TLS1.2''), CipherSuiteFromConnection = (\<lambda>st. ''AES''),
      unicode_ToUpper = id, unicode_ToLower = id, maxAlloc = 2 ^ 40\<rparr>"

definition ex_srv :: Server where
  "ex_srv = (NewServer '':25'' [])\<lparr>Hostname := ''mx.example'',
     Handler := Some (\<lambda>cs p e. Inr ''id1''), RecipientChecker := Some (\<lambda>cs p a. None)\<rparr>"

definition ex_peer :: Peer where
  "ex_peer = \<lparr>HeloName = [], HeloType = [], Protocol = [], ServerName = ''mx.example'', Username = [],
     Authenticated = False, Addr = ''10.0.0.1:5000'', TLS = None\<rparr>"

definition ex_from :: mail_address where "ex_from = \<lparr>Name = [], Address = ''a@b.c''\<rparr>"
definition ex_to :: mail_address where "ex_to = \<lparr>Name = [], Address = ''x=y@b.c''\<rparr>"

text \<open>Its sessions: what is left to read, what was sent, and the fields a transaction changes.\<close>

definition ex_session ::
  "netread list \<Rightarrow> string \<Rightarrow> sessionState \<Rightarrow> envelope \<Rightarrow> bool \<Rightarrow> call list \<Rightarrow> session" where
  "ex_session es out st e hello cs =
     \<lparr>sid = ''sid'', remote_addr = ''10.0.0.1:5000'', local_addr = ''10.0.0.2:25'',
      io = \<lparr>rbuf = [], net = es, written = out, wcap = None, werr = False\<rparr>, envelope = e, state = st,
      badCommandsCount = 0, vrfyCount = 0, bodyType = [], peer = ex_peer, tls = False,
      tlsState = zero_tls_state, helloType = (if hello then 1 else 0),
      helloHost = (if hello then ''me'' else []), helloSeen = hello, calls = cs\<rparr>"

section \<open>Reading and writing on it\<close>

text \<open>Reading a line that arrives in one segment.\<close>

lemma ReadString_segment:
  assumes "rbuf b = []" and "net b = Chunk (l @ CRLF) # es" and "LF \<notin> set l" and "length l < 4000"
  shows "ReadString b = (Inr (l @ CRLF), b\<lparr>net := es\<rparr>)"
proof -
  have "read_delim [] [] (Chunk (l @ CRLF) # es) = read_delim [] (l @ CRLF) es"
    using assms(4) by (subst read_delim.simps) simp
  also have "\<dots> = (Inr (l @ CRLF), [], es)"
    using assms(3) by (subst read_delim_eqs(1)) (auto simp: neq_append_simps)
  finally show ?thesis
    using assms(1,2) by (simp add: ReadString_def)
qed

lemma ex_ReadLine:
  assumes "LF \<notin> set l" and "length l < 4000"
  shows "ReadLine (ex_session (Chunk (l @ CRLF) # es) out st e hello cs) = Inr (Inr l, ex_session es out st e hello cs)"
  using assms by (simp add: ReadLine_def ex_session_def ReadString_segment)

lemma ex_Out: "\<exists>out'. Out m (ex_session es out st e hello cs) = ex_session es out' st e hello cs"
  by (simp add: ex_session_def Out_def write_flush_def)

end
