(* ===== verification/Policy.thy ===== *)
theory Policy
  imports Example "HOL-Library.Sublist"
begin

text \<open>
  The safety policy of a session and the contract of a command handler. \<open>session_inv\<close> is
  the invariant between two commands; it speaks about the session's fields and about the log
  of its calls to the outside (\<open>log_ok\<close>: who may be asked what, and when). \<open>evolves\<close>
  is what no handler undoes. The locale \<open>session_handler\<close> is the contract the main loop
  relies on; the plain handlers of the theory \<open>Session\<close> are interpreted here, the others
  in their own theories.
\<close>

section \<open>The policy\<close>

text \<open>The calls that allowed something.\<close>

fun rcpt_accepted :: "mail_address \<Rightarrow> call \<Rightarrow> bool" where
  "rcpt_accepted r (CallRcpt p a None) \<longleftrightarrow> a = r"
| "rcpt_accepted r _ \<longleftrightarrow> False"

fun login_accepted :: "string \<Rightarrow> call \<Rightarrow> bool" where
  "login_accepted u (CallAuth p pw (Inr ok)) \<longleftrightarrow> ok \<and> Username p = u"
| "login_accepted u _ \<longleftrightarrow> False"

text \<open>
  The domain check of a MAIL command. \<open>CallDNS (Some a) []\<close> records that the check of the
  domain of \<open>a\<close> did not object; as \<open>IsFQN\<close> is written it objects only when the lookups say
  that there is no such host.
\<close>

fun is_mail_check :: "call \<Rightarrow> bool" where
  "is_mail_check (CallDNS a err) \<longleftrightarrow> True"
| "is_mail_check _ \<longleftrightarrow> False"

definition auth_ok :: "Server \<Rightarrow> Peer \<Rightarrow> bool" where
  "auth_ok srv p \<longleftrightarrow> authMechanisms srv = [] \<or> Authenticated p"

text \<open>
  The log of the current transaction: the domain check of its MAIL passed and no later MAIL
  got that far, right before it the sender checker (if there is one) accepted the same
  address, and since then the recipient checker accepted every recipient \<open>rs\<close>.
\<close>

definition tx_log :: "Server \<Rightarrow> mail_address list \<Rightarrow> call list \<Rightarrow> bool" where
  "tx_log srv rs cs \<longleftrightarrow>
     (\<exists>cs1 a cs2. cs = cs1 @ CallDNS (Some a) [] # cs2 \<and> (\<forall>c \<in> set cs2. \<not> is_mail_check c) \<and>
       (SenderChecker srv \<noteq> None \<longrightarrow> (\<exists>cs0 q. cs1 = cs0 @ [CallSender q a None])) \<and>
       (\<forall>r \<in> set rs. \<exists>q. CallRcpt q r None \<in> set cs2))"

text \<open>What has to hold, of the calls made before, when a call is made.\<close>

fun call_ok :: "Server \<Rightarrow> call list \<Rightarrow> call \<Rightarrow> bool" where
  "call_ok srv cs (CallHandler p e r) \<longleftrightarrow>
     MailTo e \<noteq> [] \<and> length (MailTo e) \<le> 201 \<and> MailFrom e = None \<and>
     tx_log srv (MailTo e) cs \<and>
     auth_ok srv p \<and> (TLSOnly srv \<longrightarrow> TLS p \<noteq> None) \<and>
     (Authenticated p \<longrightarrow> TLS p \<noteq> None \<and> list_ex (login_accepted (Username p)) cs)"
| "call_ok srv cs (CallAuth p pw r) \<longleftrightarrow>
     TLS p \<noteq> None \<and> \<not> Authenticated p \<and> authMechanisms srv \<noteq> []"
| "call_ok srv cs (CallRcpt p a r) \<longleftrightarrow> auth_ok srv p \<and> RecipientChecker srv \<noteq> None"
| "call_ok srv cs (CallSender p a r) \<longleftrightarrow> auth_ok srv p \<and> (TLSOnly srv \<longrightarrow> TLS p \<noteq> None)"
| "call_ok srv cs (CallHandshake ok) \<longleftrightarrow> TLSConfig srv \<and> CallHandshake True \<notin> set cs"
| "call_ok srv cs _ \<longleftrightarrow> True"

definition log_ok :: "Server \<Rightarrow> call list \<Rightarrow> bool" where
  "log_ok srv cs \<longleftrightarrow> list_all (\<lambda>i. call_ok srv (take i cs) (cs ! i)) [0..<length cs]"

text \<open>
  The parts of the invariant: the recipients stored, the phase of the transaction, and the
  connection's security.
\<close>

definition rcpts_ok :: "Server \<Rightarrow> bool \<Rightarrow> Peer \<Rightarrow> call list \<Rightarrow> envelope \<Rightarrow> bool" where
  "rcpts_ok srv hello p cs e \<longleftrightarrow>
     (MailTo e \<noteq> [] \<longrightarrow> MailFrom e = None \<and> hello \<and> auth_ok srv p) \<and>
     length (MailTo e) \<le> 201 \<and> list_all (\<lambda>r. list_ex (rcpt_accepted r) cs) (MailTo e)"

definition mail_ok :: "Server \<Rightarrow> mail_address list \<Rightarrow> Peer \<Rightarrow> bool \<Rightarrow> call list \<Rightarrow> bool" where
  "mail_ok srv rs p secure cs \<longleftrightarrow> auth_ok srv p \<and> (TLSOnly srv \<longrightarrow> secure) \<and> tx_log srv rs cs"

fun phase_ok :: "Server \<Rightarrow> sessionState \<Rightarrow> mail_address list \<Rightarrow> Peer \<Rightarrow> bool \<Rightarrow> call list \<Rightarrow> bool" where
  "phase_ok srv sessionStateInit rs p secure cs \<longleftrightarrow> rs = []"
| "phase_ok srv sessionStateGotMail rs p secure cs \<longleftrightarrow> rs = [] \<and> mail_ok srv rs p secure cs"
| "phase_ok srv sessionStateGotRcpt rs p secure cs \<longleftrightarrow> rs \<noteq> []"
| "phase_ok srv sessionStateReadyForData rs p secure cs \<longleftrightarrow> rs \<noteq> [] \<and> mail_ok srv rs p secure cs"
| "phase_ok srv sessionStateGettingData rs p secure cs \<longleftrightarrow> rs \<noteq> [] \<and> mail_ok srv rs p secure cs"
| "phase_ok srv sessionStateDataDone rs p secure cs \<longleftrightarrow> True"
| "phase_ok srv sessionStateAborted rs p secure cs \<longleftrightarrow> True"
| "phase_ok srv sessionStateWaitingForQuit rs p secure cs \<longleftrightarrow> False"

text \<open>The priority of RFC 6710.\<close>

definition priority_ok :: "int \<Rightarrow> bool" where
  "priority_ok n \<longleftrightarrow> - 9 \<le> n \<and> n \<le> 9"

definition secure_ok :: "Peer \<Rightarrow> bool \<Rightarrow> call list \<Rightarrow> bool" where
  "secure_ok p secure cs \<longleftrightarrow>
     (secure \<longleftrightarrow> TLS p \<noteq> None) \<and> (CallHandshake True \<in> set cs \<longrightarrow> secure) \<and>
     (Authenticated p \<longrightarrow> secure \<and> list_ex (login_accepted (Username p)) cs)"

definition session_inv :: "Server \<Rightarrow> session \<Rightarrow> bool" where
  "session_inv srv s \<longleftrightarrow>
     data (envelope s) \<noteq> None \<and> headers (envelope s) = [] \<and> priority_ok (Priority (envelope s)) \<and>
     rcpts_ok srv (helloSeen s) (peer s) (calls s) (envelope s) \<and>
     phase_ok srv (state s) (MailTo (envelope s)) (peer s) (tls s) (calls s) \<and>
     secure_ok (peer s) (tls s) (calls s) \<and> log_ok srv (calls s)"

lemma priority_ok_0 [simp]: "priority_ok 0"
  by (simp add: priority_ok_def)

lemma log_ok_Nil [simp]: "log_ok srv []"
  by (simp add: log_ok_def)

lemma log_ok_snoc [simp]: "log_ok srv (cs @ [c]) \<longleftrightarrow> log_ok srv cs \<and> call_ok srv cs c"
  by (auto simp: log_ok_def nth_append list_all_iff)

lemma log_ok_split: "log_ok srv (cs @ c # cs') \<Longrightarrow> call_ok srv cs c"
proof (induction cs' rule: rev_induct)
  case (snoc x xs)
  with log_ok_snoc [of srv "cs @ c # xs" x] show ?case by simp
qed simp

text \<open>The tests of the policy as statements about the log.\<close>

lemma accepted_iff:
  "list_ex (rcpt_accepted a) cs \<longleftrightarrow> (\<exists>p. CallRcpt p a None \<in> set cs)"
  "list_ex (login_accepted u) cs \<longleftrightarrow> (\<exists>p pw. CallAuth p pw (Inr True) \<in> set cs \<and> Username p = u)"
  unfolding list_ex_iff
  by (fastforce elim!: rcpt_accepted.elims login_accepted.elims intro: bexI [rotated])+

lemma tx_log_snoc: "tx_log srv rs cs \<Longrightarrow> \<not> is_mail_check c \<Longrightarrow> tx_log srv rs (cs @ [c])"
proof -
  assume "tx_log srv rs cs" and c: "\<not> is_mail_check c"
  then obtain cs1 a cs2 where "cs = cs1 @ CallDNS (Some a) [] # cs2" "\<forall>c \<in> set cs2. \<not> is_mail_check c"
    "SenderChecker srv \<noteq> None \<longrightarrow> (\<exists>cs0 q. cs1 = cs0 @ [CallSender q a None])"
    "\<forall>r \<in> set rs. \<exists>q. CallRcpt q r None \<in> set cs2"
    unfolding tx_log_def by blast
  with c show ?thesis
    unfolding tx_log_def by (intro exI [of _ cs1] exI [of _ a] exI [of _ "cs2 @ [c]"]) auto
qed

lemma tx_log_rcpt:
  assumes "tx_log srv rs (cs @ [CallRcpt q r None])"
  shows "tx_log srv (rs @ [r]) (cs @ [CallRcpt q r None])"
proof -
  obtain cs1 a cs2 where cs: "cs @ [CallRcpt q r None] = cs1 @ CallDNS (Some a) [] # cs2"
    "\<forall>c \<in> set cs2. \<not> is_mail_check c" "SenderChecker srv \<noteq> None \<longrightarrow> (\<exists>cs0 q. cs1 = cs0 @ [CallSender q a None])"
    "\<forall>r \<in> set rs. \<exists>q. CallRcpt q r None \<in> set cs2"
    using assms unfolding tx_log_def by blast
  then have "CallRcpt q r None \<in> set cs2"
    by (cases cs2 rule: rev_cases) auto
  with cs show ?thesis
    unfolding tx_log_def by (intro exI [of _ cs1] exI [of _ a] exI [of _ cs2]) auto
qed

lemma tx_log_start:
  "SenderChecker srv \<noteq> None \<longrightarrow> (\<exists>cs0 q. cs = cs0 @ [CallSender q a None]) \<Longrightarrow>
   tx_log srv [] (cs @ [CallDNS (Some a) []])"
  unfolding tx_log_def by (intro exI [of _ cs] exI [of _ a] exI [of _ "[]"]) simp

lemma mail_ok_snoc: "mail_ok srv rs p secure cs \<Longrightarrow> \<not> is_mail_check c \<Longrightarrow> mail_ok srv rs p secure (cs @ [c])"
  by (auto simp: mail_ok_def tx_log_snoc)

lemma phase_ok_snoc:
  "phase_ok srv st rs p secure cs \<Longrightarrow> \<not> is_mail_check c \<Longrightarrow> phase_ok srv st rs p secure (cs @ [c])"
  by (cases st) (auto simp: mail_ok_snoc)

lemma rcpts_ok_snoc: "rcpts_ok srv hello p cs e \<Longrightarrow> rcpts_ok srv hello p (cs @ [c]) e"
  by (auto simp: rcpts_ok_def list_all_iff)

lemma rcpts_ok_Nil [simp]: "MailTo e = [] \<Longrightarrow> rcpts_ok srv hello p cs e"
  by (simp add: rcpts_ok_def)

lemma secure_ok_snoc:
  "secure_ok p secure cs \<Longrightarrow> c \<noteq> CallHandshake True \<Longrightarrow> secure_ok p secure (cs @ [c])"
  by (auto simp: secure_ok_def)

section \<open>What keeps the invariant\<close>

lemma Out_state_cases:
  obtains "state (Out m s) = state s" | "state (Out m s) = sessionStateAborted"
  using Out_state by blast

text \<open>The fields the invariant depends on.\<close>

lemma inv_cong:
  assumes "envelope s' = envelope s" "state s' = state s" "helloSeen s' = helloSeen s"
    "peer s' = peer s" "tls s' = tls s" "calls s' = calls s"
  shows "session_inv srv s' = session_inv srv s"
  by (simp only: session_inv_def assms)

lemma inv_abort [inv_intros]: "session_inv srv s \<Longrightarrow> session_inv srv (abort s)"
  by (simp add: session_inv_def)

lemma inv_Out [inv_intros]: "session_inv srv s \<Longrightarrow> session_inv srv (Out m s)"
  by (rule Out_state_cases [of m s])
    (simp_all add: inv_cong [of "Out m s" s] inv_cong [of "Out m s" "abort s"] inv_abort)

lemma inv_fields [inv_intros]:
  "session_inv srv s \<Longrightarrow> session_inv srv (bad_command s)"
  "session_inv srv s \<Longrightarrow> session_inv srv (s\<lparr>io := b\<rparr>)"
  "session_inv srv s \<Longrightarrow> session_inv srv (s\<lparr>helloHost := x\<rparr>)"
  "session_inv srv s \<Longrightarrow> session_inv srv (s\<lparr>helloType := y\<rparr>)"
  "session_inv srv s \<Longrightarrow> session_inv srv (s\<lparr>vrfyCount := y\<rparr>)"
  "session_inv srv s \<Longrightarrow> session_inv srv (s\<lparr>bodyType := x\<rparr>)"
  by (subst inv_cong [of _ s]; simp)+

lemma inv_helloSeen [inv_intros]: "session_inv srv s \<Longrightarrow> session_inv srv (s\<lparr>helloSeen := True\<rparr>)"
  by (simp add: session_inv_def rcpts_ok_def)

lemma inv_Reset [inv_intros]: "session_inv srv s \<Longrightarrow> session_inv srv (Reset s)"
  by (auto simp: session_inv_def Envelope_Reset_eq)

text \<open>Recording a call that the policy allows.\<close>

lemma inv_ask [inv_intros]:
  assumes "session_inv srv s" and "call_ok srv (calls s) c" and "c \<noteq> CallHandshake True"
    and "\<not> is_mail_check c"
  shows "session_inv srv (ask c s)"
  using assms by (simp add: session_inv_def rcpts_ok_snoc phase_ok_snoc secure_ok_snoc)

lemma inv_check_helo [inv_intros]: "session_inv srv s \<Longrightarrow> session_inv srv (check_helo srv s)"
  by (auto simp: check_helo_def Let_def intro!: inv_intros split: option.split)

lemma inv_ReadLine:
  assumes "session_inv srv s" and "ReadLine s = Inr (r, s')"
  shows "session_inv srv s'"
  using inv_fields(2) [OF assms(1), of "io s'"] ReadLine_Inr(1) [OF assms(2)] by simp

section \<open>What no handler undoes\<close>

fun is_handshake :: "call \<Rightarrow> bool" where
  "is_handshake (CallHandshake ok) \<longleftrightarrow> True"
| "is_handshake _ \<longleftrightarrow> False"

fun is_delivery :: "call \<Rightarrow> bool" where
  "is_delivery (CallHandler p e r) \<longleftrightarrow> True"
| "is_delivery _ \<longleftrightarrow> False"

text \<open>The calls of the delivery function in a log.\<close>

definition deliveries :: "call list \<Rightarrow> call list" where
  "deliveries cs = filter is_delivery cs"

lemma deliveries_simps [simp]:
  "deliveries [] = []" "deliveries (cs @ cs') = deliveries cs @ deliveries cs'"
  "deliveries (c # cs) = (if is_delivery c then c # deliveries cs else deliveries cs)"
  by (simp_all add: deliveries_def)

definition evolves :: "session \<Rightarrow> session \<Rightarrow> bool" where
  "evolves s s' \<longleftrightarrow>
     (tls s \<longrightarrow> tls s') \<and> (tls s' \<and> \<not> tls s \<or> input_size (io s') \<le> input_size (io s)) \<and>
     (tls s' \<and> \<not> tls s \<longrightarrow> CallHandshake True \<in> set (calls s')) \<and>
     (tls s \<longrightarrow> filter is_handshake (calls s') = filter is_handshake (calls s)) \<and>
     prefix (calls s) (calls s') \<and> (helloSeen s \<longrightarrow> helloSeen s') \<and>
     (Authenticated (peer s) \<longrightarrow> Authenticated (peer s') \<and> Username (peer s') = Username (peer s))"

lemma evolves_refl [simp]: "evolves s s"
  by (simp add: evolves_def)

lemma evolves_trans [trans]:
  assumes "evolves s s'" and "evolves s' s''"
  shows "evolves s s''"
proof -
  have "prefix (calls s) (calls s'')" and sub: "set (calls s') \<subseteq> set (calls s'')"
    using assms set_mono_prefix prefix_order.trans unfolding evolves_def by blast+
  then show ?thesis
    using assms unfolding evolves_def by (cases "tls s"; cases "tls s'") auto
qed

lemma evolves_step [simp]:
  "evolves s (Out m s') \<longleftrightarrow> evolves s s'" "evolves s (abort s') \<longleftrightarrow> evolves s s'"
  "evolves s (bad_command s') \<longleftrightarrow> evolves s s'" "evolves s (Reset s') \<longleftrightarrow> evolves s s'"
  "evolves s (s'\<lparr>envelope := e\<rparr>) \<longleftrightarrow> evolves s s'" "evolves s (s'\<lparr>state := st\<rparr>) \<longleftrightarrow> evolves s s'"
  "evolves s (s'\<lparr>helloHost := x\<rparr>) \<longleftrightarrow> evolves s s'" "evolves s (s'\<lparr>helloType := y\<rparr>) \<longleftrightarrow> evolves s s'"
  "evolves s (s'\<lparr>vrfyCount := y\<rparr>) \<longleftrightarrow> evolves s s'" "evolves s (s'\<lparr>bodyType := x\<rparr>) \<longleftrightarrow> evolves s s'"
  "evolves s s' \<Longrightarrow> evolves s (s'\<lparr>helloSeen := True\<rparr>)" "evolves s s' \<Longrightarrow> \<not> is_handshake c \<Longrightarrow> evolves s (ask c s')"
  by (auto simp: evolves_def)

lemma evolves_check_helo [simp]: "evolves s s' \<Longrightarrow> evolves s (check_helo srv s')"
  by (auto simp: check_helo_def Let_def split: option.split)

lemma evolves_io: "input_size b \<le> input_size (io s) \<Longrightarrow> evolves s (s\<lparr>io := b\<rparr>)"
  by (simp add: evolves_def)

lemma evolves_ReadLine: "ReadLine s = Inr (r, s') \<Longrightarrow> evolves s s'"
  using evolves_io [of "io s'" s] ReadLine_Inr(1,2) [of s r s'] by simp

text \<open>What a plain reply, a refusal or an abort keeps of the transaction.\<close>

definition keeps_tx :: "session \<Rightarrow> session \<Rightarrow> bool" where
  "keeps_tx s s' \<longleftrightarrow>
     envelope s' = envelope s \<and> (state s' = state s \<or> state s' = sessionStateAborted) \<and>
     deliveries (calls s') = deliveries (calls s)"

lemma keeps_tx_refl [simp]: "keeps_tx s s"
  by (simp add: keeps_tx_def)

lemma keeps_tx_trans: "keeps_tx s s' \<Longrightarrow> keeps_tx s' s'' \<Longrightarrow> keeps_tx s s''"
  by (auto simp: keeps_tx_def)

lemma keeps_tx_Out [simp]: "keeps_tx s s' \<Longrightarrow> keeps_tx s (Out m s')"
  using Out_state [of m s'] by (auto simp: keeps_tx_def)

lemma keeps_tx_step [simp]:
  "keeps_tx s s' \<Longrightarrow> keeps_tx s (abort s')" "keeps_tx s (bad_command s') \<longleftrightarrow> keeps_tx s s'"
  "keeps_tx s (s'\<lparr>io := b\<rparr>) \<longleftrightarrow> keeps_tx s s'" "keeps_tx s (s'\<lparr>peer := p\<rparr>) \<longleftrightarrow> keeps_tx s s'"
  "keeps_tx s (s'\<lparr>vrfyCount := n\<rparr>) \<longleftrightarrow> keeps_tx s s'"
  "keeps_tx s s' \<Longrightarrow> \<not> is_delivery c \<Longrightarrow> keeps_tx s (ask c s')"
  by (auto simp: keeps_tx_def)

lemma keeps_tx_ReadLine: "ReadLine s = Inr (r, s') \<Longrightarrow> keeps_tx s s'"
  by (simp add: keeps_tx_def ReadLine_frame)

section \<open>The contract of a handler\<close>

definition counts :: "session \<Rightarrow> session \<Rightarrow> bool" where
  "counts s s' \<longleftrightarrow>
     badCommandsCount s' = badCommandsCount s \<or> badCommandsCount s' = int64 (badCommandsCount s + 1)"

locale session_handler =
  fixes h :: handler
  assumes keeps_inv: "session_inv srv s \<Longrightarrow> h E srv cmd s = Inr s' \<Longrightarrow> session_inv srv s'"
    and evolves: "h E srv cmd s = Inr s' \<Longrightarrow> evolves s s'"
    and counts: "h E srv cmd s = Inr s' \<Longrightarrow> counts s s'"
begin

lemma count_bounds:
  assumes "h E srv cmd s = Inr s'"
    and "0 \<le> badCommandsCount s" and "badCommandsCount s < limit" and "limit \<le> max_int64"
  shows "0 \<le> badCommandsCount s' \<and> badCommandsCount s' \<le> limit"
proof -
  have "int64 (badCommandsCount s + 1) = badCommandsCount s + 1"
    using assms(2-4) by (intro int64_id) auto
  with counts [OF assms(1)] assms(2,3) show ?thesis by (auto simp: counts_def)
qed

lemma log_grows: "h E srv cmd s = Inr s' \<Longrightarrow> \<exists>new. calls s' = calls s @ new"
  using evolves by (auto simp: evolves_def prefix_def)

lemma no_progress_only_by_tls:
  "h E srv cmd s = Inr s' \<Longrightarrow> input_size (io s) < input_size (io s') \<Longrightarrow> \<not> tls s \<and> tls s'"
  using evolves by (fastforce simp: evolves_def)

end

lemma counts_refl [simp]: "counts s s"
  by (simp add: counts_def)

interpretation helo: session_handler handleHelo
  by unfold_locales
    (auto simp: handleHelo_def Let_def go_bind_Inr_conv counts_def intro!: inv_intros)

interpretation ehlo: session_handler handleEhlo
  by unfold_locales
    (auto simp: handleEhlo_def Let_def go_bind_Inr_conv counts_def intro!: inv_intros)

interpretation quit: session_handler handleQuit
  by unfold_locales (auto simp: handleQuit_def counts_def intro!: inv_intros)

lemma handleRset_eq: "handleRset E srv cmd s = Inr (Out [Codes SuccessResetCmd] (Reset s))"
  by (simp add: handleRset_def Reset_def)

interpretation rset: session_handler handleRset
  by unfold_locales (auto simp: handleRset_eq counts_def intro!: inv_intros)

interpretation noop: session_handler handleNoop
  by unfold_locales (auto simp: handleNoop_def counts_def intro!: inv_intros)

interpretation vrfy: session_handler handleVrfy
  by unfold_locales (auto simp: handleVrfy_def counts_def intro!: inv_intros)

interpretation helps: session_handler handleHelp
  by unfold_locales (auto simp: handleHelp_def counts_def intro!: inv_intros)

interpretation expn: session_handler handleExpn
  by unfold_locales (auto simp: handleExpn_def counts_def intro!: inv_intros)

text \<open>STARTTLS: the three ways it can end.\<close>

lemma handleStartTLS_cases:
  assumes "handleStartTLS E srv cmd s = Inr s'"
  obtains (again) "tls s" "s' = Out [Codes FailBadSequence] (bad_command s)"
  | (unsupported) "\<not> tls s" "\<not> TLSConfig srv" "s' = Out [Codes FailCmdNotSupported] s"
  | (failed) k err where "\<not> tls s" "TLSConfig srv" "Handshake E (calls s) = HandshakeFailed k err"
      "s' = Out [Codes FailUndefinedSecurityStatus] (ask (CallHandshake False)
        ((Out [Codes SuccessStartTLSCmd] s)\<lparr>io := (io (Out [Codes SuccessStartTLSCmd] s))\<lparr>net := net_drop k (net (io s))\<rparr>\<rparr>))"
  | (secured) st es cap where "\<not> tls s" "TLSConfig srv" "Handshake E (calls s) = HandshakeDone st es cap"
      "s' = (Reset (ask (CallHandshake True) (Out [Codes SuccessStartTLSCmd] s)))
        \<lparr>io := secure_io es cap (io (Out [Codes SuccessStartTLSCmd] s)), tls := True, tlsState := st,
         peer := (peer s)\<lparr>TLS := Some st\<rparr>, state := sessionStateInit\<rparr>"
  using assms by (auto simp: handleStartTLS_def Let_def split: if_splits handshake.splits)

lemma inv_secured:
  assumes "session_inv srv s" and "\<not> tls s" and "TLSConfig srv"
  shows "session_inv srv ((Reset (ask (CallHandshake True) s))
    \<lparr>io := b, tls := True, tlsState := st, peer := (peer s)\<lparr>TLS := Some st\<rparr>, state := sessionStateInit\<rparr>)"
  using assms by (auto simp: session_inv_def Envelope_Reset_eq secure_ok_def)

lemma inv_handshake_failed:
  assumes "session_inv srv s" and "\<not> tls s" and "TLSConfig srv"
  shows "session_inv srv (ask (CallHandshake False) s)"
  using assms by (intro inv_ask) (auto simp: session_inv_def secure_ok_def)

interpretation starttls: session_handler handleStartTLS
proof
  fix srv s E cmd s'
  assume inv: "session_inv srv s" and h: "handleStartTLS E srv cmd s = Inr s'"
  from inv_Out [OF inv, of "[Codes SuccessStartTLSCmd]"]
  have out: "session_inv srv (Out [Codes SuccessStartTLSCmd] s)" .
  from h show "session_inv srv s'"
  proof (cases rule: handleStartTLS_cases)
    case (failed k err)
    then show ?thesis
      using out by (auto intro!: inv_Out inv_handshake_failed inv_fields(2))
  next
    case (secured st es cap)
    then show ?thesis using inv_secured [OF out] by simp
  qed (use inv in \<open>auto intro!: inv_intros\<close>)
next
  fix srv s E cmd s'
  assume "handleStartTLS E srv cmd s = Inr s'"
  then show "evolves s s'"
  proof (cases rule: handleStartTLS_cases)
    case (failed k err)
    then show ?thesis by (simp add: evolves_def input_size_def net_drop_size)
  next
    case (secured st es cap)
    then show ?thesis by (simp add: evolves_def)
  qed auto
next
  fix srv s E cmd s'
  assume "handleStartTLS E srv cmd s = Inr s'"
  then show "counts s s'"
    by (cases rule: handleStartTLS_cases) (auto simp: counts_def)
qed

text \<open>The example session at its start.\<close>

lemma ex_session_inv: "session_inv ex_srv (ex_session es out sessionStateInit NewEnvelope hello [])"
  by (simp add: session_inv_def ex_session_def NewEnvelope_def secure_ok_def ex_peer_def)

section \<open>Properties of the plain handlers\<close>

text \<open>
  C33: The EHLO reply is a well-formed multiline reply: every line but the last starts with
  \<open>250-\<close> and the last one with \<open>250\<close> and a space. STARTTLS is announced exactly when TLS is
  configured and not yet in use, and AUTH exactly when TLS is configured and there is a
  mechanism, with all the mechanisms.
\<close>

theorem ehloResp_correct:
  "list_all (\<lambda>l. HasPrefix l ''250-'') (butlast (ehloResp srv s)) \<and>
   HasPrefix (last (ehloResp srv s)) ''250 '' \<and>
   (''250-STARTTLS'' \<in> set (ehloResp srv s) \<longleftrightarrow> TLSConfig srv \<and> \<not> tls s) \<and>
   (\<forall>ms. ''250-AUTH '' @ ms \<in> set (ehloResp srv s) \<longleftrightarrow>
      TLSConfig srv \<and> authMechanisms srv \<noteq> [] \<and> ms = Join '' '' (authMechanisms srv))"
  by (auto simp: ehloResp_def HasPrefix_def butlast_append)

theorem ehloResp_correct_witness:
  "''250-STARTTLS'' \<in> set (ehloResp (ex_srv\<lparr>TLSConfig := True, authMechanisms := [''LOGIN'', ''PLAIN'']\<rparr>)
      (ex_session [] [] sessionStateInit NewEnvelope True [])) \<and>
   ''250-AUTH '' @ ''LOGIN PLAIN'' \<in> set (ehloResp (ex_srv\<lparr>TLSConfig := True, authMechanisms := [''LOGIN'', ''PLAIN'']\<rparr>)
      (ex_session [] [] sessionStateInit NewEnvelope True []))"
  using ehloResp_correct [of "ex_srv\<lparr>TLSConfig := True, authMechanisms := [''LOGIN'', ''PLAIN'']\<rparr>"
      "ex_session [] [] sessionStateInit NewEnvelope True []"]
  by (auto simp: ex_session_def Join_Cons)

text \<open>
  C16: A successful STARTTLS discards everything the client sent in the clear: the session
  afterwards is the same whatever bytes were buffered or still on the plain connection, its
  input is exactly the data of the TLS connection, and the transaction is reset.
\<close>

theorem starttls_discards_plaintext:
  assumes "\<not> tls s" and "TLSConfig srv" and "Handshake E (calls s) = HandshakeDone st es cap"
  shows "\<exists>s'. handleStartTLS E srv cmd s = Inr s' \<and>
    handleStartTLS E srv cmd (s\<lparr>io := (io s)\<lparr>rbuf := x, net := y\<rparr>\<rparr>) = Inr s' \<and>
    tls s' \<and> TLS (peer s') = Some st \<and> rbuf (io s') = [] \<and> net (io s') = es \<and>
    state s' = sessionStateInit \<and> envelope s' = Envelope_Reset (envelope s) \<and>
    calls s' = calls s @ [CallHandshake True]"
proof -
  have "written (io (Out m (s\<lparr>io := (io s)\<lparr>rbuf := x, net := y\<rparr>\<rparr>))) = written (io (Out m s))" for m
    by (auto simp: Out_def write_flush_def split: option.split)
  then show ?thesis
    using assms
    by (auto simp: handleStartTLS_def Let_def secure_io_def NewReadWriter_def Reset_def ask_def Out_def write_flush_def
        split: option.split)
qed

theorem starttls_discards_plaintext_witness:
  "\<exists>s'. handleStartTLS (ex_env\<lparr>Handshake := \<lambda>cs. HandshakeDone zero_tls_state [Chunk ''EHLO'', Chunk CRLF] None\<rparr>) (ex_srv\<lparr>TLSConfig := True\<rparr>)
      \<lparr>commandCode = starttlsCmd, verb = ''STARTTLS'', cmd_data = ''STARTTLS'', arguments = []\<rparr>
      (ex_session [Chunk (''MAIL FROM:<evil@b.c>'' @ CRLF)] [] sessionStateInit NewEnvelope True []) = Inr s' \<and>
    tls s' \<and> net (io s') = [Chunk ''EHLO'', Chunk CRLF] \<and> rbuf (io s') = []"
proof -
  have "\<not> tls (ex_session [Chunk (''MAIL FROM:<evil@b.c>'' @ CRLF)] [] sessionStateInit NewEnvelope True [])"
    by (simp add: ex_session_def)
  from starttls_discards_plaintext [OF this, of "ex_srv\<lparr>TLSConfig := True\<rparr>"
      "ex_env\<lparr>Handshake := \<lambda>cs. HandshakeDone zero_tls_state [Chunk ''EHLO'', Chunk CRLF] None\<rparr>"
      zero_tls_state "[Chunk ''EHLO'', Chunk CRLF]" None
      "\<lparr>commandCode = starttlsCmd, verb = ''STARTTLS'', cmd_data = ''STARTTLS'', arguments = []\<rparr>" "[]" "[]"]
  show ?thesis by auto
qed

text \<open>
  The outcome of a greeting: a configured checker is asked about the host, a refusal is
  answered with 550, and the final reply is \<open>msgs\<close>.
\<close>

definition greeted :: "Server \<Rightarrow> nat \<Rightarrow> string \<Rightarrow> string list \<Rightarrow> session \<Rightarrow> session \<Rightarrow> bool" where
  "greeted srv code host msgs s s' \<longleftrightarrow>
     helloSeen s' \<and> helloType s' = int code \<and> helloHost s' = host \<and> state s' = sessionStateInit \<and>
     envelope s' = Envelope_Reset (envelope s) \<and> peer s' = peer s \<and> tls s' = tls s \<and>
     badCommandsCount s' = badCommandsCount s \<and>
     calls s' = calls s @
       (case HeloChecker srv of None \<Rightarrow> [] | Some f \<Rightarrow> [CallHelo (peer s) host (f (calls s) (peer s) host)]) \<and>
     written (io s') = written (io s) @
       (case HeloChecker srv of
          None \<Rightarrow> []
        | Some f \<Rightarrow>
            (case f (calls s) (peer s) host of None \<Rightarrow> [] | Some err \<Rightarrow> ''550 '' @ Error_text err @ CRLF)) @
       concat (map (\<lambda>msg. msg @ CRLF) msgs)"

text \<open>
  C34: While the connection accepts writes, HELO and EHLO panic exactly when they have no
  argument. Otherwise they return, reset the transaction and remember the command and the
  host. Without a checker only the final reply is sent; a checker is asked once, and its
  refusal does not stop the greeting: it is reported, and the final reply is sent after it.
\<close>

theorem greeting_outcome:
  assumes "writable (io s)"
  shows "(arguments cmd = [] \<longleftrightarrow> handleHelo E srv cmd s = Inl IndexOutOfRange) \<and>
    (arguments cmd = [] \<longleftrightarrow> handleEhlo E srv cmd s = Inl IndexOutOfRange) \<and>
    (\<forall>host as. arguments cmd = host # as \<longrightarrow>
      (\<exists>s1 s2. handleHelo E srv cmd s = Inr s1 \<and>
        greeted srv (commandCode cmd) host [''250 mail.example hello '' @ remote_addr s] s s1 \<and>
        handleEhlo E srv cmd s = Inr s2 \<and> greeted srv (commandCode cmd) host (ehloResp srv s) s s2))"
proof (cases "arguments cmd")
  case Nil
  then show ?thesis by (simp add: handleHelo_def handleEhlo_def)
next
  case (Cons host as)
  let ?s = "(Reset s)\<lparr>helloSeen := True, helloType := int (commandCode cmd), helloHost := host\<rparr>"
  have "ehloResp srv (check_helo srv ?s) = ehloResp srv s"
    by (simp add: ehloResp_def)
  moreover have "writable (io ?s)" using assms(1) by simp
  ultimately show ?thesis
    using Cons unfolding greeted_def
    by (cases "HeloChecker srv"; cases "the (HeloChecker srv) (calls s) (peer s) host")
      (simp_all add: handleHelo_def handleEhlo_def check_helo_def Let_def)
qed

theorem greeting_outcome_witness:
  "\<exists>s'. handleHelo ex_env (ex_srv\<lparr>HeloChecker := Some (\<lambda>cs p h. Some (OtherError ''e'' ''no''))\<rparr>)
      \<lparr>commandCode = heloCmd, verb = ''HELO'', cmd_data = ''HELO me'', arguments = [''me'']\<rparr>
      (ex_session [] [] sessionStateInit NewEnvelope False []) = Inr s' \<and>
    written (io s') = ''550 no'' @ CRLF @ ''250 mail.example hello 10.0.0.1:5000'' @ CRLF"
proof -
  let ?s = "ex_session [] [] sessionStateInit NewEnvelope False []"
  have "writable (io ?s)" by (simp add: ex_session_def writable_def)
  from greeting_outcome [OF this,
      of "\<lparr>commandCode = heloCmd, verb = ''HELO'', cmd_data = ''HELO me'', arguments = [''me'']\<rparr>" ex_env
      "ex_srv\<lparr>HeloChecker := Some (\<lambda>cs p h. Some (OtherError ''e'' ''no''))\<rparr>"]
  show ?thesis by (auto simp: greeted_def ex_session_def)
qed

end
