(* ===== verification/Auth.thy ===== *)
theory Auth
  imports Policy
begin

text \<open>
  \<open>auth.go\<close> and the AUTH handler of \<open>session.go\<close>: the PLAIN and LOGIN exchanges. The
  standard base64 decoding is computed (line breaks are skipped, padding is required). The
  credentials of a PLAIN exchange are cut at the zero bytes into a slice of length three, so a
  byte after a third zero byte is an index out of range.
\<close>

section \<open>Base64\<close>

definition b64_value :: "char \<Rightarrow> nat option" where
  "b64_value c =
     (let n = byte c in
      if 65 \<le> n \<and> n \<le> 90 then Some (n - 65)
      else if 97 \<le> n \<and> n \<le> 122 then Some (n - 71)
      else if 48 \<le> n \<and> n \<le> 57 then Some (n + 4)
      else if n = 43 then Some 62
      else if n = 47 then Some 63
      else None)"

fun b64_quanta :: "string \<Rightarrow> string option" where
  "b64_quanta [] = Some []"
| "b64_quanta (a # b # c # d # r) =
     (case (b64_value a, b64_value b) of
        (Some x, Some y) \<Rightarrow>
          (if c = CHR ''='' then
             (if d = CHR ''='' \<and> r = [] then Some [char_of (x * 4 + y div 16)] else None)
           else case b64_value c of
               None \<Rightarrow> None
             | Some z \<Rightarrow>
                 if d = CHR ''='' then
                   (if r = [] then Some [char_of (x * 4 + y div 16), char_of (y mod 16 * 16 + z div 4)] else None)
                 else (case b64_value d of
                     None \<Rightarrow> None
                   | Some w \<Rightarrow>
                       (case b64_quanta r of
                          None \<Rightarrow> None
                        | Some out \<Rightarrow>
                            Some (char_of (x * 4 + y div 16) # char_of (y mod 16 * 16 + z div 4)
                                  # char_of (z mod 4 * 64 + w) # out))))
      | _ \<Rightarrow> None)"
| "b64_quanta _ = None"

text \<open>\<open>base64.StdEncoding.DecodeString\<close>; \<open>None\<close> is the corrupt-input error.\<close>

definition DecodeString :: "string \<Rightarrow> string option" where
  "DecodeString s = b64_quanta (filter (\<lambda>c. c \<noteq> CR \<and> c \<noteq> LF) s)"

section \<open>The exchanges\<close>

text \<open>The end both exchanges share: ask the authenticator about the peer and the password.\<close>

definition check_login :: "Server \<Rightarrow> string \<Rightarrow> string \<Rightarrow> session \<Rightarrow> session go" where
  "check_login srv username password s =
     (let s1 = s\<lparr>peer := (peer s)\<lparr>Username := username\<rparr>\<rparr>
      in case Authenticator srv of
          None \<Rightarrow> Inl NilDereference
        | Some f \<Rightarrow>
            let r = f (calls s1) (peer s1) password;
                s2 = ask (CallAuth (peer s1) password r) s1
            in (case r of
                  Inl err \<Rightarrow> Inr (abort (Out [Codes ErrorAuth] s2))
                | Inr ok \<Rightarrow>
                    if \<not> ok then Inr (Out [Codes FailAuthentication] s2)
                    else Inr (Out [Codes SuccessAuthentication]
                               (s2\<lparr>peer := (peer s2)\<lparr>Authenticated := True\<rparr>\<rparr>))))"

text \<open>
  The ways \<open>handleLoginAuth\<close> obtains the password: \<open>Inl\<close> when the handler has
  returned.
\<close>

definition login_no_args :: "session \<Rightarrow> (session + (string \<times> string \<times> session)) go" where
  "login_no_args s =
     go_bind (ReadLine s) (\<lambda>(line, s1).
       case line of
         Inl err \<Rightarrow> Inr (Inl (abort s1))
       | Inr l \<Rightarrow>
           (case DecodeString (TrimRight l) of
              None \<Rightarrow> Inr (Inl (bad_command (Out [''501 malformed auth input''] s1)))
            | Some username \<Rightarrow>
                go_bind (ReadLine (Out [''334 UGFzc3dvcmQ6''] s1)) (\<lambda>(line2, s2).
                  case line2 of
                    Inl err \<Rightarrow> Inr (Inl (abort s2))
                  | Inr l2 \<Rightarrow>
                      (case DecodeString (TrimRight l2) of
                         None \<Rightarrow> Inr (Inl (Out [''501 malformed auth input''] s2))
                       | Some password \<Rightarrow> Inr (Inr (username, password, s2))))))"

definition login_one_arg :: "string \<Rightarrow> session \<Rightarrow> (session + (string \<times> string \<times> session)) go" where
  "login_one_arg arg s =
     (case DecodeString arg of
        None \<Rightarrow> Inr (Inl (Out [''501 malformed auth input''] s))
      | Some username \<Rightarrow>
          go_bind (ReadLine (Out [''334 UGFzc3dvcmQ6''] s)) (\<lambda>(line, s1).
            case line of
              Inl err \<Rightarrow> Inr (Inl (bad_command (Out [Codes FailLineTooLong] s1)))
            | Inr l \<Rightarrow>
                (case DecodeString (TrimRight l) of
                   None \<Rightarrow> Inr (Inl (abort (Out [''501 malformed auth input''] s1)))
                 | Some password \<Rightarrow> Inr (Inr (username, password, s1)))))"

definition handleLoginAuth :: "Server \<Rightarrow> command \<Rightarrow> session \<Rightarrow> session go" where
  "handleLoginAuth srv cmd s =
     go_bind
       (if length (arguments cmd) = 1 then login_no_args s
        else if length (arguments cmd) = 2 then login_one_arg (arguments cmd ! 1) s
        else Inr (Inr ([], [], s)))
       (\<lambda>r. case r of
          Inl s1 \<Rightarrow> Inr s1
        | Inr (username, password, s1) \<Rightarrow> check_login srv username password s1)"

text \<open>The loop that cuts the credentials; \<open>t\<close> has three entries.\<close>

fun split_creds :: "string list \<Rightarrow> nat \<Rightarrow> string \<Rightarrow> string list go" where
  "split_creds t i [] = Inr t"
| "split_creds t i (b # bs) =
     (if byte b = 0 then split_creds t (i + 1) bs
      else if i < length t then split_creds (t[i := t ! i @ [b]]) i bs
      else Inl IndexOutOfRange)"

definition plain_no_args :: "env \<Rightarrow> session \<Rightarrow> (session + (string \<times> session)) go" where
  "plain_no_args E s =
     go_bind (ReadLine (Out [''334''] s)) (\<lambda>(line, s1).
       case line of
         Inl err \<Rightarrow> Inr (Inl (abort s1))
       | Inr l \<Rightarrow>
           (case parseCommand (unicode_ToUpper E) (TrimRight l) of
              Inl err \<Rightarrow> Inr (Inl (bad_command (Out [Codes FailUnrecognizedCmd] s1)))
            | Inr cmd2 \<Rightarrow>
                go_bind (go_nth (arguments cmd2) 0) (\<lambda>a.
                  case DecodeString a of
                    None \<Rightarrow> Inr (Inl (bad_command (Out [''501 malformed auth input''] s1)))
                  | Some authData \<Rightarrow> Inr (Inr (authData, s1)))))"

definition plain_one_arg :: "string \<Rightarrow> session \<Rightarrow> (session + (string \<times> session)) go" where
  "plain_one_arg arg s =
     (case DecodeString arg of
        None \<Rightarrow> Inr (Inl (bad_command (Out [''501 malformed auth input''] s)))
      | Some authData \<Rightarrow> Inr (Inr (authData, s)))"

definition handlePlainAuth :: "env \<Rightarrow> Server \<Rightarrow> command \<Rightarrow> session \<Rightarrow> session go" where
  "handlePlainAuth E srv cmd s =
     go_bind
       (if length (arguments cmd) = 1 then plain_no_args E s
        else if length (arguments cmd) = 2 then plain_one_arg (arguments cmd ! 1) s
        else Inr (Inr ([], s)))
       (\<lambda>r. case r of
          Inl s1 \<Rightarrow> Inr s1
        | Inr (authData, s1) \<Rightarrow>
            go_bind (split_creds [[], [], []] 0 authData) (\<lambda>t.
              check_login srv (t ! 1) (t ! 2) s1))"

section \<open>The AUTH handler\<close>

fun mechanism_in :: "string \<Rightarrow> string list \<Rightarrow> bool" where
  "mechanism_in mech [] = False"
| "mechanism_in mech (m # ms) = (if mech = m then True else mechanism_in mech ms)"

definition authMechanismValid :: "env \<Rightarrow> Server \<Rightarrow> string \<Rightarrow> bool" where
  "authMechanismValid E srv mech = mechanism_in (ToUpper (unicode_ToUpper E) mech) (authMechanisms srv)"

definition handleAuth :: handler where
  "handleAuth E srv cmd s =
     (if \<not> tls s then Inr (Out [Codes FailEncryptionNeeded] s)
      else if length (authMechanisms srv) = 0 then
        Inr (bad_command (Out [Codes FailCmdNotSupported] s))
      else if Authenticated (peer s) then Inr (Out [Codes FailBadSequence] s)
      else case arguments cmd of
          [] \<Rightarrow> Inr (Out [Codes FailMissingArgument] s)
        | a # _ \<Rightarrow>
            let mech = ToUpper (unicode_ToUpper E) a
            in if \<not> authMechanismValid E srv mech then Inr (Out [Codes ErrorCmdParamNotImplemented] s)
               else if mech = ''PLAIN'' then handlePlainAuth E srv cmd s
               else if mech = ''LOGIN'' then handleLoginAuth srv cmd s
               else Inr (Out [Codes ErrorCmdParamNotImplemented] s))"

section \<open>Cutting the credentials\<close>

lemma char_of_nul: "char_of (0 :: nat) = CHR 0x00"
  by code_simp

text \<open>The reference: the fields between the zero bytes.\<close>

lemma split_creds_field:
  "CHR 0x00 \<notin> set f \<Longrightarrow> i < length t \<Longrightarrow>
   split_creds t i (f @ bs) = split_creds (t[i := t ! i @ f]) i bs"
proof (induction f arbitrary: t)
  case Nil
  then show ?case by simp
next
  case (Cons b f)
  have "byte b \<noteq> 0"
  proof
    assume "byte b = 0"
    then have "b = CHR 0x00"
      by (metis char_of_char char_of_nul)
    with Cons.prems show False by simp
  qed
  with Cons show ?case by simp
qed

section \<open>The contract\<close>

text \<open>The part of an exchange before the authenticator is asked.\<close>

definition exchanged :: "Server \<Rightarrow> session \<Rightarrow> session \<Rightarrow> bool" where
  "exchanged srv s s' \<longleftrightarrow>
     (session_inv srv s \<longrightarrow> session_inv srv s') \<and> evolves s s' \<and> keeps_tx s s' \<and>
     peer s' = peer s \<and> tls s' = tls s"

lemma exchanged_refl [simp]: "exchanged srv s s"
  by (simp add: exchanged_def)

lemma exchanged_step:
  "exchanged srv s s' \<Longrightarrow> exchanged srv s (Out m s')"
  "exchanged srv s s' \<Longrightarrow> exchanged srv s (abort s')"
  "exchanged srv s s' \<Longrightarrow> exchanged srv s (bad_command s')"
  by (auto simp: exchanged_def intro: inv_intros)

lemma exchanged_ReadLine:
  assumes "ReadLine s1 = Inr (r, s2)" and "exchanged srv s s1"
  shows "exchanged srv s s2"
  using assms inv_ReadLine [OF _ assms(1)] evolves_trans [OF _ evolves_ReadLine [OF assms(1)]]
    keeps_tx_trans [OF _ keeps_tx_ReadLine [OF assms(1)]]
  by (simp add: exchanged_def ReadLine_frame [OF assms(1)])

lemmas exchange_intros = exchanged_refl exchanged_step exchanged_ReadLine

text \<open>Each way to obtain the credentials either ends the handler or only reads and prompts.\<close>

definition obtains_ok :: "Server \<Rightarrow> session \<Rightarrow> ('a \<Rightarrow> session) \<Rightarrow> (session + 'a) go \<Rightarrow> bool" where
  "obtains_ok srv s f r \<longleftrightarrow>
     (\<forall>s'. r = Inr (Inl s') \<longrightarrow> exchanged srv s s' \<and> counts s s') \<and>
     (\<forall>x. r = Inr (Inr x) \<longrightarrow> exchanged srv s (f x) \<and> badCommandsCount (f x) = badCommandsCount s)"

lemma obtains_ok_simps [simp]:
  "obtains_ok srv s f (Inl p)"
  "obtains_ok srv s f (Inr (Inl s')) \<longleftrightarrow> exchanged srv s s' \<and> counts s s'"
  "obtains_ok srv s f (Inr (Inr x)) \<longleftrightarrow>
     exchanged srv s (f x) \<and> badCommandsCount (f x) = badCommandsCount s"
  by (auto simp: obtains_ok_def)

lemmas result_splits = go_bind_split prod.split sum.split option.split

lemma login_no_args_ok: "obtains_ok srv s (snd \<circ> snd) (login_no_args s)"
  unfolding login_no_args_def
  by (auto simp: counts_def ReadLine_frame split: result_splits intro!: exchanged_step)
    (blast intro: exchange_intros)+

lemma login_one_arg_ok: "obtains_ok srv s (snd \<circ> snd) (login_one_arg a s)"
  unfolding login_one_arg_def
  by (auto simp: counts_def ReadLine_frame split: result_splits intro!: exchanged_step intro: exchange_intros)

lemma plain_no_args_ok: "obtains_ok srv s snd (plain_no_args E s)"
  unfolding plain_no_args_def
  by (auto simp: counts_def ReadLine_frame split: result_splits intro!: exchanged_step intro: exchange_intros)

lemma plain_one_arg_ok: "obtains_ok srv s snd (plain_one_arg a s)"
  unfolding plain_one_arg_def by (auto simp: counts_def split: result_splits intro!: exchanged_step)

text \<open>Asking the authenticator, over TLS and not yet authenticated.\<close>

lemma rcpts_ok_peer:
  "rcpts_ok srv hello p cs e \<Longrightarrow> Authenticated p \<longrightarrow> Authenticated p' \<Longrightarrow> rcpts_ok srv hello p' cs e"
  by (auto simp: rcpts_ok_def auth_ok_def)

lemma phase_ok_peer:
  "phase_ok srv st r p secure cs \<Longrightarrow> Authenticated p \<longrightarrow> Authenticated p' \<Longrightarrow> phase_ok srv st r p' secure cs"
  by (cases st) (auto simp: mail_ok_def auth_ok_def)

lemma inv_peer:
  assumes "session_inv srv s" and "Authenticated (peer s) \<longrightarrow> Authenticated p" and "secure_ok p (tls s) (calls s)"
  shows "session_inv srv (s\<lparr>peer := p\<rparr>)"
  using assms rcpts_ok_peer [OF _ assms(2)] phase_ok_peer [OF _ assms(2)] by (simp add: session_inv_def)

lemma inv_username:
  "session_inv srv s \<Longrightarrow> \<not> Authenticated (peer s) \<Longrightarrow>
   session_inv srv (s\<lparr>peer := (peer s)\<lparr>Username := u\<rparr>\<rparr>)"
  by (rule inv_peer) (auto simp: session_inv_def secure_ok_def)

lemma inv_authenticated:
  "session_inv srv s \<Longrightarrow> tls s \<Longrightarrow> list_ex (login_accepted (Username (peer s))) (calls s) \<Longrightarrow>
   session_inv srv (s\<lparr>peer := (peer s)\<lparr>Authenticated := True\<rparr>\<rparr>)"
  by (rule inv_peer) (auto simp: session_inv_def secure_ok_def)

lemma evolves_peer:
  "evolves s s' \<Longrightarrow> \<not> Authenticated (peer s) \<Longrightarrow> evolves s (s'\<lparr>peer := p\<rparr>)"
  by (auto simp: evolves_def)

lemma check_login_cases:
  assumes "check_login srv u pw s = Inr s'"
  obtains r s2 where "s2 = ask (CallAuth ((peer s)\<lparr>Username := u\<rparr>) pw r) (s\<lparr>peer := (peer s)\<lparr>Username := u\<rparr>\<rparr>)"
    and "s' = (case r of
        Inl err \<Rightarrow> abort (Out [Codes ErrorAuth] s2)
      | Inr ok \<Rightarrow> if \<not> ok then Out [Codes FailAuthentication] s2
          else Out [Codes SuccessAuthentication] (s2\<lparr>peer := (peer s2)\<lparr>Authenticated := True\<rparr>\<rparr>))"
proof -
  obtain f where "Authenticator srv = Some f"
    using assms by (auto simp: check_login_def Let_def split: option.splits)
  with assms show thesis
    by (intro that [of _ "f (calls s) ((peer s)\<lparr>Username := u\<rparr>) pw"])
      (auto simp: check_login_def Let_def split: sum.splits if_splits)
qed

lemma check_login_ok:
  assumes "check_login srv u pw s = Inr s'" and "\<not> Authenticated (peer s)"
  shows "tls s \<Longrightarrow> authMechanisms srv \<noteq> [] \<Longrightarrow> session_inv srv s \<Longrightarrow> session_inv srv s'"
    and "evolves s s'" and "badCommandsCount s' = badCommandsCount s" and "keeps_tx s s'"
proof -
  from assms(1) obtain r s2 where
    s2: "s2 = ask (CallAuth ((peer s)\<lparr>Username := u\<rparr>) pw r) (s\<lparr>peer := (peer s)\<lparr>Username := u\<rparr>\<rparr>)" and
    s': "s' = (case r of
        Inl err \<Rightarrow> abort (Out [Codes ErrorAuth] s2)
      | Inr ok \<Rightarrow> if \<not> ok then Out [Codes FailAuthentication] s2
          else Out [Codes SuccessAuthentication] (s2\<lparr>peer := (peer s2)\<lparr>Authenticated := True\<rparr>\<rparr>))"
    by (rule check_login_cases)
  show "session_inv srv s'" if "tls s" "authMechanisms srv \<noteq> []" "session_inv srv s"
  proof -
    have "TLS (peer s) \<noteq> None" using that by (simp add: session_inv_def secure_ok_def)
    then have inv2: "session_inv srv s2"
      using that assms(2) unfolding s2 by (intro inv_ask inv_username) auto
    have "session_inv srv (s2\<lparr>peer := (peer s2)\<lparr>Authenticated := True\<rparr>\<rparr>)" if "r = Inr True"
      using inv2 \<open>tls s\<close> that by (intro inv_authenticated) (auto simp: s2)
    with inv2 show ?thesis
      unfolding s' by (auto intro: inv_Out inv_abort split: sum.split)
  qed
  show "evolves s s'"
    using assms(2) unfolding s' s2 by (auto intro!: evolves_peer evolves_step(12) split: sum.split)
  show "badCommandsCount s' = badCommandsCount s"
    unfolding s' s2 by (simp split: sum.split)
  show "keeps_tx s s'"
    unfolding s' s2 by (auto split: sum.split)
qed

text \<open>Obtaining the credentials, then asking.\<close>

lemma login_ok:
  assumes "\<not> Authenticated (peer s)" and "obtains_ok srv s f m"
    and "go_bind m (\<lambda>r. case r of Inl s1 \<Rightarrow> Inr s1 | Inr x \<Rightarrow> k x) = Inr s'"
    and "\<And>x. k x = Inr s' \<Longrightarrow> \<exists>u pw. check_login srv u pw (f x) = Inr s'"
  shows "(tls s \<longrightarrow> authMechanisms srv \<noteq> [] \<longrightarrow> session_inv srv s \<longrightarrow> session_inv srv s') \<and>
    evolves s s' \<and> counts s s' \<and> keeps_tx s s'"
proof -
  from assms(3) obtain r where m: "m = Inr r" and r: "(case r of Inl s1 \<Rightarrow> Inr s1 | Inr x \<Rightarrow> k x) = Inr s'"
    by (auto simp: go_bind_Inr_conv)
  show ?thesis
  proof (cases r)
    case (Inl s1)
    with m r assms(2) show ?thesis by (auto simp: exchanged_def)
  next
    case (Inr x)
    with r have "k x = Inr s'" by simp
    with assms(4) obtain u pw where c: "check_login srv u pw (f x) = Inr s'" by blast
    from m Inr assms(2) have "exchanged srv s (f x)" "badCommandsCount (f x) = badCommandsCount s" by auto
    with check_login_ok [OF c] assms(1) show ?thesis
      by (auto simp: exchanged_def counts_def intro: evolves_trans keeps_tx_trans)
  qed
qed

lemma handleLoginAuth_ok:
  assumes "handleLoginAuth srv cmd s = Inr s'" and "\<not> Authenticated (peer s)"
  shows "(tls s \<longrightarrow> authMechanisms srv \<noteq> [] \<longrightarrow> session_inv srv s \<longrightarrow> session_inv srv s') \<and>
    evolves s s' \<and> counts s s' \<and> keeps_tx s s'"
  using assms(1) unfolding handleLoginAuth_def
  by (rule login_ok [OF assms(2), where f = "snd \<circ> snd", rotated])
    (auto simp: login_no_args_ok login_one_arg_ok intro!: exI)

lemma handlePlainAuth_ok:
  assumes "handlePlainAuth E srv cmd s = Inr s'" and "\<not> Authenticated (peer s)"
  shows "(tls s \<longrightarrow> authMechanisms srv \<noteq> [] \<longrightarrow> session_inv srv s \<longrightarrow> session_inv srv s') \<and>
    evolves s s' \<and> counts s s' \<and> keeps_tx s s'"
  using assms(1) unfolding handlePlainAuth_def
  by (rule login_ok [OF assms(2), where f = snd, rotated])
    (simp_all add: plain_no_args_ok plain_one_arg_ok go_bind_Inr_conv split_beta, blast)

lemma handleAuth_cases:
  assumes "handleAuth E srv cmd s = Inr s'"
  obtains m where "s' = Out m s" | m where "s' = bad_command (Out m s)"
  | "tls s" "authMechanisms srv \<noteq> []" "\<not> Authenticated (peer s)"
      "handlePlainAuth E srv cmd s = Inr s' \<or> handleLoginAuth srv cmd s = Inr s'"
  using assms by (auto simp: handleAuth_def Let_def split: if_splits list.splits)

interpretation auth: session_handler handleAuth
proof
  fix srv s E cmd s'
  assume inv: "session_inv srv s" and h: "handleAuth E srv cmd s = Inr s'"
  from h show "session_inv srv s'"
    by (cases rule: handleAuth_cases)
      (use inv handleLoginAuth_ok [of srv cmd s s'] handlePlainAuth_ok [of E srv cmd s s'] in
        \<open>auto intro: inv_intros\<close>)
next
  fix srv s E cmd s'
  assume "handleAuth E srv cmd s = Inr s'"
  then show "evolves s s'"
    by (cases rule: handleAuth_cases)
      (use handleLoginAuth_ok [of srv cmd s s'] handlePlainAuth_ok [of E srv cmd s s'] in auto)
next
  fix srv s E cmd s'
  assume "handleAuth E srv cmd s = Inr s'"
  then show "counts s s'"
    by (cases rule: handleAuth_cases)
      (use handleLoginAuth_ok [of srv cmd s s'] handlePlainAuth_ok [of E srv cmd s s'] in \<open>auto simp: counts_def\<close>)
qed

section \<open>The credentials of PLAIN\<close>

text \<open>Storing the fields between the zero bytes, one after another.\<close>

fun place :: "string list \<Rightarrow> nat \<Rightarrow> string list \<Rightarrow> string list go" where
  "place t i [] = Inr t"
| "place t i (f # fs) =
     (if f = [] then place t (Suc i) fs
      else if i < length t then place (t[i := t ! i @ f]) (Suc i) fs
      else Inl IndexOutOfRange)"

lemma split_creds_beyond:
  "f \<noteq> [] \<Longrightarrow> CHR 0x00 \<notin> set f \<Longrightarrow> length t \<le> i \<Longrightarrow> split_creds t i (f @ bs) = Inl IndexOutOfRange"
  by (cases f) (auto, metis char_of_char char_of_nul)

lemma split_creds_place:
  "fs \<noteq> [] \<Longrightarrow> \<forall>f \<in> set fs. CHR 0x00 \<notin> set f \<Longrightarrow> split_creds t i (Join [CHR 0x00] fs) = place t i fs"
proof (induction fs arbitrary: t i)
  case Nil
  then show ?case by simp
next
  case (Cons f fs)
  let ?rest = "if fs = [] then [] else CHR 0x00 # Join [CHR 0x00] fs"
  have join: "Join [CHR 0x00] (f # fs) = f @ ?rest"
    by (cases fs) (simp_all add: Join_Cons)
  have rest: "split_creds u i ?rest = place u (Suc i) fs" for u
    using Cons by simp
  show ?case
  proof (cases "f = [] \<or> i < length t")
    case True
    then have "split_creds t i (f @ ?rest) = split_creds (if f = [] then t else t[i := t ! i @ f]) i ?rest"
      using Cons.prems(2) split_creds_field [of f i t ?rest] by auto
    with True show ?thesis unfolding join rest by auto
  next
    case False
    then show ?thesis
      unfolding join using Cons.prems(2) by (subst split_creds_beyond) auto
  qed
qed

lemma place_beyond:
  "length t \<le> i \<Longrightarrow> place t i fs = (if list_all (\<lambda>f. f = []) fs then Inr t else Inl IndexOutOfRange)"
  by (induction fs arbitrary: i) auto

lemma place_three:
  "place [[], [], []] 0 fs =
     (if list_all (\<lambda>f. f = []) (drop 3 fs) then Inr (take 3 (fs @ [[], [], []])) else Inl IndexOutOfRange)"
proof -
  consider "fs = []" | a where "fs = [a]" | a b where "fs = [a, b]" | a b c gs where "fs = a # b # c # gs"
    by (metis list.exhaust)
  then show ?thesis
    by cases (simp_all add: place_beyond numeral_2_eq_2 numeral_3_eq_3)
qed

text \<open>
  C22: The loop of \<open>handlePlainAuth\<close> cuts the decoded credentials into the three fields
  between the zero bytes (authorisation identity, user name, password; missing ones are
  empty), and panics with an index out of range exactly when a field after the third is not
  empty.
\<close>

theorem split_creds_correct:
  "split_creds [[], [], []] 0 bs =
     (if list_all (\<lambda>f. f = []) (drop 3 (Split (CHR 0x00) bs))
      then Inr (take 3 (Split (CHR 0x00) bs @ [[], [], []])) else Inl IndexOutOfRange)"
  using split_creds_place [of "Split (CHR 0x00) bs" "[[], [], []]" 0]
  by (simp add: Join_Split Split_parts_no_sep place_three)

section \<open>Base64 round trip\<close>

definition b64_char :: "nat \<Rightarrow> char" where
  "b64_char n = char_of
     (if n < 26 then n + 65 else if n < 52 then n + 71 else if n < 62 then n - 4
      else if n = 62 then 43 else 47)"

fun b64_encode :: "string \<Rightarrow> string" where
  "b64_encode [] = []"
| "b64_encode [a] = [b64_char (byte a div 4), b64_char (byte a mod 4 * 16), CHR ''='', CHR ''='']"
| "b64_encode [a, b] =
     [b64_char (byte a div 4), b64_char (byte a mod 4 * 16 + byte b div 16), b64_char (byte b mod 16 * 4), CHR ''='']"
| "b64_encode (a # b # c # r) =
     b64_char (byte a div 4) # b64_char (byte a mod 4 * 16 + byte b div 16)
       # b64_char (byte b mod 16 * 4 + byte c div 64) # b64_char (byte c mod 64) # b64_encode r"

lemma byte_b64_char:
  "n < 64 \<Longrightarrow> byte (b64_char n) =
     (if n < 26 then n + 65 else if n < 52 then n + 71 else if n < 62 then n - 4
      else if n = 62 then 43 else 47)"
  by (simp add: b64_char_def)

lemma b64_char_value: "n < 64 \<Longrightarrow> b64_value (b64_char n) = Some n"
  by (auto simp: b64_value_def byte_b64_char Let_def)

lemma b64_char_special [simp]: "n < 64 \<Longrightarrow> b64_char n \<noteq> CHR ''=''" "n < 64 \<Longrightarrow> b64_char n \<noteq> CR" "n < 64 \<Longrightarrow> b64_char n \<noteq> LF"
  using byte_b64_char [of n] by (auto split: if_splits)

text \<open>Six bits at a time: the quotients and remainders of the encoding, inverted.\<close>

lemma digit_split: "b < k \<Longrightarrow> (a * k + b) div k = (a :: nat)" "b < k \<Longrightarrow> (a * k + b) mod k = (b :: nat)"
  by simp_all

lemma byte_div [simp]: "byte c div 16 < 16" "byte c div 64 < 4" "byte c div 4 < 64"
  by (simp_all add: less_mult_imp_div_less)

lemma b64_bounds [simp]:
  "byte a mod 4 * 16 < 64" "byte b mod 16 * 4 < 64"
  "byte a mod 4 * 16 + byte b div 16 < 64" "byte b mod 16 * 4 + byte c div 64 < 64"
proof -
  have "byte a mod 4 < 4" "byte b mod 16 < 16" by simp_all
  then show "byte a mod 4 * 16 < 64" "byte b mod 16 * 4 < 64"
    "byte a mod 4 * 16 + byte b div 16 < 64" "byte b mod 16 * 4 + byte c div 64 < 64"
    using byte_div(1) [of b] byte_div(2) [of c] by linarith+
qed

lemma b64_bits [simp]:
  "(byte a mod 4 * 16 + byte b div 16) div 16 = byte a mod 4"
  "(byte a mod 4 * 16 + byte b div 16) mod 16 = byte b div 16"
  "(byte b mod 16 * 4 + byte c div 64) div 4 = byte b mod 16"
  "(byte b mod 16 * 4 + byte c div 64) mod 4 = byte c div 64"
  by (rule digit_split, simp)+

lemma b64_whole [simp]: "byte b div 16 mod 16 * 16 + byte b mod 16 = byte b" "byte c div 64 mod 4 * 64 + byte c mod 64 = byte c"
  by (simp_all add: mod_less)

lemma b64_quanta_encode: "b64_quanta (b64_encode s) = Some s"
  by (induction s rule: b64_encode.induct) (simp_all add: b64_char_value)

lemma b64_encode_no_breaks: "c \<in> set (b64_encode s) \<Longrightarrow> c \<noteq> CR \<and> c \<noteq> LF"
  by (induction s rule: b64_encode.induct) auto

lemma b64_encode_filter: "filter (\<lambda>c. c \<noteq> CR \<and> c \<noteq> LF) (b64_encode s) = b64_encode s"
  using b64_encode_no_breaks by (auto simp: filter_id_conv)

lemma graphic_b64: "c \<in> set (b64_encode s) \<Longrightarrow> graphic c"
  by (induction s rule: b64_encode.induct) (auto simp: graphic_def byte_b64_char)

lemma TrimRight_b64: "TrimRight (b64_encode s) = b64_encode s"
  using TrimRight_word [of "b64_encode s"] graphic_b64 [OF last_in_set, of s] length_TrimRight [of "[]"]
  by (cases "b64_encode s = []") auto

lemmas decode_encode = DecodeString_def b64_encode_filter b64_quanta_encode

section \<open>Properties of AUTH\<close>

lemma mechanism_in_iff: "mechanism_in mech ms \<longleftrightarrow> mech \<in> set ms"
  by (induction ms) auto

lemma split_creds_three:
  assumes "CHR 0x00 \<notin> set z" "CHR 0x00 \<notin> set u" "CHR 0x00 \<notin> set pw"
  shows "split_creds [[], [], []] 0 (z @ CHR 0x00 # u @ CHR 0x00 # pw) = Inr [z, u, pw]"
proof -
  have "Join [CHR 0x00] [z, u, pw] = z @ CHR 0x00 # u @ CHR 0x00 # pw"
    by (simp add: Join_Cons)
  with split_creds_place [of "[z, u, pw]" "[[], [], []]" 0] assms show ?thesis
    by (simp add: place_three)
qed

text \<open>
  C11: AUTH PLAIN with an initial response, over TLS and before authentication, asks the
  authenticator exactly once, about the user name and the password that were encoded; the
  peer is authenticated afterwards exactly when it said yes, the reply tells the three
  outcomes apart, and an error of the authenticator ends the session.
\<close>

theorem plain_auth_asks_once:
  assumes "tls s" and "\<not> Authenticated (peer s)" and "''PLAIN'' \<in> set (authMechanisms srv)"
    and "ToUpper (unicode_ToUpper E) m = ''PLAIN''"
    and "arguments cmd = [m, b64_encode (z @ CHR 0x00 # u @ CHR 0x00 # pw)]"
    and "CHR 0x00 \<notin> set z" "CHR 0x00 \<notin> set u" "CHR 0x00 \<notin> set pw"
    and "Authenticator srv = Some f" and "r = f (calls s) ((peer s)\<lparr>Username := u\<rparr>) pw"
    and "writable (io s)"
  shows "\<exists>s'. handleAuth E srv cmd s = Inr s' \<and>
    calls s' = calls s @ [CallAuth ((peer s)\<lparr>Username := u\<rparr>) pw r] \<and>
    (Authenticated (peer s') \<longleftrightarrow> r = Inr True) \<and> Username (peer s') = u \<and>
    (state s' = (case r of Inl err \<Rightarrow> sessionStateAborted | Inr ok \<Rightarrow> state s)) \<and>
    written (io s') = written (io s) @
      (case r of Inl err \<Rightarrow> Codes ErrorAuth
        | Inr ok \<Rightarrow> if ok then Codes SuccessAuthentication else Codes FailAuthentication) @ CRLF"
proof -
  have "authMechanismValid E srv ''PLAIN''"
    using assms(3) by (simp add: authMechanismValid_def mechanism_in_iff ToUpper_fixed)
  moreover have "authMechanisms srv \<noteq> []" using assms(3) by auto
  ultimately have "handleAuth E srv cmd s = handlePlainAuth E srv cmd s"
    using assms(1,2,4,5) by (simp add: handleAuth_def)
  also have "\<dots> = check_login srv u pw s"
    using assms(5-8) by (simp add: handlePlainAuth_def plain_one_arg_def decode_encode split_creds_three)
  finally show ?thesis
    using assms(2,9,11)
    by (cases r) (auto simp: check_login_def Let_def abort_def simp flip: assms(10))
qed

theorem plain_auth_asks_once_witness:
  "\<exists>s'. handleAuth ex_env (ex_srv\<lparr>authMechanisms := [''PLAIN''], Authenticator := Some (\<lambda>cs p pw. Inr (pw = ''pw''))\<rparr>)
      \<lparr>commandCode = authCmd, verb = ''AUTH'', cmd_data = [], arguments = [''PLAIN'', b64_encode ([] @ CHR 0x00 # ''me'' @ CHR 0x00 # ''pw'')]\<rparr>
      ((ex_session [] [] sessionStateInit NewEnvelope True [])\<lparr>tls := True\<rparr>) = Inr s' \<and>
    Authenticated (peer s') \<and> Username (peer s') = ''me''"
  using plain_auth_asks_once [of "(ex_session [] [] sessionStateInit NewEnvelope True [])\<lparr>tls := True\<rparr>"
      "ex_srv\<lparr>authMechanisms := [''PLAIN''], Authenticator := Some (\<lambda>cs p pw. Inr (pw = ''pw''))\<rparr>" ex_env "''PLAIN''"
      "\<lparr>commandCode = authCmd, verb = ''AUTH'', cmd_data = [], arguments = [''PLAIN'', b64_encode ([] @ CHR 0x00 # ''me'' @ CHR 0x00 # ''pw'')]\<rparr>"
      "[]" "''me''" "''pw''" "\<lambda>cs p pw. Inr (pw = ''pw'')" "Inr True"]
  by (auto simp: ex_session_def ex_peer_def ToUpper_fixed writable_def)

text \<open>Reading a base64 line: decoding inverts the encoding, whatever the segments.\<close>

lemma ReadLine_b64:
  assumes "pending (io s) = b64_encode d @ CRLF @ rest" and "writable (io s)"
  shows "\<exists>b. ReadLine s = Inr (Inr (b64_encode d), s\<lparr>io := b\<rparr>) \<and> pending b = rest \<and> writable b \<and> written b = written (io s)"
  using ReadLine_line [OF assms(1)] b64_encode_no_breaks [of LF d] assms(2) by auto

lemma login_no_args_reads:
  assumes "pending (io s) = b64_encode u @ CRLF @ b64_encode pw @ CRLF @ rest" and "writable (io s)"
  shows "\<exists>b. login_no_args s = Inr (Inr (u, pw, s\<lparr>io := b\<rparr>)) \<and> pending b = rest \<and> writable b \<and>
    written b = written (io s) @ ''334 UGFzc3dvcmQ6'' @ CRLF"
proof -
  obtain b where b: "ReadLine s = Inr (Inr (b64_encode u), s\<lparr>io := b\<rparr>)" "pending b = b64_encode pw @ CRLF @ rest"
    "writable b" "written b = written (io s)"
    using ReadLine_b64 [OF assms] by auto
  define s1 where "s1 = Out [''334 UGFzc3dvcmQ6''] (s\<lparr>io := b\<rparr>)"
  have s1: "s1 = s\<lparr>io := io s1\<rparr>" "written (io s1) = written (io s) @ ''334 UGFzc3dvcmQ6'' @ CRLF"
    using b(3,4) by (simp_all add: s1_def Out_writable reply_def)
  obtain b2 where b2: "ReadLine s1 = Inr (Inr (b64_encode pw), s1\<lparr>io := b2\<rparr>)" "pending b2 = rest" "writable b2"
    "written b2 = written (io s1)"
    using ReadLine_b64 [of s1 pw rest] b(2,3) by (auto simp: s1_def)
  moreover have "s1\<lparr>io := b2\<rparr> = s\<lparr>io := b2\<rparr>"
    by (subst s1(1)) simp
  ultimately show ?thesis
    using b(1) s1(2) by (intro exI [of _ b2]) (simp add: login_no_args_def TrimRight_b64 decode_encode flip: s1_def)
qed

text \<open>
  C21: AUTH LOGIN without an initial response, over TLS and before authentication: the two
  lines the client sends, however they are cut into segments, are decoded to the user name and
  the password that were encoded, one prompt is sent between them, and the authenticator is
  asked exactly once about them; the peer is authenticated afterwards exactly when it said
  yes, and the session goes on right after the second line.
\<close>

theorem login_auth_roundtrip:
  assumes "tls s" and "\<not> Authenticated (peer s)" and "''LOGIN'' \<in> set (authMechanisms srv)"
    and "ToUpper (unicode_ToUpper E) m = ''LOGIN''" and "arguments cmd = [m]"
    and "pending (io s) = b64_encode u @ CRLF @ b64_encode pw @ CRLF @ rest" and "writable (io s)"
    and "Authenticator srv = Some f" and "r = f (calls s) ((peer s)\<lparr>Username := u\<rparr>) pw"
  shows "\<exists>s'. handleAuth E srv cmd s = Inr s' \<and>
    calls s' = calls s @ [CallAuth ((peer s)\<lparr>Username := u\<rparr>) pw r] \<and>
    (Authenticated (peer s') \<longleftrightarrow> r = Inr True) \<and> Username (peer s') = u \<and>
    (state s' = (case r of Inl err \<Rightarrow> sessionStateAborted | Inr ok \<Rightarrow> state s)) \<and> pending (io s') = rest \<and>
    written (io s') = written (io s) @ ''334 UGFzc3dvcmQ6'' @ CRLF @
      (case r of Inl err \<Rightarrow> Codes ErrorAuth
        | Inr ok \<Rightarrow> if ok then Codes SuccessAuthentication else Codes FailAuthentication) @ CRLF"
proof -
  have "authMechanismValid E srv ''LOGIN''"
    using assms(3) by (simp add: authMechanismValid_def mechanism_in_iff ToUpper_fixed)
  moreover have "authMechanisms srv \<noteq> []" using assms(3) by auto
  ultimately have "handleAuth E srv cmd s = handleLoginAuth srv cmd s"
    using assms(1,2,4,5) by (simp add: handleAuth_def)
  moreover obtain b where b: "login_no_args s = Inr (Inr (u, pw, s\<lparr>io := b\<rparr>))" "pending b = rest" "writable b"
    "written b = written (io s) @ ''334 UGFzc3dvcmQ6'' @ CRLF"
    using login_no_args_reads [OF assms(6,7)] by blast
  ultimately have "handleAuth E srv cmd s = check_login srv u pw (s\<lparr>io := b\<rparr>)"
    using assms(5) by (simp add: handleLoginAuth_def)
  then show ?thesis
    using assms(2,8) b(2-4)
    by (cases r) (auto simp: check_login_def Let_def abort_def simp flip: assms(9))
qed

theorem login_auth_roundtrip_witness:
  "\<exists>s'. handleAuth ex_env (ex_srv\<lparr>authMechanisms := [''LOGIN''], Authenticator := Some (\<lambda>cs p pw. Inr (pw = ''pw''))\<rparr>)
      \<lparr>commandCode = authCmd, verb = ''AUTH'', cmd_data = ''AUTH LOGIN'', arguments = [''LOGIN'']\<rparr>
      ((ex_session [Chunk (b64_encode ''me'' @ CRLF), Chunk (b64_encode ''pw'' @ CRLF)] [] sessionStateInit NewEnvelope True [])\<lparr>tls := True\<rparr>) = Inr s' \<and>
    Authenticated (peer s') \<and> Username (peer s') = ''me'' \<and> pending (io s') = []"
proof -
  let ?s = "(ex_session [Chunk (b64_encode ''me'' @ CRLF), Chunk (b64_encode ''pw'' @ CRLF)] [] sessionStateInit NewEnvelope True [])\<lparr>tls := True\<rparr>"
  have "pending (io ?s) = b64_encode ''me'' @ CRLF @ b64_encode ''pw'' @ CRLF @ []" "\<not> Authenticated (peer ?s)" "writable (io ?s)"
    by (simp_all add: ex_session_def pending_def ex_peer_def writable_def)
  then show ?thesis
    using login_auth_roundtrip [of ?s "ex_srv\<lparr>authMechanisms := [''LOGIN''], Authenticator := Some (\<lambda>cs p pw. Inr (pw = ''pw''))\<rparr>"
        ex_env "''LOGIN''" "\<lparr>commandCode = authCmd, verb = ''AUTH'', cmd_data = ''AUTH LOGIN'', arguments = [''LOGIN'']\<rparr>"
        "''me''" "''pw''" "[]" "\<lambda>cs p pw. Inr (pw = ''pw'')" "Inr True"]
    by (auto simp: ToUpper_fixed)
qed

end
