(* ===== verification/Mail.thy ===== *)
theory Mail
  imports Policy
begin

text \<open>
  The MAIL and RCPT handlers of \<open>session.go\<close>, which build the envelope. Their parameter
  loops are functions over the remaining parameters that either return from the handler
  (\<open>Inl\<close>) or fall through with the session (\<open>Inr\<close>). The loop of RCPT ranges over all
  the arguments, the address among them, as the code does.
\<close>

section \<open>MAIL\<close>

text \<open>One round of the loop over the parameters of MAIL.\<close>

definition mail_ext :: "env \<Rightarrow> string \<Rightarrow> session \<Rightarrow> session + session" where
  "mail_ext E ext s =
     (let extValue = Split CHR ''='' ext
      in if length extValue \<noteq> 2 then Inl (Out [Codes FailInvalidAddress] s)
         else let key = ToUpper (unicode_ToUpper E) (extValue ! 0); val = extValue ! 1
         in if key = ''SIZE'' then
              (case ParseInt val of
                 None \<Rightarrow> Inl (Out [Codes FailInvalidExtension] s)
               | Some sz \<Rightarrow>
                   if MsgSize DefaultLimits < sz then Inl (Out [Codes FailTooBig] s) else Inr s)
            else if key = ''BODY'' then Inr (s\<lparr>bodyType := val\<rparr>)
            else if key = ''ALT-ADDRESS'' then Inr s
            else if key = ''AUTH'' then Inr s
            else if key = ''MT-PRIORITY'' then
              (case ParseInt val of
                 None \<Rightarrow> Inl (Out [Codes FailInvalidExtension] s)
               | Some priority \<Rightarrow>
                   if 9 < priority \<or> priority < - 9 then Inl (Out [Codes FailInvalidExtension] s)
                   else Inr (s\<lparr>envelope := (envelope s)\<lparr>Priority := priority\<rparr>\<rparr>))
            else
              let s1 = Out [''555''] s
              in Inr (s1\<lparr>envelope := (envelope s1)\<lparr>MailFrom := None\<rparr>\<rparr>))"

fun mail_exts :: "env \<Rightarrow> string list \<Rightarrow> session \<Rightarrow> session + session" where
  "mail_exts E [] s = Inr s"
| "mail_exts E (ext # args) s =
     (case mail_ext E ext s of Inl s1 \<Rightarrow> Inl s1 | Inr s1 \<Rightarrow> mail_exts E args s1)"

text \<open>The optional check of the sender; \<open>Inl\<close> when it refused.\<close>

definition check_sender :: "Server \<Rightarrow> mail_address \<Rightarrow> session \<Rightarrow> session + session" where
  "check_sender srv mailFrom s =
     (case SenderChecker srv of
        None \<Rightarrow> Inr s
      | Some f \<Rightarrow>
          let r = f (calls s) (peer s) mailFrom;
              s1 = ask (CallSender (peer s) mailFrom r) s
          in (case r of
                Some err \<Rightarrow> Inl (Out [Codes FailAccessDenied @ '' '' @ Error_text err] s1)
              | None \<Rightarrow> Inr s1))"

text \<open>The end of MAIL: the host of the sender is looked up and the state advances.\<close>

definition finish_mail :: "env \<Rightarrow> session \<Rightarrow> session go" where
  "finish_mail E s =
     go_bind (IsFQN (LookupMX E (calls s)) (LookupHost E (calls s)) (MailFrom (envelope s))) (\<lambda>err.
       let s1 = ask (CallDNS (MailFrom (envelope s)) err) s
       in if err \<noteq> [] then Inr (Out [err] s1)
          else case state s1 of
              sessionStateGotRcpt \<Rightarrow> Inr (Out [Codes SuccessMailCmd] (s1\<lparr>state := sessionStateReadyForData\<rparr>))
            | sessionStateInit \<Rightarrow> Inr (Out [Codes SuccessMailCmd] (s1\<lparr>state := sessionStateGotMail\<rparr>))
            | _ \<Rightarrow> Inr (Out [Codes FailBadSequence] (s1\<lparr>state := sessionStateAborted\<rparr>)))"

definition handleMail :: handler where
  "handleMail E srv cmd s0 =
     (let s = Reset s0
      in if \<not> tls s \<and> TLSOnly srv then Inr (Out [Codes FailEncryptionNeeded] s)
         else if length (authMechanisms srv) \<noteq> 0 \<and> \<not> Authenticated (peer s)
           then Inr (Out [Codes FailAccessDenied] s)
         else if IsSet (envelope s) then Inr (Out [Codes FailNestedMailCmd] s)
         else case arguments cmd of
             [] \<Rightarrow> Inr (Out [Codes FailInvalidAddress] s)
           | a # args \<Rightarrow>
               let from = ToLower (unicode_ToLower E) (TrimSpace a)
               in if from = [] \<or> \<not> HasPrefix from ''from:''
                  then Inr (Out [Codes FailInvalidAddress] s)
                  else let fromParts = Split CHR '':'' from
                  in if length fromParts < 2 then Inr (Out [Codes FailInvalidAddress] s)
                     else case parseAddress (ParseAddress E) (fromParts ! 1) of
                         Inl err \<Rightarrow> Inr (Out [Codes FailInvalidAddress] s)
                       | Inr mailFrom \<Rightarrow>
                           (case check_sender srv mailFrom s of
                              Inl s1 \<Rightarrow> Inr s1
                            | Inr s1 \<Rightarrow>
                                let s2 = s1\<lparr>envelope := (envelope s1)\<lparr>MailFrom := Some mailFrom\<rparr>\<rparr>
                                in (case mail_exts E args s2 of
                                      Inl s3 \<Rightarrow> Inr s3
                                    | Inr s3 \<Rightarrow> finish_mail E s3)))"

section \<open>RCPT\<close>

text \<open>One round of the loop over the arguments of RCPT.\<close>

definition rcpt_ext :: "env \<Rightarrow> string \<Rightarrow> session \<Rightarrow> session + session" where
  "rcpt_ext E ext s =
     (let extValue = Split CHR ''='' ext
      in if length extValue \<noteq> 2 then Inl (Out [Codes FailInvalidAddress] s)
         else if ToUpper (unicode_ToUpper E) (extValue ! 0) = ''RRVS'' then Inr s
         else
           let s1 = Out [''555''] s
           in Inr (s1\<lparr>envelope := (envelope s1)\<lparr>MailFrom := None\<rparr>\<rparr>))"

fun rcpt_exts :: "env \<Rightarrow> string list \<Rightarrow> session \<Rightarrow> session + session" where
  "rcpt_exts E [] s = Inr s"
| "rcpt_exts E (ext # args) s =
     (case rcpt_ext E ext s of Inl s1 \<Rightarrow> Inl s1 | Inr s1 \<Rightarrow> rcpt_exts E args s1)"

text \<open>The call of the recipient checker, which the code does not guard against nil.\<close>

definition check_recipient :: "Server \<Rightarrow> mail_address \<Rightarrow> session \<Rightarrow> (session + session) go" where
  "check_recipient srv rcpt s =
     (case RecipientChecker srv of
        None \<Rightarrow> Inl NilDereference
      | Some f \<Rightarrow>
          let r = f (calls s) (peer s) rcpt;
              s1 = ask (CallRcpt (peer s) rcpt r) s
          in (case r of
                Some ErrorRecipientNotFound \<Rightarrow> Inr (Inl (Out [Codes FailMailboxDoesntExist] s1))
              | Some ErrorRecipientsMailboxFull \<Rightarrow> Inr (Inl (Out [Codes FailMailboxFull] s1))
              | Some _ \<Rightarrow> Inr (Inl (Out [Codes FailAccessDenied] s1))
              | None \<Rightarrow> Inr (Inr s1)))"

text \<open>The end of RCPT: the recipient is stored and the state advances.\<close>

definition finish_rcpt :: "mail_address \<Rightarrow> session \<Rightarrow> session" where
  "finish_rcpt rcpt s =
     (case AddRecipient rcpt (envelope s) of
        (Some err, e) \<Rightarrow> Out [Error_text err] (s\<lparr>envelope := e\<rparr>)
      | (None, e) \<Rightarrow>
          let s1 = s\<lparr>envelope := e\<rparr>
          in (case state s1 of
                sessionStateGotMail \<Rightarrow> Out [Codes SuccessRcptCmd] (s1\<lparr>state := sessionStateReadyForData\<rparr>)
              | sessionStateInit \<Rightarrow> Out [Codes SuccessRcptCmd] (s1\<lparr>state := sessionStateGotRcpt\<rparr>)
              | sessionStateGotRcpt \<Rightarrow> Out [Codes SuccessRcptCmd] s1
              | sessionStateReadyForData \<Rightarrow> Out [Codes SuccessRcptCmd] s1
              | _ \<Rightarrow> Out [Codes FailBadSequence] (s1\<lparr>state := sessionStateAborted\<rparr>)))"

text \<open>RCPT from the call of the checker on.\<close>

definition accept_rcpt :: "env \<Rightarrow> Server \<Rightarrow> string list \<Rightarrow> mail_address \<Rightarrow> session \<Rightarrow> session go" where
  "accept_rcpt E srv args rcpt s =
     go_bind (check_recipient srv rcpt s) (\<lambda>r.
       case r of
         Inl s1 \<Rightarrow> Inr s1
       | Inr s1 \<Rightarrow>
           (case rcpt_exts E args s1 of
              Inl s2 \<Rightarrow> Inr s2
            | Inr s2 \<Rightarrow> Inr (finish_rcpt rcpt s2)))"

definition handleRcpt :: handler where
  "handleRcpt E srv cmd s =
     (if length (authMechanisms srv) \<noteq> 0 \<and> \<not> Authenticated (peer s)
        then Inr (Out [Codes FailAccessDenied] s)
      else if \<not> helloSeen s then Inr (Out [Codes FailBadSequence] s)
      else if MaxRcptCount DefaultLimits < int (length (MailTo (envelope s)))
        then Inr (Out [Codes ErrorTooManyRecipients] s)
      else
        let args = arguments cmd;
            s0 = (if args = [] then Out [Codes FailInvalidRecipient] s else s)
        in go_bind (go_nth args 0) (\<lambda>a.
          let toParts = Split CHR '':'' a
          in if length toParts < 2 \<or> ToUpper (unicode_ToUpper E) (TrimSpace (toParts ! 0)) \<noteq> ''TO''
             then Inr (Out [Codes FailInvalidAddress] s0)
             else
               let toPart = (if ToLower (unicode_ToLower E) (toParts ! 1) = ''<postmaster>''
                             then ''<postmaster@'' @ ServerName (peer s0) @ ''>'' else toParts ! 1)
               in case parseAddress (ParseAddress E) toPart of
                   Inl err \<Rightarrow> Inr (Out [Codes FailInvalidAddress] s0)
                 | Inr rcpt \<Rightarrow> accept_rcpt E srv args rcpt s0))"

section \<open>The contract of MAIL\<close>

text \<open>
  While MAIL works on the fresh envelope, the session keeps the invariant without its phase:
  there is no recipient yet and the sender may be set.
\<close>

definition fresh_mail :: "Server \<Rightarrow> session \<Rightarrow> bool" where
  "fresh_mail srv s \<longleftrightarrow>
     data (envelope s) \<noteq> None \<and> headers (envelope s) = [] \<and> priority_ok (Priority (envelope s)) \<and>
     MailTo (envelope s) = [] \<and> (state s = sessionStateInit \<or> state s = sessionStateAborted) \<and>
     auth_ok srv (peer s) \<and> (TLSOnly srv \<longrightarrow> tls s) \<and>
     secure_ok (peer s) (tls s) (calls s) \<and> log_ok srv (calls s)"

lemma fresh_mail_Reset:
  "session_inv srv s \<Longrightarrow> auth_ok srv (peer s) \<Longrightarrow> TLSOnly srv \<longrightarrow> tls s \<Longrightarrow> fresh_mail srv (Reset s)"
  by (auto simp: session_inv_def fresh_mail_def Envelope_Reset_eq)

lemma fresh_mail_inv: "fresh_mail srv s \<Longrightarrow> session_inv srv s"
  by (auto simp: session_inv_def fresh_mail_def)

lemma fresh_mail_Out: "fresh_mail srv s \<Longrightarrow> fresh_mail srv (Out m s)"
  using Out_state [of m s] by (auto simp: fresh_mail_def)

lemma fresh_mail_ask:
  "fresh_mail srv s \<Longrightarrow> call_ok srv (calls s) c \<Longrightarrow> c \<noteq> CallHandshake True \<Longrightarrow> fresh_mail srv (ask c s)"
  by (auto simp: fresh_mail_def secure_ok_snoc)

lemma fresh_mail_fields:
  "fresh_mail srv s \<Longrightarrow> fresh_mail srv (s\<lparr>bodyType := x\<rparr>)"
  "fresh_mail srv s \<Longrightarrow> fresh_mail srv (s\<lparr>envelope := (envelope s)\<lparr>MailFrom := a\<rparr>\<rparr>)"
  "fresh_mail srv s \<Longrightarrow> priority_ok n \<Longrightarrow> fresh_mail srv (s\<lparr>envelope := (envelope s)\<lparr>Priority := n\<rparr>\<rparr>)"
  by (auto simp: fresh_mail_def)

lemmas fresh_mail_intros = fresh_mail_Out fresh_mail_ask fresh_mail_fields

text \<open>What the sub-steps of MAIL and RCPT do besides: they evolve, count nothing and deliver nothing.\<close>

definition quiet :: "session \<Rightarrow> session \<Rightarrow> bool" where
  "quiet s s' \<longleftrightarrow> evolves s s' \<and> badCommandsCount s' = badCommandsCount s \<and> peer s' = peer s \<and> tls s' = tls s \<and>
     deliveries (calls s') = deliveries (calls s)"

lemma quiet_refl [simp]: "quiet s s"
  by (simp add: quiet_def)

lemma quiet_trans: "quiet s s' \<Longrightarrow> quiet s' s'' \<Longrightarrow> quiet s s''"
  by (auto simp: quiet_def intro: evolves_trans)

lemma quiet_step [simp]:
  "quiet s (Out m s') \<longleftrightarrow> quiet s s'" "quiet s (Reset s') \<longleftrightarrow> quiet s s'"
  "quiet s s' \<Longrightarrow> \<not> is_handshake c \<Longrightarrow> \<not> is_delivery c \<Longrightarrow> quiet s (ask c s')" "quiet s (s'\<lparr>envelope := e\<rparr>) \<longleftrightarrow> quiet s s'"
  "quiet s (s'\<lparr>bodyType := x\<rparr>) \<longleftrightarrow> quiet s s'" "quiet s (s'\<lparr>state := st\<rparr>) \<longleftrightarrow> quiet s s'"
  by (auto simp: quiet_def)

text \<open>A parameter of MAIL keeps all of that, whether it ends the command or not.\<close>

definition either :: "('a \<Rightarrow> bool) \<Rightarrow> 'a + 'a \<Rightarrow> bool" where
  "either P r \<longleftrightarrow> (case r of Inl x \<Rightarrow> P x | Inr x \<Rightarrow> P x)"

lemma either_simps [simp]: "either P (Inl x) = P x" "either P (Inr x) = P x"
  by (simp_all add: either_def)

lemma fresh_mail_refused:
  "fresh_mail srv s \<Longrightarrow> fresh_mail srv ((Out m s)\<lparr>envelope := (envelope s)\<lparr>MailFrom := None\<rparr>\<rparr>)"
  using fresh_mail_fields(2) [OF fresh_mail_Out, of srv s None m] by simp

lemma mail_ext_ok:
  "either (\<lambda>s'. quiet s s' \<and> (fresh_mail srv s \<longrightarrow> fresh_mail srv s')) (mail_ext E ext s)"
  unfolding mail_ext_def Let_def
  by (auto intro!: fresh_mail_fields(3) intro: fresh_mail_intros fresh_mail_refused simp: priority_ok_def split: option.split)

lemma mail_exts_ok:
  "either (\<lambda>s'. quiet s s' \<and> (fresh_mail srv s \<longrightarrow> fresh_mail srv s')) (mail_exts E args s)"
proof (induction args arbitrary: s)
  case Nil
  then show ?case by simp
next
  case (Cons ext args)
  show ?case
  proof (cases "mail_ext E ext s")
    case (Inl s1)
    with mail_ext_ok [of s srv E ext] show ?thesis by simp
  next
    case (Inr s1)
    with mail_ext_ok [of s srv E ext] Cons [of s1] show ?thesis
      by (auto simp: either_def split: sum.splits intro: quiet_trans)
  qed
qed

text \<open>The parameters call nobody, and leave the sender or forget it.\<close>

lemma mail_exts_frame:
  "mail_exts E args s = Inr s' \<Longrightarrow>
   calls s' = calls s \<and> (MailFrom (envelope s') = MailFrom (envelope s) \<or> MailFrom (envelope s') = None)"
proof (induction args arbitrary: s)
  case (Cons ext args)
  then obtain s1 where s1: "mail_ext E ext s = Inr s1" "mail_exts E args s1 = Inr s'"
    by (auto split: sum.splits)
  then have "calls s1 = calls s \<and> (MailFrom (envelope s1) = MailFrom (envelope s) \<or> MailFrom (envelope s1) = None)"
    by (auto simp: mail_ext_def Let_def split: if_splits option.splits)
  with Cons.IH [OF s1(2)] show ?case by auto
qed simp

lemma check_sender_ok:
  "either (\<lambda>s'. quiet s s' \<and> (fresh_mail srv s \<longrightarrow> fresh_mail srv s')) (check_sender srv a s)"
  "check_sender srv a s = Inr s' \<Longrightarrow> SenderChecker srv \<noteq> None \<Longrightarrow> \<exists>cs0 q. calls s' = cs0 @ [CallSender q a None]"
proof -
  have "call_ok srv (calls s) (CallSender (peer s) a r)" if "fresh_mail srv s" for r
    using that by (auto simp: fresh_mail_def secure_ok_def)
  then show "either (\<lambda>s'. quiet s s' \<and> (fresh_mail srv s \<longrightarrow> fresh_mail srv s')) (check_sender srv a s)"
    by (auto simp: check_sender_def Let_def intro!: fresh_mail_Out fresh_mail_ask split: option.split)
  show "check_sender srv a s = Inr s' \<Longrightarrow> SenderChecker srv \<noteq> None \<Longrightarrow> \<exists>cs0 q. calls s' = cs0 @ [CallSender q a None]"
    by (auto simp: check_sender_def Let_def split: option.splits)
qed

lemma finish_mail_ok:
  assumes "finish_mail E s = Inr s'"
  shows "quiet s s'"
    and "fresh_mail srv s \<Longrightarrow>
      (\<And>a. MailFrom (envelope s) = Some a \<Longrightarrow> SenderChecker srv \<noteq> None \<Longrightarrow> \<exists>cs0 q. calls s = cs0 @ [CallSender q a None]) \<Longrightarrow>
      session_inv srv s'"
proof -
  obtain a err where a: "MailFrom (envelope s) = Some a"
    and err: "IsFQN (LookupMX E (calls s)) (LookupHost E (calls s)) (Some a) = Inr err"
    using assms
    by (cases "MailFrom (envelope s)") (auto simp: finish_mail_def IsFQN_def hostname_def go_bind_Inr_conv)
  define s1 where "s1 = ask (CallDNS (Some a) err) s"
  have s': "s' = (if err \<noteq> [] then Out [err] s1
      else case state s of
          sessionStateGotRcpt \<Rightarrow> Out [Codes SuccessMailCmd] (s1\<lparr>state := sessionStateReadyForData\<rparr>)
        | sessionStateInit \<Rightarrow> Out [Codes SuccessMailCmd] (s1\<lparr>state := sessionStateGotMail\<rparr>)
        | _ \<Rightarrow> Out [Codes FailBadSequence] (s1\<lparr>state := sessionStateAborted\<rparr>))"
    using assms a err by (auto simp: finish_mail_def s1_def Let_def split: sessionState.splits if_splits)
  have "quiet s s1" by (simp add: s1_def)
  then show "quiet s s'"
    unfolding s' by (auto split: sessionState.split)
  assume fresh: "fresh_mail srv s"
    and sender: "\<And>a. MailFrom (envelope s) = Some a \<Longrightarrow> SenderChecker srv \<noteq> None \<Longrightarrow> \<exists>cs0 q. calls s = cs0 @ [CallSender q a None]"
  have fresh1: "fresh_mail srv s1"
    using fresh unfolding s1_def by (intro fresh_mail_ask) auto
  have "session_inv srv (s1\<lparr>state := sessionStateGotMail\<rparr>)" if "err = []"
    using fresh1 tx_log_start [of srv "calls s" a] sender [OF a] that
    by (auto simp: session_inv_def fresh_mail_def mail_ok_def s1_def)
  moreover have "session_inv srv (s1\<lparr>state := sessionStateAborted\<rparr>)"
    using inv_abort [OF fresh_mail_inv [OF fresh1]] by (simp add: abort_def)
  ultimately show "session_inv srv s'"
    using fresh fresh_mail_inv [OF fresh1] unfolding s' fresh_mail_def
    by (auto intro: inv_Out)
qed

lemma finish_mail_state:
  assumes "finish_mail E s = Inr s'"
  shows "envelope s' = envelope s"
    and "state s = sessionStateInit \<or> state s = sessionStateAborted \<Longrightarrow>
      state s' \<in> {sessionStateInit, sessionStateGotMail, sessionStateAborted}"
proof -
  obtain s1 m where s1: "s' = Out m s1" "envelope s1 = envelope s"
    "state s = sessionStateInit \<or> state s = sessionStateAborted \<Longrightarrow>
      state s1 \<in> {sessionStateInit, sessionStateGotMail, sessionStateAborted}"
    using assms that
    by (auto simp: finish_mail_def go_bind_Inr_conv Let_def split: if_splits sessionState.splits)
  then show "envelope s' = envelope s" by simp
  show "state s' \<in> {sessionStateInit, sessionStateGotMail, sessionStateAborted}"
    if "state s = sessionStateInit \<or> state s = sessionStateAborted"
    using s1(3) [OF that] Out_state [of m s1] unfolding s1(1) by auto
qed

text \<open>MAIL either answers after the reset, or gets as far as the checks on the sender.\<close>

lemma handleMail_cases:
  assumes "handleMail E srv cmd s = Inr s'"
  obtains (refused) m where "s' = Out m (Reset s)"
  | (sender) a where "auth_ok srv (peer s)" "TLSOnly srv \<longrightarrow> tls s" "check_sender srv a (Reset s) = Inl s'"
  | (exts) a s1 args where "auth_ok srv (peer s)" "TLSOnly srv \<longrightarrow> tls s" "check_sender srv a (Reset s) = Inr s1"
      "mail_exts E args (s1\<lparr>envelope := (envelope s1)\<lparr>MailFrom := Some a\<rparr>\<rparr>) = Inl s'" "args = tl (arguments cmd)"
  | (checked) a s1 args s2 where "auth_ok srv (peer s)" "TLSOnly srv \<longrightarrow> tls s" "check_sender srv a (Reset s) = Inr s1"
      "mail_exts E args (s1\<lparr>envelope := (envelope s1)\<lparr>MailFrom := Some a\<rparr>\<rparr>) = Inr s2"
      "finish_mail E s2 = Inr s'" "args = tl (arguments cmd)"
  using assms
  by (auto simp: handleMail_def Let_def auth_ok_def split: if_splits list.splits sum.splits)

lemma quiet_from [simp]:
  "quiet (Reset s) s' \<longleftrightarrow> quiet s s'" "quiet (s\<lparr>envelope := e\<rparr>) s' \<longleftrightarrow> quiet s s'"
  by (auto simp: quiet_def evolves_def)

lemma handleMail_quiet:
  assumes "handleMail E srv cmd s = Inr s'"
  shows "quiet s s'"
  using assms
proof (cases rule: handleMail_cases)
  case (refused m)
  then show ?thesis by simp
next
  case (sender a)
  then show ?thesis using check_sender_ok(1) [of "Reset s" srv a] by simp
next
  case (exts a s1 args)
  then show ?thesis
    using check_sender_ok(1) [of "Reset s" srv a]
      mail_exts_ok [of "s1\<lparr>envelope := (envelope s1)\<lparr>MailFrom := Some a\<rparr>\<rparr>" srv E args]
    by (auto intro: quiet_trans)
next
  case (checked a s1 args s2)
  then show ?thesis
    using check_sender_ok(1) [of "Reset s" srv a] finish_mail_ok(1) [OF checked(5)]
      mail_exts_ok [of "s1\<lparr>envelope := (envelope s1)\<lparr>MailFrom := Some a\<rparr>\<rparr>" srv E args]
    by (auto intro: quiet_trans)
qed

lemma handleMail_inv:
  assumes inv: "session_inv srv s" and "handleMail E srv cmd s = Inr s'"
  shows "session_inv srv s'"
  using assms(2)
proof (cases rule: handleMail_cases)
  case (refused m)
  then show ?thesis using inv by (auto intro: inv_intros)
next
  case (sender a)
  then show ?thesis
    using fresh_mail_Reset [OF inv sender(1,2)] check_sender_ok(1) [of "Reset s" srv a]
    by (auto intro: fresh_mail_inv)
next
  case (exts a s1 args)
  then have "fresh_mail srv s1"
    using fresh_mail_Reset [OF inv exts(1,2)] check_sender_ok(1) [of "Reset s" srv a] by simp
  from fresh_mail_fields(2) [OF this, of "Some a"] show ?thesis
    using exts(4) mail_exts_ok [of "s1\<lparr>envelope := (envelope s1)\<lparr>MailFrom := Some a\<rparr>\<rparr>" srv E args]
    by (auto intro: fresh_mail_inv)
next
  case (checked a s1 args s2)
  let ?s1 = "s1\<lparr>envelope := (envelope s1)\<lparr>MailFrom := Some a\<rparr>\<rparr>"
  have "fresh_mail srv s1"
    using checked(3) fresh_mail_Reset [OF inv checked(1,2)] check_sender_ok(1) [of "Reset s" srv a] by simp
  then have "fresh_mail srv s2" "quiet ?s1 s2"
    using fresh_mail_fields(2) [of srv s1 "Some a"] checked(4) mail_exts_ok [of ?s1 srv E args] by auto
  moreover have "\<exists>cs0 q. calls s2 = cs0 @ [CallSender q b None]"
    if "MailFrom (envelope s2) = Some b" "SenderChecker srv \<noteq> None" for b
    using check_sender_ok(2) [OF checked(3) that(2)] mail_exts_frame [OF checked(4)] that(1) by auto
  ultimately show ?thesis using finish_mail_ok(2) [OF checked(5)] by blast
qed

interpretation mail: session_handler handleMail
  by unfold_locales (auto dest: handleMail_inv handleMail_quiet simp: quiet_def counts_def)

section \<open>The contract of RCPT\<close>

text \<open>
  The address argument itself goes through the parameter loop. It begins with \<open>TO:\<close>, so its
  part before the \<open>=\<close> is never \<open>RRVS\<close>: a recipient is stored only after the sender
  has been cleared.
\<close>

lemma takeWhile_first_of_two:
  "c \<in> set s \<Longrightarrow> d \<in> set s \<Longrightarrow> c \<noteq> d \<Longrightarrow>
   c \<in> set (takeWhile (\<lambda>x. x \<noteq> d) s) \<or> d \<in> set (takeWhile (\<lambda>x. x \<noteq> c) s)"
  by (induction s) auto

lemma Split_first: "Split c s ! 0 = takeWhile (\<lambda>x. x \<noteq> c) s"
  using hd_Split [of c s] by (simp add: hd_conv_nth)

lemma Split_sep_mem: "2 \<le> length (Split c s) \<Longrightarrow> c \<in> set s"
  by (cases "c \<in> set s") (auto simp: Split_no_sep)

lemma rcpt_arg_not_RRVS:
  assumes "2 \<le> length (Split CHR '':'' a)" and "ToUpper U (TrimSpace (Split CHR '':'' a ! 0)) = ''TO''"
    and "length (Split CHR ''='' a) = 2"
  shows "ToUpper U (Split CHR ''='' a ! 0) \<noteq> ''RRVS''"
proof -
  have "CHR '':'' \<in> set a" "CHR ''='' \<in> set a"
    using assms(1,3) by (auto intro: Split_sep_mem)
  from takeWhile_first_of_two [OF this]
  consider "CHR '':'' \<in> set (Split CHR ''='' a ! 0)" | "CHR ''='' \<in> set (Split CHR '':'' a ! 0)"
    by (auto simp: Split_first)
  then show ?thesis
  proof cases
    case 1
    from ToUpper_keeps [OF this, of U] show ?thesis by auto
  next
    case 2
    have "CHR ''='' \<in> set (TrimSpace (Split CHR '':'' a ! 0))"
      using 2 by (intro TrimSpace_keeps) (simp_all add: graphic_def)
    from ToUpper_keeps [OF this, of U] show ?thesis by (simp add: assms(2))
  qed
qed

text \<open>What a parameter of RCPT does.\<close>

definition rcpt_step :: "Server \<Rightarrow> session \<Rightarrow> session \<Rightarrow> bool" where
  "rcpt_step srv s s' \<longleftrightarrow>
     quiet s s' \<and> (session_inv srv s \<longrightarrow> session_inv srv s') \<and> calls s' = calls s \<and>
     helloSeen s' = helloSeen s \<and> MailTo (envelope s') = MailTo (envelope s) \<and>
     (MailFrom (envelope s) = None \<longrightarrow> MailFrom (envelope s') = None)"

lemma rcpt_step_refl [simp]: "rcpt_step srv s s"
  by (simp add: rcpt_step_def)

lemma rcpt_step_trans: "rcpt_step srv s s' \<Longrightarrow> rcpt_step srv s' s'' \<Longrightarrow> rcpt_step srv s s''"
  by (auto simp: rcpt_step_def intro: quiet_trans)

lemma inv_clear_sender:
  "session_inv srv s \<Longrightarrow> session_inv srv (s\<lparr>envelope := (envelope s)\<lparr>MailFrom := None\<rparr>\<rparr>)"
  by (simp add: session_inv_def rcpts_ok_def)

lemma rcpt_ext_ok: "either (rcpt_step srv s) (rcpt_ext E ext s)"
  using inv_clear_sender [OF inv_Out, of srv s "[''555'']"] inv_Out [of srv s]
  by (auto simp: rcpt_ext_def rcpt_step_def Let_def)

lemma rcpt_exts_ok: "either (rcpt_step srv s) (rcpt_exts E args s)"
proof (induction args arbitrary: s)
  case Nil
  then show ?case by simp
next
  case (Cons ext args)
  show ?case
  proof (cases "rcpt_ext E ext s")
    case (Inl s1)
    with rcpt_ext_ok [of srv s E ext] show ?thesis by simp
  next
    case (Inr s1)
    with rcpt_ext_ok [of srv s E ext] Cons [of s1] show ?thesis
      by (auto simp: either_def split: sum.splits intro: rcpt_step_trans)
  qed
qed

lemma rcpt_exts_clears:
  assumes "rcpt_exts E (a # args) s = Inr s'" and "ToUpper (unicode_ToUpper E) (Split CHR ''='' a ! 0) \<noteq> ''RRVS''"
  shows "MailFrom (envelope s') = None"
proof -
  obtain s1 where s1: "rcpt_ext E a s = Inr s1" "rcpt_exts E args s1 = Inr s'"
    using assms(1) by (auto split: sum.splits)
  then have "MailFrom (envelope s1) = None"
    using assms(2) by (auto simp: rcpt_ext_def Let_def split: if_splits)
  then show ?thesis
    using rcpt_exts_ok [of srv s1 E args] s1 by (auto simp: rcpt_step_def)
qed

lemma finish_rcpt_quiet: "quiet s s' \<Longrightarrow> quiet s (finish_rcpt a s')"
  by (auto simp: finish_rcpt_def AddRecipient_def Let_def split: sessionState.split)

lemma finish_rcpt_inv:
  assumes "session_inv srv s" and "MailFrom (envelope s) = None" and "helloSeen s"
    and "auth_ok srv (peer s)" and "length (MailTo (envelope s)) \<le> 200"
    and "calls s = cs @ [CallRcpt q a None]"
  shows "session_inv srv (finish_rcpt a s)"
proof -
  define e where "e = (envelope s)\<lparr>MailTo := MailTo (envelope s) @ [a]\<rparr>"
  have add: "session_inv srv (s\<lparr>envelope := e, state := st\<rparr>)"
    if "phase_ok srv st (MailTo e) (peer s) (tls s) (calls s)" for st
    using assms that by (simp add: session_inv_def rcpts_ok_def e_def)
  have same: "s\<lparr>envelope := e, state := state s\<rparr> = s\<lparr>envelope := e\<rparr>" by simp
  have "phase_ok srv (state s) (MailTo (envelope s)) (peer s) (tls s) (calls s)"
    using assms(1) by (simp add: session_inv_def)
  moreover have "tx_log srv (MailTo (envelope s)) (calls s) \<Longrightarrow> tx_log srv (MailTo e) (calls s)"
    using tx_log_rcpt by (simp add: assms(6) e_def)
  moreover have "MailTo e \<noteq> []" by (simp add: e_def)
  moreover have "AddRecipient a (envelope s) = (None, e)"
    by (simp add: AddRecipient_def e_def)
  ultimately show ?thesis
    using add add [of "state s", unfolded same]
    by (cases "state s") (auto simp: finish_rcpt_def mail_ok_def intro!: inv_Out)
qed

text \<open>RCPT either answers, or the checker and the parameters have passed.\<close>

lemma check_recipient_cases:
  assumes "check_recipient srv a s = Inr r"
  obtains (refused) m err where "RecipientChecker srv \<noteq> None" "r = Inl (Out m (ask (CallRcpt (peer s) a (Some err)) s))"
  | (accepted) "RecipientChecker srv \<noteq> None" "r = Inr (ask (CallRcpt (peer s) a None) s)"
  using assms by (auto simp: check_recipient_def Let_def split: option.splits go_error.splits)

lemma handleRcpt_cases:
  assumes "handleRcpt E srv cmd s = Inr s'"
  obtains (refused) m where "s' = Out m s"
  | (checker) a m err where "auth_ok srv (peer s) \<and> RecipientChecker srv \<noteq> None" "s' = Out m (ask (CallRcpt (peer s) a (Some err)) s)"
  | (exts) a args where "auth_ok srv (peer s) \<and> RecipientChecker srv \<noteq> None" "rcpt_exts E args (ask (CallRcpt (peer s) a None) s) = Inl s'"
  | (stored) arg args a s1 where "auth_ok srv (peer s) \<and> RecipientChecker srv \<noteq> None" "helloSeen s" "length (MailTo (envelope s)) \<le> 200"
      "arguments cmd = arg # args"
      "rcpt_exts E (arg # args) (ask (CallRcpt (peer s) a None) s) = Inr s1"
      "MailFrom (envelope s1) = None" "s' = finish_rcpt a s1"
proof (cases "arguments cmd")
  case Nil
  with assms that(1) show thesis by (auto simp: handleRcpt_def Let_def split: if_splits)
next
  case (Cons arg args)
  show thesis
  proof (cases "\<exists>m. s' = Out m s")
    case True
    with that(1) show thesis by blast
  next
    case False
    then obtain a where ok: "auth_ok srv (peer s)" "helloSeen s" "length (MailTo (envelope s)) \<le> 200"
      and acc: "accept_rcpt E srv (arg # args) a s = Inr s'"
      and arg: "2 \<le> length (Split CHR '':'' arg)"
        "ToUpper (unicode_ToUpper E) (TrimSpace (Split CHR '':'' arg ! 0)) = ''TO''"
      using assms Cons
      by (auto simp: handleRcpt_def Let_def auth_ok_def DefaultLimits_def split: if_splits sum.splits)
    from acc obtain r where r: "check_recipient srv a s = Inr r"
        "(case r of Inl s1 \<Rightarrow> Inr s1 | Inr s1 \<Rightarrow>
           (case rcpt_exts E (arg # args) s1 of Inl s2 \<Rightarrow> Inr s2 | Inr s2 \<Rightarrow> Inr (finish_rcpt a s2))) = (Inr s' :: session go)"
      by (auto simp: accept_rcpt_def go_bind_Inr_conv simp del: rcpt_exts.simps)
    from r(1) show thesis
    proof (cases rule: check_recipient_cases)
      case (refused m err)
      with r(2) ok that(2) show thesis by auto
    next
      case accepted
      show thesis
      proof (cases "rcpt_exts E (arg # args) (ask (CallRcpt (peer s) a None) s)")
        case (Inl s2)
        with accepted r(2) ok that(3) show thesis by (auto simp del: rcpt_exts.simps)
      next
        case (Inr s2)
        then have "length (Split CHR ''='' arg) = 2"
          by (auto simp: rcpt_ext_def Let_def split: if_splits sum.splits)
        then have "MailFrom (envelope s2) = None"
          using rcpt_exts_clears [OF Inr] rcpt_arg_not_RRVS [OF arg] by blast
        with Inr accepted r(2) ok Cons that(4) show thesis by (auto simp del: rcpt_exts.simps)
      qed
    qed
  qed
qed

lemma handleRcpt_quiet:
  assumes "handleRcpt E srv cmd s = Inr s'"
  shows "quiet s s'"
  using assms
proof (cases rule: handleRcpt_cases)
  case (exts a args)
  then show ?thesis
    using rcpt_exts_ok [of srv "ask (CallRcpt (peer s) a None) s" E args]
    by (auto simp: rcpt_step_def intro: quiet_trans [of s "ask (CallRcpt (peer s) a None) s"])
next
  case (stored arg args a s1)
  then show ?thesis
    using rcpt_exts_ok [of srv "ask (CallRcpt (peer s) a None) s" E "arg # args"]
    by (auto simp: rcpt_step_def simp del: rcpt_exts.simps
        intro: finish_rcpt_quiet quiet_trans [of s "ask (CallRcpt (peer s) a None) s"])
qed auto

lemma handleRcpt_inv:
  assumes inv: "session_inv srv s" and "handleRcpt E srv cmd s = Inr s'"
  shows "session_inv srv s'"
  using assms(2)
proof (cases rule: handleRcpt_cases)
  case (refused m)
  with inv show ?thesis by (auto intro: inv_intros)
next
  case (checker a m err)
  with inv show ?thesis by (auto intro!: inv_Out inv_ask)
next
  case (exts a args)
  then have "session_inv srv (ask (CallRcpt (peer s) a None) s)" using inv by (auto intro!: inv_ask)
  then show ?thesis
    using rcpt_exts_ok [of srv "ask (CallRcpt (peer s) a None) s" E args] exts by (simp add: rcpt_step_def)
next
  case (stored arg args a s1)
  then have "session_inv srv (ask (CallRcpt (peer s) a None) s)" using inv by (auto intro!: inv_ask)
  moreover have "rcpt_step srv (ask (CallRcpt (peer s) a None) s) s1"
    using rcpt_exts_ok [of srv "ask (CallRcpt (peer s) a None) s" E "arg # args"] stored(5)
    by (simp del: rcpt_exts.simps)
  ultimately show ?thesis
    using stored unfolding rcpt_step_def quiet_def by (auto intro!: finish_rcpt_inv)
qed

interpretation rcpt: session_handler handleRcpt
  by unfold_locales (auto dest: handleRcpt_inv handleRcpt_quiet simp: quiet_def counts_def)

section \<open>Properties of MAIL and RCPT\<close>

text \<open>
  MAIL always starts from an empty transaction: when it returns, whatever it answered, there
  is no recipient, and the state is the one of a fresh session or of an accepted MAIL, or the
  session is aborted.
\<close>

lemma handleMail_fresh:
  assumes "session_inv srv s" and "handleMail E srv cmd s = Inr s'"
  shows "MailTo (envelope s') = [] \<and> state s' \<in> {sessionStateInit, sessionStateGotMail, sessionStateAborted}"
  using assms(2)
proof (cases rule: handleMail_cases)
  case (refused m)
  then show ?thesis using Out_state [of m "Reset s"] by (auto simp: Envelope_Reset_eq)
next
  case (sender a)
  then show ?thesis
    using fresh_mail_Reset [OF assms(1) sender(1,2)] check_sender_ok(1) [of "Reset s" srv a]
    by (auto simp: fresh_mail_def)
next
  case (exts a s1 args)
  then have "fresh_mail srv s1"
    using fresh_mail_Reset [OF assms(1) exts(1,2)] check_sender_ok(1) [of "Reset s" srv a] by simp
  from fresh_mail_fields(2) [OF this, of "Some a"] show ?thesis
    using exts(4) mail_exts_ok [of "s1\<lparr>envelope := (envelope s1)\<lparr>MailFrom := Some a\<rparr>\<rparr>" srv E args]
    by (auto simp: fresh_mail_def)
next
  case (checked a s1 args s2)
  have "fresh_mail srv s1"
    using checked(3) fresh_mail_Reset [OF assms(1) checked(1,2)] check_sender_ok(1) [of "Reset s" srv a] by simp
  then have "fresh_mail srv s2"
    using fresh_mail_fields(2) [of srv s1 "Some a"] checked(4)
      mail_exts_ok [of "s1\<lparr>envelope := (envelope s1)\<lparr>MailFrom := Some a\<rparr>\<rparr>" srv E args] by auto
  then show ?thesis
    using finish_mail_state [OF checked(5)] by (auto simp: fresh_mail_def)
qed

lemma rcpt_exts_equals:
  "rcpt_exts E args s = Inr s' \<Longrightarrow> \<forall>a \<in> set args. count_list a CHR ''='' = 1"
proof (induction args arbitrary: s)
  case Nil
  then show ?case by simp
next
  case (Cons a args)
  then obtain s1 where s1: "rcpt_ext E a s = Inr s1" "rcpt_exts E args s1 = Inr s'"
    by (auto split: sum.splits)
  then have "length (Split CHR ''='' a) = 2"
    by (auto simp: rcpt_ext_def Let_def split: if_splits)
  with Cons.IH [OF s1(2)] show ?case by (simp add: length_Split)
qed

text \<open>
  RCPT stores a recipient only if every one of its arguments, the address included,
  contains exactly one equals sign; it stores exactly the address the checker has just
  accepted, at the end of the list, and the sender of the transaction is gone afterwards.
\<close>

lemma rcpt_stores_only_equals:
  assumes "handleRcpt E srv cmd s = Inr s'" and "MailTo (envelope s') \<noteq> MailTo (envelope s)"
  shows "(\<forall>a \<in> set (arguments cmd). count_list a CHR ''='' = 1) \<and> MailFrom (envelope s') = None \<and>
    (\<exists>r. MailTo (envelope s') = MailTo (envelope s) @ [r] \<and> calls s' = calls s @ [CallRcpt (peer s) r None])"
  using assms(1)
proof (cases rule: handleRcpt_cases)
  case (exts a args)
  with rcpt_exts_ok [of srv "ask (CallRcpt (peer s) a None) s" E args] assms(2) show ?thesis
    by (simp add: rcpt_step_def)
next
  case (stored arg args a s1)
  have "rcpt_step srv (ask (CallRcpt (peer s) a None) s) s1"
    using rcpt_exts_ok [of srv "ask (CallRcpt (peer s) a None) s" E "arg # args"] stored(5)
    by (simp del: rcpt_exts.simps)
  then have "MailTo (envelope s1) = MailTo (envelope s)" "calls s1 = calls s @ [CallRcpt (peer s) a None]"
    by (simp_all add: rcpt_step_def)
  moreover have "envelope (finish_rcpt a s1) = (envelope s1)\<lparr>MailTo := MailTo (envelope s1) @ [a]\<rparr>"
    "calls (finish_rcpt a s1) = calls s1"
    by (simp_all add: finish_rcpt_def AddRecipient_def Let_def split: sessionState.split)
  ultimately show ?thesis
    using rcpt_exts_equals [OF stored(5)] stored(4,6,7) by simp
qed (use assms(2) in simp_all)

text \<open>What RCPT has checked when it stores a recipient.\<close>

lemma finish_rcpt_state:
  "state (finish_rcpt r s) = sessionStateAborted \<or>
   state (finish_rcpt r s) =
     (if state s = sessionStateInit then sessionStateGotRcpt
      else if state s = sessionStateGotMail then sessionStateReadyForData else state s) \<and>
   state s \<in> {sessionStateInit, sessionStateGotMail, sessionStateGotRcpt, sessionStateReadyForData}"
proof -
  have "state (Out m (s\<lparr>envelope := e, state := st\<rparr>)) \<in> {st, sessionStateAborted}"
    "state (Out m (s\<lparr>envelope := e\<rparr>)) \<in> {state s, sessionStateAborted}" for m e st
    using Out_state [of m "s\<lparr>envelope := e, state := st\<rparr>"] Out_state [of m "s\<lparr>envelope := e\<rparr>"] by auto
  then show ?thesis
    by (cases "state s") (simp add: finish_rcpt_def AddRecipient_def Let_def; blast)+
qed

lemma rcpt_exts_state:
  "rcpt_exts E args s = Inr s' \<Longrightarrow> state s' = state s \<or> state s' = sessionStateAborted"
proof (induction args arbitrary: s)
  case (Cons ext args)
  then obtain s1 where s1: "rcpt_ext E ext s = Inr s1" "rcpt_exts E args s1 = Inr s'"
    by (auto split: sum.splits)
  then have "state s1 = state s \<or> state s1 = sessionStateAborted"
    using Out_state [of "[''555'']" s] by (auto simp: rcpt_ext_def Let_def split: if_splits)
  with Cons.IH [OF s1(2)] show ?case by auto
qed simp

text \<open>
  C17: A recipient is stored only by a RCPT command that passed every check: after a greeting,
  authenticated if authentication is configured, with at most 200 recipients stored before,
  with an argument \<open>TO:addr\<close> whose address parses (postmaster stands for the postmaster of
  the server), and accepted just now by the recipient checker. Exactly the parsed address is
  stored, at the end of the list, nobody else is asked, and the state advances from the
  initial state to the one after RCPT, from the one after MAIL to ready for data, and stays
  otherwise, unless the session is aborted.
\<close>

theorem rcpt_stores_accepted:
  assumes "handleRcpt E srv cmd s = Inr s'" and "MailTo (envelope s') \<noteq> MailTo (envelope s)"
  shows "helloSeen s \<and> (authMechanisms srv \<noteq> [] \<longrightarrow> Authenticated (peer s)) \<and> length (MailTo (envelope s)) \<le> 200 \<and>
    (\<exists>arg args to p ps addr r f.
      arguments cmd = arg # args \<and> Split CHR '':'' arg = to # p # ps \<and>
      ToUpper (unicode_ToUpper E) (TrimSpace to) = ''TO'' \<and>
      addr = (if ToLower (unicode_ToLower E) p = ''<postmaster>'' then ''<postmaster@'' @ ServerName (peer s) @ ''>'' else p) \<and>
      ParseAddress E addr = Inr r \<and> RecipientChecker srv = Some f \<and> f (calls s) (peer s) r = None \<and>
      MailTo (envelope s') = MailTo (envelope s) @ [r] \<and> calls s' = calls s @ [CallRcpt (peer s) r None]) \<and>
    (state s' = sessionStateAborted \<or>
     state s' = (if state s = sessionStateInit then sessionStateGotRcpt
       else if state s = sessionStateGotMail then sessionStateReadyForData else state s))"
proof -
  have new: "s' \<noteq> Out m s" for m using assms(2) by auto
  obtain arg args where args: "arguments cmd = arg # args"
    using assms(1) new by (cases "arguments cmd") (auto simp: handleRcpt_def Let_def split: if_splits)
  define addr where "addr = (if ToLower (unicode_ToLower E) (Split CHR '':'' arg ! 1) = ''<postmaster>''
    then ''<postmaster@'' @ ServerName (peer s) @ ''>'' else Split CHR '':'' arg ! 1)"
  obtain r where ok: "authMechanisms srv \<noteq> [] \<longrightarrow> Authenticated (peer s)" "helloSeen s" "length (MailTo (envelope s)) \<le> 200"
      "2 \<le> length (Split CHR '':'' arg)" "ToUpper (unicode_ToUpper E) (TrimSpace (Split CHR '':'' arg ! 0)) = ''TO''"
      "ParseAddress E addr = Inr r"
    and acc: "accept_rcpt E srv (arg # args) r s = Inr s'"
    using assms(1) new args
    by (auto simp: handleRcpt_def Let_def DefaultLimits_def addr_def split: if_splits sum.splits)
  obtain to p ps where sp: "Split CHR '':'' arg = to # p # ps"
    using ok(4) by (cases "Split CHR '':'' arg" rule: list.exhaust [case_product list.exhaust]) (auto simp: Suc_le_length_iff numeral_2_eq_2)
  let ?s = "ask (CallRcpt (peer s) r None) s"
  obtain f s1 where f: "RecipientChecker srv = Some f" "f (calls s) (peer s) r = None"
    and s1: "rcpt_exts E (arg # args) ?s = Inr s1" "s' = finish_rcpt r s1"
    using acc assms(2) rcpt_exts_ok [of srv ?s E "arg # args"]
    by (auto simp: accept_rcpt_def check_recipient_def Let_def rcpt_step_def simp del: rcpt_exts.simps
        split: option.splits go_error.splits sum.splits)
  have st: "state s1 = state s \<or> state s1 = sessionStateAborted"
    using rcpt_exts_state [OF s1(1)] by simp
  have "calls s1 = calls s @ [CallRcpt (peer s) r None]" "MailTo (envelope s1) = MailTo (envelope s)"
    using rcpt_exts_ok [of srv ?s E "arg # args"] s1(1) by (auto simp: rcpt_step_def simp del: rcpt_exts.simps)
  then have "calls s' = calls s @ [CallRcpt (peer s) r None]" "MailTo (envelope s') = MailTo (envelope s) @ [r]"
    by (simp_all add: s1(2) finish_rcpt_def AddRecipient_def Let_def split: sessionState.split)
  moreover have "state s' = sessionStateAborted \<or>
     state s' = (if state s = sessionStateInit then sessionStateGotRcpt
       else if state s = sessionStateGotMail then sessionStateReadyForData else state s)"
    using finish_rcpt_state [of r s1] st unfolding s1(2) by auto
  ultimately show ?thesis
    using ok args sp f by (auto simp: addr_def)
qed

section \<open>The parameters of MAIL\<close>

text \<open>The parameters that do not end the command, and the ones the code does not know.\<close>

definition param_passes :: "env \<Rightarrow> string \<Rightarrow> bool" where
  "param_passes E ext \<longleftrightarrow>
     (\<exists>k v. Split CHR ''='' ext = [k, v] \<and>
       (ToUpper (unicode_ToUpper E) k = ''SIZE'' \<longrightarrow> (\<exists>n. ParseInt v = Some n \<and> n \<le> MsgSize DefaultLimits)) \<and>
       (ToUpper (unicode_ToUpper E) k = ''MT-PRIORITY'' \<longrightarrow> (\<exists>n. ParseInt v = Some n \<and> priority_ok n)))"

definition unknown_param :: "env \<Rightarrow> string \<Rightarrow> bool" where
  "unknown_param E ext \<longleftrightarrow>
     length (Split CHR ''='' ext) = 2 \<and>
     ToUpper (unicode_ToUpper E) (Split CHR ''='' ext ! 0) \<notin> {''SIZE'', ''BODY'', ''ALT-ADDRESS'', ''AUTH'', ''MT-PRIORITY''}"

lemma mail_ext_passes: "(\<exists>s'. mail_ext E ext s = Inr s') \<longleftrightarrow> param_passes E ext"
proof (cases "length (Split CHR ''='' ext) = 2")
  case True
  then obtain k v where "Split CHR ''='' ext = [k, v]"
    by (auto simp: length_Suc_conv numeral_2_eq_2)
  then show ?thesis
    by (auto simp: mail_ext_def param_passes_def priority_ok_def Let_def split: option.split)
next
  case False
  then show ?thesis by (auto simp: mail_ext_def param_passes_def)
qed

lemma mail_exts_pass: "(\<exists>s'. mail_exts E args s = Inr s') \<longleftrightarrow> list_all (param_passes E) args"
proof (induction args arbitrary: s)
  case (Cons ext args)
  show ?case
  proof (cases "mail_ext E ext s")
    case (Inl s1)
    with mail_ext_passes [of E ext s] show ?thesis by simp
  next
    case (Inr s1)
    with mail_ext_passes [of E ext s] Cons [of s1] show ?thesis by auto
  qed
qed simp

lemma mail_ext_sender:
  "mail_ext E ext s = Inr s' \<Longrightarrow>
   MailFrom (envelope s') = (if unknown_param E ext then None else MailFrom (envelope s))"
  by (auto simp: mail_ext_def unknown_param_def Let_def split: if_splits option.splits)

lemma mail_exts_sender:
  "mail_exts E args s = Inr s' \<Longrightarrow>
   MailFrom (envelope s') = (if list_ex (unknown_param E) args then None else MailFrom (envelope s))"
proof (induction args arbitrary: s)
  case (Cons ext args)
  then obtain s1 where "mail_ext E ext s = Inr s1" "mail_exts E args s1 = Inr s'"
    by (auto split: sum.splits)
  with Cons.IH [of s1] mail_ext_sender [of E ext s s1] show ?case by simp
qed simp

text \<open>An accepted MAIL has only parameters that pass.\<close>

lemma handleMail_accepted:
  assumes "session_inv srv s" and "handleMail E srv cmd s = Inr s'" and "state s' = sessionStateGotMail"
  shows "list_all (param_passes E) (tl (arguments cmd))"
proof -
  have frozen: "state s' \<noteq> sessionStateGotMail" if "fresh_mail srv s'"
    using that by (auto simp: fresh_mail_def)
  show ?thesis
    using assms(2)
  proof (cases rule: handleMail_cases)
    case (refused m)
    with assms(3) Out_state [of m "Reset s"] show ?thesis by auto
  next
    case (sender a)
    then show ?thesis
      using assms(3) frozen fresh_mail_Reset [OF assms(1) sender(1,2)] check_sender_ok(1) [of "Reset s" srv a] by simp
  next
    case (exts a s1 args)
    then have "fresh_mail srv s1"
      using fresh_mail_Reset [OF assms(1) exts(1,2)] check_sender_ok(1) [of "Reset s" srv a] by simp
    from fresh_mail_fields(2) [OF this, of "Some a"] show ?thesis
      using assms(3) frozen exts(4) mail_exts_ok [of "s1\<lparr>envelope := (envelope s1)\<lparr>MailFrom := Some a\<rparr>\<rparr>" srv E args]
      by simp
  next
    case (checked a s1 args s2)
    then show ?thesis using mail_exts_pass [of E args "s1\<lparr>envelope := (envelope s1)\<lparr>MailFrom := Some a\<rparr>\<rparr>"] by auto
  qed
qed

end
