(* ===== verification/Data.thy ===== *)
theory Data
  imports Policy
begin

text \<open>
  The message handlers of \<open>session.go\<close>: DATA with its read loop, the trace header and
  the call of the delivery function, and BDAT. The read loop is a total function: every round
  consumes input. BDAT allocates a slice of the announced size, which panics when the size is
  negative or larger than the run-time system allows.
\<close>

section \<open>The trace header\<close>

text \<open>A reverse lookup that succeeds with an empty slice is an index out of range.\<close>

definition reverse_name :: "env \<Rightarrow> string \<Rightarrow> session \<Rightarrow> (string \<times> session) go" where
  "reverse_name E ip s =
     (let s1 = ask (CallLookupAddr ip) s
      in case LookupAddr E (calls s) ip of
          Inl err \<Rightarrow> Inr (''no reverse'', s1)
        | Inr hosts \<Rightarrow> go_bind (go_nth hosts 0) (\<lambda>h. Inr (h, s1)))"

definition received_text ::
  "env \<Rightarrow> session \<Rightarrow> string \<Rightarrow> string \<Rightarrow> string \<Rightarrow> string \<Rightarrow> string \<Rightarrow> string" where
  "received_text E s remoteHost remoteIP remotePort localIP localHost =
     (let auth = (if Authenticated (peer s) then '' authenticated as '' @ Username (peer s) else [])
      in ''Received: from ''
         @ remoteHost @ '' ('' @ remoteIP @ '':'' @ remotePort @ '' '' @ auth @ '')''
         @ (if tls s
            then tlsInfo (VersionFromConnection E) (CipherSuiteFromConnection E) (tlsState s)
            else [])
         @ '' by '' @ localIP @ '' ('' @ localHost @ '')''
         @ (if tls s then '' with ESMTPS; '' else '' with SMTP; '')
         @ ''gomstp(0.0.1); id '' @ sid s
         @ ''; '' @ now_RFC1123 E (calls s) @ CRLF)"

definition ReceivedHeader :: "env \<Rightarrow> session \<Rightarrow> (string \<times> session) go" where
  "ReceivedHeader E s =
     go_bind (go_nth (Split CHR '':'' (remote_addr s)) 0) (\<lambda>remoteIP.
     go_bind (go_nth (Split CHR '':'' (remote_addr s)) 1) (\<lambda>remotePort.
     go_bind (reverse_name E remoteIP s) (\<lambda>(remoteHost, s1).
     go_bind (go_nth (Split CHR '':'' (local_addr s1)) 0) (\<lambda>localIP.
     go_bind (reverse_name E localIP s1) (\<lambda>(localHost, s2).
       Inr (wrap (received_text E s2 remoteHost remoteIP remotePort localIP localHost), s2))))))"

section \<open>DATA\<close>

text \<open>
  The read loop. \<open>Inl\<close> when the handler has returned (a read error), \<open>Inr\<close> the size
  counted so far when the loop ended, by the final dot or by the limit.
\<close>

function data_loop :: "int \<Rightarrow> int \<Rightarrow> session \<Rightarrow> (session + (int \<times> session)) go" where
  "data_loop limit sz s =
     (if sz < limit then
        (case ReadString (io s) of
           (Inl err, b) \<Rightarrow>
             Inr (Inl (abort (Out [Sprintf_extra (Codes FailReadErrorDataCmd) (Some err)] (s\<lparr>io := b\<rparr>))))
         | (Inr l, b) \<Rightarrow>
             let line = TrimSpace l
             in if line = ''.'' then Inr (Inr (sz, s\<lparr>io := b\<rparr>))
                else go_bind (Envelope_WriteString line (envelope s)) (\<lambda>(n1, e1).
                     go_bind (Envelope_Write CRLF e1) (\<lambda>(n2, e2).
                       data_loop limit (int64 (sz + int (length line))) (s\<lparr>io := b, envelope := e2\<rparr>))))
      else Inr (Inr (sz, s)))"
  by pat_completeness auto
termination
  by (relation "measure (\<lambda>(limit, sz, s). input_size (io s))") (auto dest: ReadString_progress [OF sym])

declare data_loop.simps [simp del]

text \<open>The end of DATA: the new headers, the call of the delivery function, the reset.\<close>

definition stamp :: "env \<Rightarrow> string \<Rightarrow> session \<Rightarrow> session" where
  "stamp E received s =
     (let s1 = s\<lparr>envelope := set_header ''Received'' received (envelope s)\<rparr>
      in if Authenticated (peer s1)
         then s1\<lparr>envelope := set_header ''Message-ID''
                (''Message-ID: <'' @ itoa (now_Unix E (calls s1)) @ ''.'' @ sid s1 @ ''@''
                 @ ServerName (peer s1) @ ''>'' @ CRLF) (envelope s1)\<rparr>
         else s1)"

definition hand_over :: "Server \<Rightarrow> session \<Rightarrow> session go" where
  "hand_over srv s =
     (case Handler srv of
        None \<Rightarrow> Inl NilDereference
      | Some f \<Rightarrow>
          let r = f (calls s) (peer s) (envelope s);
              s1 = ask (CallHandler (peer s) (envelope s) r) s
          in (case r of
                Inl err \<Rightarrow> Inr (Reset (Out [''451 temporary queue error''] s1))
              | Inr qid \<Rightarrow> Inr (Reset (Out [Codes SuccessMessageQueued @ '' '' @ qid] s1))))"

definition deliver :: "env \<Rightarrow> Server \<Rightarrow> session \<Rightarrow> session go" where
  "deliver E srv s =
     go_bind (ReceivedHeader E s) (\<lambda>(received, s1).
       let s2 = stamp E received s1
       in go_bind (Envelope_Close (ReadMessage E) (envelope s2)) (\<lambda>(_, e).
            hand_over srv (s2\<lparr>envelope := e, state := sessionStateWaitingForQuit\<rparr>)))"

definition handleData :: handler where
  "handleData E srv cmd s =
     (if bodyType s = ''BINARYMIME'' then Inr (abort (Out [Codes FailBadSequence] s))
      else case BeginData (envelope s) of
          (Some err, e) \<Rightarrow> Inr (Out [Error_text err] (s\<lparr>envelope := e\<rparr>))
        | (None, e) \<Rightarrow>
            let s1 = s\<lparr>envelope := e\<rparr>
            in if state s1 \<noteq> sessionStateReadyForData then Inr (abort (Out [Codes FailBadSequence] s1))
               else
                 let s2 = (Out [Codes SuccessDataCmd] s1)\<lparr>state := sessionStateGettingData\<rparr>
                 in go_bind (data_loop (MsgSize (srv_Limits srv)) 0 s2) (\<lambda>r.
                      case r of
                        Inl s3 \<Rightarrow> Inr s3
                      | Inr (sz, s3) \<Rightarrow>
                          if MsgSize (srv_Limits srv) < sz then Inr (Out [Codes FailTooBig] s3)
                          else deliver E srv s3))"

section \<open>BDAT\<close>

definition finish_bdat :: "env \<Rightarrow> bool \<Rightarrow> int \<Rightarrow> session \<Rightarrow> session go" where
  "finish_bdat E is_last chunkSize64 s =
     (if is_last then
        (case data (envelope s) of
           None \<Rightarrow> Inl NilDereference
         | Some d \<Rightarrow>
             let s1 = Out [''250 BDAT ok, BDAT finished, '' @ itoa (int (length d)) @ '' octets received''] s
             in go_bind (Envelope_Close (ReadMessage E) (envelope s1)) (\<lambda>(_, e).
                  Inr (s1\<lparr>envelope := e, state := sessionStateDataDone\<rparr>)))
      else Inr (Out [''250 BDAT ok, '' @ itoa chunkSize64 @ '' octets received''] s))"

text \<open>The allocation, the read of the chunk and what follows it.\<close>

definition bdat_chunk :: "env \<Rightarrow> bool \<Rightarrow> int \<Rightarrow> session \<Rightarrow> session go" where
  "bdat_chunk E is_last chunkSize64 s =
     (if chunkSize64 < 0 \<or> maxAlloc E < chunkSize64 then Inl MakeSliceLenOutOfRange
      else case bufio_Read (nat chunkSize64) (io s) of
          (Inl err, b) \<Rightarrow>
            Inr (abort (Out [Sprintf_extra (Codes FailReadErrorDataCmd) (Some err)] (s\<lparr>io := b\<rparr>)))
        | (Inr chunk, b) \<Rightarrow>
            let s1 = s\<lparr>io := b\<rparr>
            in if int (length chunk) \<noteq> chunkSize64
               then Inr (abort (Out [Sprintf_extra (Codes FailReadErrorDataCmd) None] s1))
               else go_bind (Envelope_Write chunk (envelope s1)) (\<lambda>(n, e).
                 let s2 = s1\<lparr>envelope := e\<rparr>
                 in if n \<noteq> chunkSize64
                    then Inr (abort (Out [Sprintf_extra (Codes FailReadErrorDataCmd) None] s2))
                    else finish_bdat E is_last chunkSize64 s2))"

definition handleBdat :: handler where
  "handleBdat E srv cmd s =
     (if state s = sessionStateDataDone then Inr (Out [''503 Bad sequence of commands''] s)
      else case arguments cmd of
          [] \<Rightarrow> Inr (Out [Codes FailUnrecognizedCmd] s)
        | a # args \<Rightarrow>
            (case ParseInt a of
               None \<Rightarrow> Inr (bad_command (Out [Codes FailUnrecognizedCmd] s))
             | Some chunkSize64 \<Rightarrow>
                 let is_last = ((args \<noteq> [] \<and> ToUpper (unicode_ToUpper E) (args ! 0) = ''LAST'') \<or> chunkSize64 = 0)
                 in bdat_chunk E is_last chunkSize64 s))"

section \<open>The contract of DATA\<close>

text \<open>What the read loop does to the session besides collecting bytes.\<close>

definition receives :: "session \<Rightarrow> session \<Rightarrow> bool" where
  "receives s s' \<longleftrightarrow>
     (\<exists>b d. s' = s\<lparr>io := b, envelope := (envelope s)\<lparr>data := Some d\<rparr>\<rparr> \<and>
        input_size b \<le> input_size (io s) \<and> (writable (io s) \<longrightarrow> writable b) \<and> written b = written (io s))"

lemma receives_refl:
  assumes "data (envelope s) = Some d"
  shows "receives s s"
proof -
  have "(envelope s)\<lparr>data := Some d\<rparr> = envelope s"
    by (simp flip: assms)
  then show ?thesis
    unfolding receives_def by (intro exI [of _ "io s"] exI [of _ d]) simp
qed

lemma receives_io:
  assumes "receives s s'" and "ReadString (io s') = (r, b)"
  shows "receives s (s'\<lparr>io := b\<rparr>)"
proof -
  obtain b0 d where "s' = s\<lparr>io := b0, envelope := (envelope s)\<lparr>data := Some d\<rparr>\<rparr>"
    "input_size b0 \<le> input_size (io s)" "writable (io s) \<longrightarrow> writable b0" "written b0 = written (io s)"
    using assms(1) unfolding receives_def by blast
  moreover from this assms(2) have "ReadString b0 = (r, b)" by simp
  ultimately show ?thesis
    using ReadString_size ReadString_writable ReadString_frame(1) unfolding receives_def
    by (intro exI [of _ b] exI [of _ d]) (simp, metis le_trans)
qed

lemma receives_data:
  assumes "receives s s'"
  shows "receives s (s'\<lparr>envelope := (envelope s')\<lparr>data := Some d\<rparr>\<rparr>)"
proof -
  obtain b0 d0 where "s' = s\<lparr>io := b0, envelope := (envelope s)\<lparr>data := Some d0\<rparr>\<rparr>"
    "input_size b0 \<le> input_size (io s)" "writable (io s) \<longrightarrow> writable b0" "written b0 = written (io s)"
    using assms(1) unfolding receives_def by blast
  then show ?thesis
    unfolding receives_def by (intro exI [of _ b0] exI [of _ d]) simp
qed

text \<open>The rounds of the loop as equations.\<close>

lemma data_loop_eqs:
  "limit \<le> sz \<Longrightarrow> data_loop limit sz s = Inr (Inr (sz, s))"
  "sz < limit \<Longrightarrow> ReadString (io s) = (Inl err, b) \<Longrightarrow> data_loop limit sz s =
     Inr (Inl (abort (Out [Sprintf_extra (Codes FailReadErrorDataCmd) (Some err)] (s\<lparr>io := b\<rparr>))))"
  "sz < limit \<Longrightarrow> ReadString (io s) = (Inr l, b) \<Longrightarrow> TrimSpace l = ''.'' \<Longrightarrow>
     data_loop limit sz s = Inr (Inr (sz, s\<lparr>io := b\<rparr>))"
  "sz < limit \<Longrightarrow> ReadString (io s) = (Inr l, b) \<Longrightarrow> TrimSpace l \<noteq> ''.'' \<Longrightarrow> data (envelope s) = Some d \<Longrightarrow>
     data_loop limit sz s = data_loop limit (int64 (sz + int (length (TrimSpace l))))
       (s\<lparr>io := b, envelope := (envelope s)\<lparr>data := Some (d @ TrimSpace l @ CRLF)\<rparr>\<rparr>)"
  by (subst data_loop.simps, simp add: Let_def Envelope_WriteString_def Envelope_Write_def)+

text \<open>
  With a buffer the loop never panics: it returns after a read error, with the session
  aborted, or ends.
\<close>

lemma data_loop_cases:
  assumes "data (envelope s) \<noteq> None"
  shows "(\<exists>s1 err. data_loop limit sz s =
      Inr (Inl (abort (Out [Sprintf_extra (Codes FailReadErrorDataCmd) (Some err)] s1))) \<and> receives s s1) \<or>
    (\<exists>z s1. data_loop limit sz s = Inr (Inr (z, s1)) \<and> receives s s1)"
proof -
  have "receives s s' \<Longrightarrow> (\<exists>s1 err. data_loop limit sz s' =
      Inr (Inl (abort (Out [Sprintf_extra (Codes FailReadErrorDataCmd) (Some err)] s1))) \<and> receives s s1) \<or>
    (\<exists>z s1. data_loop limit sz s' = Inr (Inr (z, s1)) \<and> receives s s1)" for s'
  proof (induction "input_size (io s')" arbitrary: s' sz rule: less_induct)
    case less
    then obtain d where d: "data (envelope s') = Some d" by (auto simp: receives_def)
    obtain r b where rb: "ReadString (io s') = (r, b)" by fastforce
    note rcv = receives_io [OF less.prems rb]
    consider "limit \<le> sz" | err where "sz < limit" "r = Inl err"
      | l where "sz < limit" "r = Inr l" "TrimSpace l = ''.''"
      | l where "sz < limit" "r = Inr l" "TrimSpace l \<noteq> ''.''"
      by (cases r) (auto simp: not_le [symmetric])
    then show ?case
    proof cases
      case (4 l)
      let ?s = "s'\<lparr>io := b, envelope := (envelope s')\<lparr>data := Some (d @ TrimSpace l @ CRLF)\<rparr>\<rparr>"
      have "input_size (io ?s) < input_size (io s')"
        using ReadString_progress rb 4 by simp
      moreover have "receives s ?s"
        using receives_data [OF rcv] by simp
      ultimately show ?thesis
        using less.hyps [of ?s] data_loop_eqs(4) [OF 4(1) _ 4(3) d] rb 4(2) by simp
    qed (use rb rcv less.prems in \<open>auto simp: data_loop_eqs\<close>)
  qed
  from assms this [OF receives_refl] show ?thesis by blast
qed

lemma reverse_name_log: "reverse_name E ip s = Inr (h, s1) \<Longrightarrow> s1 = ask (CallLookupAddr ip) s"
  by (auto simp: reverse_name_def Let_def go_bind_Inr_conv split: sum.splits)

lemma ReceivedHeader_log:
  assumes "ReceivedHeader E s = Inr (h, s1)"
  shows "\<exists>ip1 ip2. s1 = s\<lparr>calls := calls s @ [CallLookupAddr ip1, CallLookupAddr ip2]\<rparr>"
proof -
  obtain ip1 ip2 where "s1 = ask (CallLookupAddr ip2) (ask (CallLookupAddr ip1) s)"
    using assms by (auto simp: ReceivedHeader_def go_bind_Inr_conv dest!: reverse_name_log)
  then show ?thesis by (auto simp: ask_def)
qed

lemma Envelope_Close_frame:
  assumes "Envelope_Close rm e = Inr (err, e')"
  shows "MailTo e' = MailTo e" and "MailFrom e' = MailFrom e" and "data e' \<noteq> None" and "headers e' = headers e"
    and "Priority e' = Priority e"
  using assms by (auto simp: Envelope_Close_def split: option.splits prod.splits sum.splits)

lemma set_header_frame [simp]:
  "MailTo (set_header k v e) = MailTo e" "MailFrom (set_header k v e) = MailFrom e"
  "data (set_header k v e) = data e" "Priority (set_header k v e) = Priority e"
  by (simp_all add: set_header_def)

text \<open>A delivery: two reverse lookups, one call of the delivery function, a reply, a reset.\<close>

lemma stamp_frame:
  "stamp E r s = s\<lparr>envelope := envelope (stamp E r s)\<rparr>"
  "MailTo (envelope (stamp E r s)) = MailTo (envelope s)" "MailFrom (envelope (stamp E r s)) = MailFrom (envelope s)"
  "data (envelope (stamp E r s)) = data (envelope s)" "Priority (envelope (stamp E r s)) = Priority (envelope s)"
  by (simp_all add: stamp_def Let_def)

lemma hand_over_cases:
  assumes "hand_over srv s = Inr s'"
  obtains m r where "s' = Reset (Out m (ask (CallHandler (peer s) (envelope s) r) s))"
  using assms by (auto simp: hand_over_def Let_def split: option.splits sum.splits)

lemma deliver_cases:
  assumes "deliver E srv s = Inr s'"
  obtains e r ip1 ip2 m where "MailTo e = MailTo (envelope s)" "MailFrom e = MailFrom (envelope s)"
    "data e \<noteq> None" "Priority e = Priority (envelope s)"
    "s' = Reset (Out m (ask (CallHandler (peer s) e r)
       (s\<lparr>calls := calls s @ [CallLookupAddr ip1, CallLookupAddr ip2], envelope := e,
          state := sessionStateWaitingForQuit\<rparr>)))"
proof -
  from assms obtain received s1 err e where rh: "ReceivedHeader E s = Inr (received, s1)"
    and e: "Envelope_Close (ReadMessage E) (envelope (stamp E received s1)) = Inr (err, e)"
    and h: "hand_over srv ((stamp E received s1)\<lparr>envelope := e, state := sessionStateWaitingForQuit\<rparr>) = Inr s'"
    by (auto simp: deliver_def go_bind_Inr_conv Let_def)
  from ReceivedHeader_log [OF rh] obtain ip1 ip2
    where s1: "s1 = s\<lparr>calls := calls s @ [CallLookupAddr ip1, CallLookupAddr ip2]\<rparr>" by blast
  have "(stamp E received s1)\<lparr>envelope := e, state := sessionStateWaitingForQuit\<rparr> =
      s\<lparr>calls := calls s @ [CallLookupAddr ip1, CallLookupAddr ip2], envelope := e,
        state := sessionStateWaitingForQuit\<rparr>"
    by (subst stamp_frame(1)) (simp add: s1)
  with h obtain m r where "s' = Reset (Out m (ask (CallHandler (peer s) e r)
       (s\<lparr>calls := calls s @ [CallLookupAddr ip1, CallLookupAddr ip2], envelope := e,
          state := sessionStateWaitingForQuit\<rparr>)))"
    by (auto elim: hand_over_cases)
  with Envelope_Close_frame [OF e] show thesis
    by (intro that) (simp_all add: stamp_frame(2-5) s1)
qed

lemma inv_Reset_any:
  assumes "data (envelope s) \<noteq> None" and "priority_ok (Priority (envelope s))" and "secure_ok (peer s) (tls s) (calls s)" and "log_ok srv (calls s)"
  shows "session_inv srv (Reset s)"
  using assms by (auto simp: session_inv_def Envelope_Reset_eq)

lemma deliver_ok:
  assumes "deliver E srv s = Inr s'"
  shows "session_inv srv s \<Longrightarrow> state s = sessionStateGettingData \<Longrightarrow> session_inv srv s'"
    and "evolves s s'" and "badCommandsCount s' = badCommandsCount s"
proof -
  from assms obtain e r ip1 ip2 m where e: "MailTo e = MailTo (envelope s)" "MailFrom e = MailFrom (envelope s)"
    "data e \<noteq> None" "Priority e = Priority (envelope s)"
    and s': "s' = Reset (Out m (ask (CallHandler (peer s) e r)
       (s\<lparr>calls := calls s @ [CallLookupAddr ip1, CallLookupAddr ip2], envelope := e,
          state := sessionStateWaitingForQuit\<rparr>)))"
    by (rule deliver_cases)
  show "evolves s s'" "badCommandsCount s' = badCommandsCount s"
    unfolding s' by (simp_all add: evolves_def)
  assume inv: "session_inv srv s" and st: "state s = sessionStateGettingData"
  let ?cs = "(calls s @ [CallLookupAddr ip1]) @ [CallLookupAddr ip2]"
  have cs: "secure_ok (peer s) (tls s) ?cs" "log_ok srv ?cs" "tx_log srv (MailTo (envelope s)) ?cs"
      "rcpts_ok srv (helloSeen s) (peer s) ?cs (envelope s)"
    using inv st
    by (simp_all only: session_inv_def secure_ok_snoc log_ok_snoc rcpts_ok_snoc tx_log_snoc mail_ok_def
        phase_ok.simps call.distinct call_ok.simps is_mail_check.simps simp_thms)
  have "call_ok srv ?cs (CallHandler (peer s) e r)"
    using cs inv st e by (auto simp: session_inv_def rcpts_ok_def mail_ok_def secure_ok_def)
  then have "log_ok srv (?cs @ [CallHandler (peer s) e r])"
    using cs(2) unfolding log_ok_snoc by blast
  moreover have "secure_ok (peer s) (tls s) (?cs @ [CallHandler (peer s) e r])"
    by (rule secure_ok_snoc [OF cs(1)]) simp
  ultimately show "session_inv srv s'"
    unfolding s' using e(3,4) inv by (intro inv_Reset_any) (simp_all add: session_inv_def)
qed

lemma receives_inv:
  assumes "receives s s'" and "session_inv srv s"
  shows "session_inv srv s'"
proof -
  obtain b d where "s' = s\<lparr>io := b, envelope := (envelope s)\<lparr>data := Some d\<rparr>\<rparr>"
    using assms(1) unfolding receives_def by blast
  with assms(2) show ?thesis by (simp add: session_inv_def rcpts_ok_def)
qed

lemma receives_frame:
  assumes "receives s s'"
  shows "evolves s s'" and "badCommandsCount s' = badCommandsCount s" and "state s' = state s"
    and "peer s' = peer s" and "MailTo (envelope s') = MailTo (envelope s)" and "tls s' = tls s"
    and "calls s' = calls s"
  using assms unfolding receives_def by (auto simp: evolves_def)

lemma handleData_cases:
  assumes "handleData E srv cmd s = Inr s'"
  obtains (refused) m where "s' = abort (Out m s)"
  | (empty) m where "MailTo (envelope s) = []" "s' = Out m s"
  | (sequence) m where "s' = abort (Out m (s\<lparr>envelope := (envelope s)\<lparr>data := Some []\<rparr>\<rparr>))"
  | (broken) s2 s3 m where "MailTo (envelope s) \<noteq> []" "state s = sessionStateReadyForData"
      "s2 = (Out [Codes SuccessDataCmd] (s\<lparr>envelope := (envelope s)\<lparr>data := Some []\<rparr>\<rparr>))\<lparr>state := sessionStateGettingData\<rparr>"
      "receives s2 s3" "s' = abort (Out m s3)"
  | (oversize) s2 s3 m where "MailTo (envelope s) \<noteq> []" "state s = sessionStateReadyForData"
      "s2 = (Out [Codes SuccessDataCmd] (s\<lparr>envelope := (envelope s)\<lparr>data := Some []\<rparr>\<rparr>))\<lparr>state := sessionStateGettingData\<rparr>"
      "receives s2 s3" "s' = Out m s3"
  | (delivered) s2 s3 where "MailTo (envelope s) \<noteq> []" "state s = sessionStateReadyForData"
      "s2 = (Out [Codes SuccessDataCmd] (s\<lparr>envelope := (envelope s)\<lparr>data := Some []\<rparr>\<rparr>))\<lparr>state := sessionStateGettingData\<rparr>"
      "receives s2 s3" "deliver E srv s3 = Inr s'"
proof (cases "bodyType s = ''BINARYMIME'' \<or> MailTo (envelope s) = [] \<or> state s \<noteq> sessionStateReadyForData")
  case True
  with assms that(1-3) show thesis
    by (auto simp: handleData_def BeginData_def Let_def split: if_splits)
next
  case False
  define s2 where "s2 = (Out [Codes SuccessDataCmd] (s\<lparr>envelope := (envelope s)\<lparr>data := Some []\<rparr>\<rparr>))\<lparr>state := sessionStateGettingData\<rparr>"
  have h: "go_bind (data_loop (MsgSize (srv_Limits srv)) 0 s2) (\<lambda>r. case r of
      Inl s3 \<Rightarrow> Inr s3
    | Inr (sz, s3) \<Rightarrow> if MsgSize (srv_Limits srv) < sz then Inr (Out [Codes FailTooBig] s3)
        else deliver E srv s3) = Inr s'"
    using assms False by (simp add: handleData_def BeginData_def s2_def)
  have "data (envelope s2) \<noteq> None" by (simp add: s2_def)
  from data_loop_cases [OF this, of "MsgSize (srv_Limits srv)" 0] h False that(4-6) [OF _ _ s2_def]
  show thesis by (auto split: if_splits)
qed

lemma inv_begin_data:
  assumes "session_inv srv s"
  shows "session_inv srv (s\<lparr>envelope := (envelope s)\<lparr>data := Some d\<rparr>\<rparr>)"
  using assms by (simp add: session_inv_def rcpts_ok_def)

lemma inv_getting_data:
  assumes "session_inv srv s" and "state s = sessionStateReadyForData"
  shows "session_inv srv ((Out m (s\<lparr>envelope := (envelope s)\<lparr>data := Some d\<rparr>\<rparr>))\<lparr>state := sessionStateGettingData\<rparr>)"
  using assms by (simp add: session_inv_def rcpts_ok_def)

lemma evolves_from [simp]:
  "evolves (Out m s) s' \<longleftrightarrow> evolves s s'" "evolves (s\<lparr>state := st\<rparr>) s' \<longleftrightarrow> evolves s s'"
  "evolves (s\<lparr>envelope := e\<rparr>) s' \<longleftrightarrow> evolves s s'"
  by (simp_all add: evolves_def)

interpretation data: session_handler handleData
proof
  fix srv s E cmd s'
  assume inv: "session_inv srv s" and h: "handleData E srv cmd s = Inr s'"
  from h show "session_inv srv s'"
  proof (cases rule: handleData_cases)
    case (broken s2 s3 m)
    then show ?thesis
      using inv_getting_data [OF inv] by (auto intro!: inv_abort inv_Out intro: receives_inv)
  next
    case (oversize s2 s3 m)
    then show ?thesis
      using inv_getting_data [OF inv] by (auto intro!: inv_Out intro: receives_inv)
  next
    case (delivered s2 s3)
    have "session_inv srv s3"
      using inv_getting_data [OF inv delivered(2)] delivered(3,4) by (auto intro: receives_inv)
    then show ?thesis
      using deliver_ok(1) [OF delivered(5)] receives_frame(3) [OF delivered(4)] delivered(3) by simp
  qed (use inv in \<open>auto intro!: inv_abort inv_Out inv_begin_data\<close>)
next
  fix srv s E cmd s'
  assume "handleData E srv cmd s = Inr s'"
  then show "evolves s s'"
    by (cases rule: handleData_cases)
      (auto dest!: receives_frame(1) deliver_ok(2) intro: evolves_trans)
next
  fix srv s E cmd s'
  assume "handleData E srv cmd s = Inr s'"
  then show "counts s s'"
    by (cases rule: handleData_cases)
      (auto simp: counts_def dest!: receives_frame(2) deliver_ok(3))
qed

section \<open>The contract of BDAT\<close>

lemma inv_data_done: "session_inv srv s \<Longrightarrow> session_inv srv (s\<lparr>state := sessionStateDataDone\<rparr>)"
  by (simp add: session_inv_def)

lemma finish_bdat_cases:
  assumes "finish_bdat E is_last n s = Inr s'"
  obtains (more) m where "\<not> is_last" "s' = Out m s"
  | (done_all) m err e where "is_last" "Envelope_Close (ReadMessage E) (envelope s) = Inr (err, e)"
      "s' = (Out m s)\<lparr>envelope := e, state := sessionStateDataDone\<rparr>"
  using assms by (auto simp: finish_bdat_def go_bind_Inr_conv Let_def split: if_splits option.splits)

lemma bdat_chunk_cases:
  assumes "bdat_chunk E is_last k s = Inr s'"
  obtains (broken) n b m where "b = snd (bufio_Read n (io s))" "s' = abort (Out m (s\<lparr>io := b\<rparr>))"
  | (chunk) n r b d where "bufio_Read n (io s) = (Inr r, b)" "data (envelope s) = Some d"
      "finish_bdat E is_last k (s\<lparr>io := b, envelope := (envelope s)\<lparr>data := Some (d @ r)\<rparr>\<rparr>) = Inr s'"
proof -
  obtain r b where rb: "bufio_Read (nat k) (io s) = (r, b)" by fastforce
  have b: "b = snd (bufio_Read (nat k) (io s))" using rb by simp
  show thesis
  proof (cases "\<exists>m. s' = abort (Out m (s\<lparr>io := b\<rparr>))")
    case True
    with that(1) [OF b] show thesis by blast
  next
    case False
    then obtain x where x: "r = Inr x"
      using assms rb by (cases r) (auto simp: bdat_chunk_def split: if_splits)
    obtain d where d: "data (envelope s) = Some d"
      using assms rb x False
      by (cases "data (envelope s)") (auto simp: bdat_chunk_def Let_def Envelope_Write_def split: if_splits)
    show thesis
      using assms rb x d False that(2) [of "nat k" x b d]
      by (auto simp: bdat_chunk_def Let_def Envelope_Write_def split: if_splits)
  qed
qed

lemma handleBdat_cases:
  assumes "handleBdat E srv cmd s = Inr s'"
  obtains (refused) m where "s' = Out m s"
  | (bad) m where "s' = bad_command (Out m s)"
  | (broken) n b m where "b = snd (bufio_Read n (io s))" "s' = abort (Out m (s\<lparr>io := b\<rparr>))"
  | (chunk) n r b d is_last k where "bufio_Read n (io s) = (Inr r, b)" "data (envelope s) = Some d"
      "finish_bdat E is_last k (s\<lparr>io := b, envelope := (envelope s)\<lparr>data := Some (d @ r)\<rparr>\<rparr>) = Inr s'"
proof -
  consider m where "s' = Out m s" | m where "s' = bad_command (Out m s)"
    | is_last k where "bdat_chunk E is_last k s = Inr s'"
    using assms by (auto simp: handleBdat_def Let_def split: if_splits list.splits option.splits)
  then show thesis
  proof cases
    case 3
    then show thesis by (cases rule: bdat_chunk_cases) (auto intro: that(3,4))
  qed (auto intro: that(1,2))
qed

interpretation bdat: session_handler handleBdat
proof
  fix srv s E cmd s'
  assume inv: "session_inv srv s" and h: "handleBdat E srv cmd s = Inr s'"
  from h show "session_inv srv s'"
  proof (cases rule: handleBdat_cases)
    case (chunk n r b d is_last k)
    let ?s = "s\<lparr>io := b, envelope := (envelope s)\<lparr>data := Some (d @ r)\<rparr>\<rparr>"
    have s: "session_inv srv ?s"
      using inv_begin_data [OF inv_fields(2) [OF inv, of b], of "d @ r"] by simp
    from chunk(3) show ?thesis
    proof (cases rule: finish_bdat_cases)
      case (more m)
      with s show ?thesis by (auto intro: inv_Out)
    next
      case (done_all m err e)
      with s Envelope_Close_frame [OF done_all(2)] show ?thesis
        by (simp add: session_inv_def rcpts_ok_def)
    qed
  qed (use inv in \<open>auto intro!: inv_intros\<close>)
next
  fix srv s E cmd s'
  assume "handleBdat E srv cmd s = Inr s'"
  then show "evolves s s'"
  proof (cases rule: handleBdat_cases)
    case (broken n b m)
    then show ?thesis by (simp add: evolves_io bufio_Read_size)
  next
    case (chunk n r b d is_last k)
    have "evolves s (s\<lparr>io := b\<rparr>)"
      using bufio_Read_size [of n "io s"] chunk(1) by (simp add: evolves_io)
    with chunk(3) show ?thesis by (cases rule: finish_bdat_cases) auto
  qed auto
next
  fix srv s E cmd s'
  assume "handleBdat E srv cmd s = Inr s'"
  then show "counts s s'"
    by (cases rule: handleBdat_cases) (auto simp: counts_def elim!: finish_bdat_cases)
qed

section \<open>What DATA receives\<close>

text \<open>
  The lines of a message as DATA stores them: every line loses its surrounding white space,
  and a leading dot is kept. The size counted is the one of the stored lines without their
  line ends.
\<close>

definition data_content :: "string list \<Rightarrow> string" where
  "data_content ls = concat (map (\<lambda>l. TrimSpace (l @ CRLF) @ CRLF) ls)"

definition data_size :: "string list \<Rightarrow> int" where
  "data_size ls = sum_list (map (\<lambda>l. int (length (TrimSpace (l @ CRLF)))) ls)"

definition message_lines :: "string list \<Rightarrow> bool" where
  "message_lines ls \<longleftrightarrow> list_all (\<lambda>l. LF \<notin> set l \<and> TrimSpace (l @ CRLF) \<noteq> ''.'') ls"

lemma data_size_Cons [simp]: "data_size (l # ls) = int (length (TrimSpace (l @ CRLF))) + data_size ls"
  by (simp add: data_size_def)

lemma data_content_Cons [simp]: "data_content (l # ls) = TrimSpace (l @ CRLF) @ CRLF @ data_content ls"
  by (simp add: data_content_def)

lemma data_Nil [simp]: "data_size [] = 0" "data_content [] = []" "message_lines []"
  by (simp_all add: data_size_def data_content_def message_lines_def)

lemma data_size_nonneg: "0 \<le> data_size ls"
  by (induction ls) simp_all

text \<open>The buffered connection after some bytes were read from it.\<close>

definition continues :: "bufio \<Rightarrow> string \<Rightarrow> bufio \<Rightarrow> bool" where
  "continues b0 rest b \<longleftrightarrow> pending b = rest \<and> failure b = failure b0 \<and>
     writable b = writable b0 \<and> written b = written b0"

lemma ReadString_line:
  assumes "pending b0 = l @ CRLF @ rest" and "LF \<notin> set l"
  shows "\<exists>b. ReadString b0 = (Inr (l @ CRLF), b) \<and> continues b0 rest b"
proof -
  have "pending b0 = (l @ [CR]) @ LF # rest" "LF \<notin> set (l @ [CR])"
    using assms by auto
  from bufio_lines.read_prefix_line [OF this] obtain b
    where "ReadString b0 = (Inr ((l @ [CR]) @ [LF]), b)" "pending b = rest" "failure b = failure b0"
    by blast
  then show ?thesis
    by (intro exI [of _ b]) (auto simp: continues_def dest: ReadString_frame ReadString_writable)
qed

lemma data_loop_consume:
  assumes "pending (io s) = concat (map (\<lambda>l. l @ CRLF) ls) @ rest" and "message_lines ls"
    and "data (envelope s) = Some d" and "0 \<le> sz" and "sz + data_size ls \<le> max_int64"
    and "ls \<noteq> [] \<longrightarrow> sz + data_size (butlast ls) < limit"
  shows "\<exists>b. data_loop limit sz s = data_loop limit (sz + data_size ls)
      (s\<lparr>io := b, envelope := (envelope s)\<lparr>data := Some (d @ data_content ls)\<rparr>\<rparr>) \<and> continues (io s) rest b"
  using assms
proof (induction ls arbitrary: s d sz)
  case Nil
  have "(envelope s)\<lparr>data := Some d\<rparr> = envelope s" by (simp flip: Nil.prems(3))
  then show ?case
    using Nil.prems(1) by (intro exI [of _ "io s"]) (simp add: continues_def)
next
  case (Cons l ls)
  let ?line = "TrimSpace (l @ CRLF)"
  have "LF \<notin> set l" "?line \<noteq> ''.''" and lines: "message_lines ls"
    using Cons.prems(2) by (simp_all add: message_lines_def)
  then obtain b1 where b1: "ReadString (io s) = (Inr (l @ CRLF), b1)"
      "continues (io s) (concat (map (\<lambda>l. l @ CRLF) ls) @ rest) b1"
    using ReadString_line [of "io s" l "concat (map (\<lambda>l. l @ CRLF) ls) @ rest"] Cons.prems(1) by auto
  have "sz < limit"
    using Cons.prems(6) data_size_nonneg [of "butlast (l # ls)"] by simp
  have sz: "int64 (sz + int (length ?line)) = sz + int (length ?line)"
    using Cons.prems(4,5) data_size_nonneg [of ls] by (intro int64_id) auto
  let ?s = "s\<lparr>io := b1, envelope := (envelope s)\<lparr>data := Some (d @ ?line @ CRLF)\<rparr>\<rparr>"
  have step: "data_loop limit sz s = data_loop limit (sz + int (length ?line)) ?s"
    using data_loop_eqs(4) [OF \<open>sz < limit\<close> b1(1) \<open>?line \<noteq> ''.''\<close> Cons.prems(3)] sz by simp
  have "\<exists>b. data_loop limit (sz + int (length ?line)) ?s =
      data_loop limit (sz + int (length ?line) + data_size ls)
        (?s\<lparr>io := b, envelope := (envelope ?s)\<lparr>data := Some ((d @ ?line @ CRLF) @ data_content ls)\<rparr>\<rparr>) \<and>
      continues (io ?s) rest b"
  proof (rule Cons.IH)
    show "ls \<noteq> [] \<longrightarrow> sz + int (length ?line) + data_size (butlast ls) < limit"
      using Cons.prems(6) by auto
  qed (use Cons.prems(4,5) b1(2) lines in \<open>auto simp: continues_def add.assoc\<close>)
  then show ?case
    unfolding step using b1(2) by (auto simp: continues_def add.assoc)
qed

lemma data_loop_message:
  assumes "pending (io s) = concat (map (\<lambda>l. l @ CRLF) ls) @ ''.'' @ CRLF @ rest" and "message_lines ls"
    and "data (envelope s) = Some d" and "data_size ls < limit" and "limit \<le> max_int64"
  shows "\<exists>b. data_loop limit 0 s = Inr (Inr (data_size ls,
      s\<lparr>io := b, envelope := (envelope s)\<lparr>data := Some (d @ data_content ls)\<rparr>\<rparr>)) \<and> continues (io s) rest b"
proof -
  have "data_size (butlast ls) \<le> data_size ls"
    by (cases ls rule: rev_cases) (simp_all add: data_size_def)
  with assms obtain b1 where b1: "data_loop limit 0 s = data_loop limit (data_size ls)
      (s\<lparr>io := b1, envelope := (envelope s)\<lparr>data := Some (d @ data_content ls)\<rparr>\<rparr>)"
    "continues (io s) (''.'' @ CRLF @ rest) b1"
    using data_loop_consume [of s ls "''.'' @ CRLF @ rest" d 0 limit] by auto
  then obtain b where b: "ReadString b1 = (Inr (''.'' @ CRLF), b)" "continues b1 rest b"
    using ReadString_line [of b1 "''.''" rest] by (auto simp: continues_def)
  have "TrimSpace (''.'' @ CRLF) = ''.''" by code_simp
  with b1 b assms(4) show ?thesis
    by (intro exI [of _ b]) (simp add: data_loop_eqs(3) [where l = "''.'' @ CRLF"] continues_def)
qed

text \<open>DATA on a session that is ready for it.\<close>

definition getting_data :: "session \<Rightarrow> session" where
  "getting_data s = (Out [Codes SuccessDataCmd] (s\<lparr>envelope := (envelope s)\<lparr>data := Some []\<rparr>\<rparr>))
     \<lparr>state := sessionStateGettingData\<rparr>"

lemma handleData_ready:
  assumes "bodyType s \<noteq> ''BINARYMIME''" and "MailTo (envelope s) \<noteq> []" and "state s = sessionStateReadyForData"
  shows "handleData E srv cmd s =
    go_bind (data_loop (MsgSize (srv_Limits srv)) 0 (getting_data s)) (\<lambda>r. case r of
      Inl s3 \<Rightarrow> Inr s3
    | Inr (sz, s3) \<Rightarrow> if MsgSize (srv_Limits srv) < sz then Inr (Out [Codes FailTooBig] s3)
        else deliver E srv s3)"
  using assms by (simp add: handleData_def BeginData_def getting_data_def)

lemma getting_data_frame:
  "pending (io (getting_data s)) = pending (io s)" "data (envelope (getting_data s)) = Some []"
  "MailTo (envelope (getting_data s)) = MailTo (envelope s)" "MailFrom (envelope (getting_data s)) = MailFrom (envelope s)"
  "peer (getting_data s) = peer s" "calls (getting_data s) = calls s" "remote_addr (getting_data s) = remote_addr s"
  "local_addr (getting_data s) = local_addr s" "state (getting_data s) = sessionStateGettingData"
  "failure (io (getting_data s)) = failure (io s)"
  "writable (io s) \<Longrightarrow> writable (io (getting_data s))"
  "writable (io s) \<Longrightarrow> written (io (getting_data s)) = written (io s) @ Codes SuccessDataCmd @ CRLF"
  by (simp_all add: getting_data_def)

text \<open>A delivery that has what it needs: addresses with a port, names for the addresses, a handler.\<close>

lemma reverse_name_total:
  assumes "LookupAddr E (calls s) ip \<noteq> Inr []"
  shows "\<exists>h. reverse_name E ip s = Inr (h, ask (CallLookupAddr ip) s)"
  using assms by (cases "LookupAddr E (calls s) ip") (auto simp: reverse_name_def Let_def go_nth_def split: list.split)

text \<open>
  A message handed over: the envelope with the content \<open>content\<close>, the recipients and the
  sender of the session \<open>s\<close> and the new headers is closed and given to the delivery
  function \<open>f\<close>, once, after the two reverse lookups; then the client is told the outcome
  (after the bytes \<open>w\<close> written before) and the session is reset.
\<close>

definition delivered ::
  "env \<Rightarrow> (call list \<Rightarrow> Peer \<Rightarrow> envelope \<Rightarrow> go_error + string) \<Rightarrow> string \<Rightarrow> string \<Rightarrow> session \<Rightarrow> session \<Rightarrow> bool" where
  "delivered E f content w s s' \<longleftrightarrow>
     (\<exists>ip1 port ip2 h1 h2 cs e0 err e.
        ip1 = Split CHR '':'' (remote_addr s) ! 0 \<and> port = Split CHR '':'' (remote_addr s) ! 1 \<and>
        ip2 = Split CHR '':'' (local_addr s) ! 0 \<and> cs = calls s @ [CallLookupAddr ip1, CallLookupAddr ip2] \<and>
        data e0 = Some content \<and> MailTo e0 = MailTo (envelope s) \<and> MailFrom e0 = MailFrom (envelope s) \<and>
        headers e0 = (''Received'', wrap (received_text E (s\<lparr>calls := cs\<rparr>) h1 ip1 port ip2 h2)) #
          (if Authenticated (peer s)
           then [(''Message-ID'', ''Message-ID: <'' @ itoa (now_Unix E cs) @ ''.'' @ sid s @ ''@''
                   @ ServerName (peer s) @ ''>'' @ CRLF)]
           else []) \<and>
        Envelope_Close (ReadMessage E) e0 = Inr (err, e) \<and>
        calls s' = cs @ [CallHandler (peer s) e (f cs (peer s) e)] \<and>
        state s' = sessionStateInit \<and> envelope s' = Envelope_Reset e \<and>
        written (io s') = w @ (case f cs (peer s) e of Inl err \<Rightarrow> ''451 temporary queue error''
          | Inr qid \<Rightarrow> Codes SuccessMessageQueued @ '' '' @ qid) @ CRLF)"

lemma ReceivedHeader_total:
  assumes "CHR '':'' \<in> set (remote_addr s)" and "\<forall>cs ip. LookupAddr E cs ip \<noteq> Inr []"
    and "ip1 = Split CHR '':'' (remote_addr s) ! 0" and "ip2 = Split CHR '':'' (local_addr s) ! 0"
    and "s1 = s\<lparr>calls := calls s @ [CallLookupAddr ip1, CallLookupAddr ip2]\<rparr>"
  shows "\<exists>h1 h2. ReceivedHeader E s =
    Inr (wrap (received_text E s1 h1 ip1 (Split CHR '':'' (remote_addr s) ! 1) ip2 h2), s1)"
proof -
  have two: "2 \<le> length (Split CHR '':'' (remote_addr s))"
    using assms(1) by (simp add: length_Split Suc_le_eq count_list_0_iff flip: neq0_conv)
  have "0 < length (Split CHR '':'' (local_addr s))" by simp
  obtain h1 where h1: "reverse_name E ip1 s = Inr (h1, ask (CallLookupAddr ip1) s)"
    using reverse_name_total assms(2) by blast
  obtain h2 where h2: "reverse_name E ip2 (ask (CallLookupAddr ip1) s) =
      Inr (h2, ask (CallLookupAddr ip2) (ask (CallLookupAddr ip1) s))"
    using reverse_name_total assms(2) by blast
  have s1: "ask (CallLookupAddr ip2) (ask (CallLookupAddr ip1) s) = s1"
    by (simp add: assms(5) ask_def)
  show ?thesis
    using two h1 h2 assms(3,4) s1 by (simp add: ReceivedHeader_def go_nth_def) blast
qed

lemma deliver_total:
  assumes "CHR '':'' \<in> set (remote_addr s)" and "\<forall>cs ip. LookupAddr E cs ip \<noteq> Inr []"
    and "Handler srv = Some f" and "data (envelope s) = Some d" and "headers (envelope s) = []"
  shows "\<exists>s'. deliver E srv s = Inr s' \<and> pending (io s') = pending (io s) \<and>
    (writable (io s) \<longrightarrow> delivered E f d (written (io s)) s s')"
proof -
  define ip1 ip2 where ip: "ip1 = Split CHR '':'' (remote_addr s) ! 0" "ip2 = Split CHR '':'' (local_addr s) ! 0"
  define cs where "cs = calls s @ [CallLookupAddr ip1, CallLookupAddr ip2]"
  define s1 where "s1 = s\<lparr>calls := cs\<rparr>"
  obtain h1 h2 received where rh: "ReceivedHeader E s = Inr (received, s1)"
    "received = wrap (received_text E s1 h1 ip1 (Split CHR '':'' (remote_addr s) ! 1) ip2 h2)"
    using ReceivedHeader_total [OF assms(1,2) ip s1_def [unfolded cs_def]] by blast
  define e0 where "e0 = envelope (stamp E received s1)"
  have e0: "data e0 = Some d" "MailTo e0 = MailTo (envelope s)" "MailFrom e0 = MailFrom (envelope s)"
    "headers e0 = (''Received'', received) # (if Authenticated (peer s)
       then [(''Message-ID'', ''Message-ID: <'' @ itoa (now_Unix E cs) @ ''.'' @ sid s @ ''@'' @ ServerName (peer s) @ ''>'' @ CRLF)]
       else [])"
    using assms(4,5) by (simp_all add: e0_def stamp_frame(2-4) s1_def) (simp add: stamp_def set_header_def Let_def)
  obtain err e where close: "Envelope_Close (ReadMessage E) e0 = Inr (err, e)"
    using e0(1) by (cases "ReadMessage E d"; cases "fst (ReadMessage E d)") (auto simp: Envelope_Close_def)
  define s2 where "s2 = (stamp E received s1)\<lparr>envelope := e, state := sessionStateWaitingForQuit\<rparr>"
  have s2: "calls s2 = cs" "peer s2 = peer s" "io s2 = io s" "envelope s2 = e"
    unfolding s2_def by (subst stamp_frame(1), simp add: s1_def)+
  define reply where "reply = (case f cs (peer s) e of Inl err \<Rightarrow> ''451 temporary queue error''
    | Inr qid \<Rightarrow> Codes SuccessMessageQueued @ '' '' @ qid)"
  have "deliver E srv s = hand_over srv s2"
    using rh(1) close by (simp add: deliver_def e0_def s2_def)
  also have "\<dots> = Inr (Reset (Out [reply] (ask (CallHandler (peer s) e (f cs (peer s) e)) s2)))"
    by (simp add: hand_over_def assms(3) s2 reply_def Let_def split: sum.split)
  finally have d: "deliver E srv s = Inr (Reset (Out [reply] (ask (CallHandler (peer s) e (f cs (peer s) e)) s2)))" .
  have "delivered E f d (written (io s)) s (Reset (Out [reply] (ask (CallHandler (peer s) e (f cs (peer s) e)) s2)))"
    if "writable (io s)"
    unfolding delivered_def using that e0 close s2 rh(2) ip
    by (intro exI [of _ ip1] exI [of _ "Split CHR '':'' (remote_addr s) ! 1"] exI [of _ ip2] exI [of _ h1] exI [of _ h2]
        exI [of _ cs] exI [of _ e0] exI [of _ err] exI [of _ e]) (simp add: cs_def s1_def reply_def)
  with d s2(3) show ?thesis by simp
qed

text \<open>The session after the read loop hands over what the session at DATA would.\<close>

lemma delivered_from:
  assumes "delivered E f content w (t\<lparr>io := b, envelope := e\<rparr>) s'" and "t = getting_data s"
    and "MailTo e = MailTo (envelope s)" and "MailFrom e = MailFrom (envelope s)"
  shows "delivered E f content w s s'"
proof -
  have "received_text E (t\<lparr>io := b, envelope := e, calls := cs\<rparr>) = received_text E (s\<lparr>calls := cs\<rparr>)" for cs
    by (intro ext) (simp add: received_text_def assms(2) getting_data_def)
  moreover have "sid t = sid s" by (simp add: assms(2) getting_data_def)
  ultimately show ?thesis
    using assms(1,3,4) unfolding delivered_def by (simp add: assms(2) getting_data_frame cong: if_cong split del: if_split)
qed

lemma deliver_ready:
  assumes "headers (envelope s) = []" and "writable (io s)" and "CHR '':'' \<in> set (remote_addr s)"
    and "\<forall>cs ip. LookupAddr E cs ip \<noteq> Inr []" and "Handler srv = Some f" and "continues (io (getting_data s)) rest b"
  shows "\<exists>s'. deliver E srv ((getting_data s)\<lparr>io := b, envelope := (envelope (getting_data s))\<lparr>data := Some d\<rparr>\<rparr>) = Inr s' \<and>
    pending (io s') = rest \<and> delivered E f d (written (io s) @ Codes SuccessDataCmd @ CRLF) s s'"
proof -
  let ?s = "(getting_data s)\<lparr>io := b, envelope := (envelope (getting_data s))\<lparr>data := Some d\<rparr>\<rparr>"
  have "CHR '':'' \<in> set (remote_addr ?s)" "headers (envelope ?s) = []" "data (envelope ?s) = Some d"
    using assms(1,3) by (simp_all add: getting_data_frame getting_data_def)
  from deliver_total [OF this(1) assms(4,5) this(3,2)] show ?thesis
    using assms(2,6) delivered_from [OF _ refl] by (auto simp: getting_data_frame continues_def)
qed

lemma delivered_reset:
  assumes "delivered E f content w s s'"
  shows "MailTo (envelope s') = []" and "MailFrom (envelope s') = None" and "data (envelope s') = Some []"
    and "headers (envelope s') = []"
  using assms by (auto simp: delivered_def Envelope_Reset_eq dest: Envelope_Close_frame(3))

section \<open>Properties of DATA and BDAT\<close>

text \<open>
  C3: A DATA command on a session that is ready for it, followed by lines ended by CRLF, none
  of which is a lone dot up to white space and whose counted size is strictly below the limit,
  and by the final dot: the delivery function is called exactly once, with the recipients and
  the sender of the envelope, the trace header and (for an authenticated peer) the message
  identifier, and what \<open>Close\<close> makes of the lines in order, each without its surrounding
  white space and ended by CRLF (an error of \<open>Close\<close> is ignored). The client is sent the
  go-ahead reply and then the outcome; state and envelope are reset and the session continues
  right after the dot.
\<close>

theorem data_roundtrip:
  assumes "bodyType s \<noteq> ''BINARYMIME''" and "MailTo (envelope s) \<noteq> []" and "state s = sessionStateReadyForData"
    and "headers (envelope s) = []"
    and "pending (io s) = concat (map (\<lambda>l. l @ CRLF) ls) @ ''.'' @ CRLF @ rest" and "message_lines ls"
    and "data_size ls < MsgSize (srv_Limits srv)" and "MsgSize (srv_Limits srv) \<le> max_int64"
    and "writable (io s)" and "CHR '':'' \<in> set (remote_addr s)"
    and "\<forall>cs ip. LookupAddr E cs ip \<noteq> Inr []" and "Handler srv = Some f"
  shows "\<exists>s'. handleData E srv cmd s = Inr s' \<and> pending (io s') = rest \<and>
    delivered E f (concat (map (\<lambda>l. TrimSpace (l @ CRLF) @ CRLF) ls)) (written (io s) @ Codes SuccessDataCmd @ CRLF) s s' \<and>
    MailTo (envelope s') = [] \<and> MailFrom (envelope s') = None \<and> data (envelope s') = Some [] \<and> headers (envelope s') = []"
proof -
  let ?g = "getting_data s"
  obtain b where b: "data_loop (MsgSize (srv_Limits srv)) 0 ?g = Inr (Inr (data_size ls,
      ?g\<lparr>io := b, envelope := (envelope ?g)\<lparr>data := Some (data_content ls)\<rparr>\<rparr>))" "continues (io ?g) rest b"
    using data_loop_message [of ?g ls rest "[]" "MsgSize (srv_Limits srv)"] assms(5-8)
    by (auto simp: getting_data_frame)
  have "handleData E srv cmd s = deliver E srv (?g\<lparr>io := b, envelope := (envelope ?g)\<lparr>data := Some (data_content ls)\<rparr>\<rparr>)"
    using handleData_ready [OF assms(1-3)] b(1) assms(7) by simp
  with deliver_ready [OF assms(4,9-12) b(2)] show ?thesis
    using delivered_reset by (fastforce simp: data_content_def)
qed

text \<open>
  C4: When the counted size reaches the limit exactly with a line, DATA stops reading there and
  delivers what it has: the final dot of the client is not read, and everything after that
  line is what the session reads next, as commands.
\<close>

theorem data_at_limit:
  assumes "bodyType s \<noteq> ''BINARYMIME''" and "MailTo (envelope s) \<noteq> []" and "state s = sessionStateReadyForData"
    and "headers (envelope s) = []"
    and "pending (io s) = concat (map (\<lambda>l. l @ CRLF) (ls @ [l])) @ rest" and "message_lines (ls @ [l])"
    and "data_size ls < MsgSize (srv_Limits srv)" and "data_size (ls @ [l]) = MsgSize (srv_Limits srv)"
    and "MsgSize (srv_Limits srv) \<le> max_int64"
    and "writable (io s)" and "CHR '':'' \<in> set (remote_addr s)"
    and "\<forall>cs ip. LookupAddr E cs ip \<noteq> Inr []" and "Handler srv = Some f"
  shows "\<exists>s'. handleData E srv cmd s = Inr s' \<and> pending (io s') = rest \<and>
    delivered E f (concat (map (\<lambda>l. TrimSpace (l @ CRLF) @ CRLF) (ls @ [l]))) (written (io s) @ Codes SuccessDataCmd @ CRLF) s s'"
proof -
  let ?g = "getting_data s"
  obtain b where b: "data_loop (MsgSize (srv_Limits srv)) 0 ?g = data_loop (MsgSize (srv_Limits srv)) (data_size (ls @ [l]))
      (?g\<lparr>io := b, envelope := (envelope ?g)\<lparr>data := Some (data_content (ls @ [l]))\<rparr>\<rparr>)" "continues (io ?g) rest b"
    using data_loop_consume [of ?g "ls @ [l]" rest "[]" 0 "MsgSize (srv_Limits srv)"] assms(5-9)
    by (auto simp: getting_data_frame)
  have "handleData E srv cmd s = deliver E srv (?g\<lparr>io := b, envelope := (envelope ?g)\<lparr>data := Some (data_content (ls @ [l]))\<rparr>\<rparr>)"
    using handleData_ready [OF assms(1-3)] b(1) assms(8) by (simp add: data_loop_eqs(1))
  with deliver_ready [OF assms(4,10-13) b(2)] show ?thesis
    by (auto simp: data_content_def)
qed

text \<open>
  C18: When the counted size passes the limit with a line, DATA stops reading right there,
  answers that the message is too big and calls nobody; it leaves the session in the state
  of receiving data, and the rest of the message is what the session reads next, as commands.
\<close>

theorem data_oversize:
  assumes "bodyType s \<noteq> ''BINARYMIME''" and "MailTo (envelope s) \<noteq> []" and "state s = sessionStateReadyForData"
    and "pending (io s) = concat (map (\<lambda>l. l @ CRLF) (ls @ [l])) @ rest" and "message_lines (ls @ [l])"
    and "data_size ls < MsgSize (srv_Limits srv)" and "MsgSize (srv_Limits srv) < data_size (ls @ [l])"
    and "data_size (ls @ [l]) \<le> max_int64" and "writable (io s)"
  shows "\<exists>s'. handleData E srv cmd s = Inr s' \<and> calls s' = calls s \<and> state s' = sessionStateGettingData \<and>
    pending (io s') = rest \<and>
    written (io s') = written (io s) @ Codes SuccessDataCmd @ CRLF @ Codes FailTooBig @ CRLF"
proof -
  let ?g = "getting_data s"
  obtain b where b: "data_loop (MsgSize (srv_Limits srv)) 0 ?g = data_loop (MsgSize (srv_Limits srv)) (data_size (ls @ [l]))
      (?g\<lparr>io := b, envelope := (envelope ?g)\<lparr>data := Some (data_content (ls @ [l]))\<rparr>\<rparr>)" "continues (io ?g) rest b"
    using data_loop_consume [of ?g "ls @ [l]" rest "[]" 0 "MsgSize (srv_Limits srv)"] assms(4-8)
    by (auto simp: getting_data_frame)
  then show ?thesis
    using handleData_ready [OF assms(1-3)] assms(7,9)
    by (simp add: data_loop_eqs(1) continues_def getting_data_frame)
qed

text \<open>BDAT calls nobody outside, the command that carries LAST included.\<close>

lemma bdat_never_delivers:
  assumes "handleBdat E srv cmd s = Inr s'"
  shows "calls s' = calls s"
  using assms
  by (cases rule: handleBdat_cases) (auto elim!: finish_bdat_cases)

text \<open>The read of a chunk returns what is buffered: a chunk that is only partly there ends the session.\<close>

lemma bdat_short_read:
  assumes "length (rbuf (io s)) < n" and "int n \<le> maxAlloc E" and "rbuf (io s) \<noteq> []" and "writable (io s)"
  shows "\<exists>s'. bdat_chunk E is_last (int n) s = Inr s' \<and> state s' = sessionStateAborted \<and> envelope s' = envelope s \<and>
    written (io s') = written (io s) @ Codes FailReadErrorDataCmd @ ''%!(EXTRA <nil>)'' @ CRLF"
proof -
  have "writable ((io s)\<lparr>rbuf := x\<rparr>)" for x
    using assms(4) by (simp add: writable_def)
  then show ?thesis
    using assms by (auto simp: bdat_chunk_def bufio_Read_def Sprintf_extra_def Let_def)
qed

lemma bdat_chunk_read:
  assumes "rbuf (io s) = chunk @ rest" and "length chunk = n" and "int n \<le> maxAlloc E" and "data (envelope s) = Some d"
  shows "bdat_chunk E is_last (int n) s =
    finish_bdat E is_last (int n) (s\<lparr>io := (io s)\<lparr>rbuf := rest\<rparr>, envelope := (envelope s)\<lparr>data := Some (d @ chunk)\<rparr>\<rparr>)"
proof -
  have "(io s)\<lparr>rbuf := chunk @ rest\<rparr> = io s" by (simp flip: assms(1))
  then have "bufio_Read n (io s) = (Inr chunk, (io s)\<lparr>rbuf := rest\<rparr>)"
    using assms(1,2) by (auto simp: bufio_Read_def)
  then show ?thesis
    using assms(2-4) by (simp add: bdat_chunk_def Envelope_Write_def Let_def)
qed

text \<open>
  C19: BDAT with a size the run-time system can allocate, outside the state after BDAT LAST,
  when the bytes of the chunk are already buffered behind the command: exactly those bytes are
  appended to the message and the next command is read right after them. A chunk that is not
  the last one is answered with its size. The last one (LAST in any letter case, or size zero)
  is answered with the size of the whole message; then the message is parsed and the session
  is in the state after BDAT LAST.
\<close>

theorem bdat_chunk_stored:
  assumes "state s \<noteq> sessionStateDataDone" and "arguments cmd = a # as" and "ParseInt a = Some (int n)"
    and "int n \<le> maxAlloc E" and "rbuf (io s) = chunk @ rest" and "length chunk = n"
    and "data (envelope s) = Some d" and "writable (io s)"
    and "is_last \<longleftrightarrow> (as \<noteq> [] \<and> ToUpper (unicode_ToUpper E) (hd as) = ''LAST'') \<or> n = 0"
  shows "\<exists>s'. handleBdat E srv cmd s = Inr s' \<and> rbuf (io s') = rest \<and> net (io s') = net (io s) \<and>
    (if is_last
     then state s' = sessionStateDataDone \<and>
       (\<exists>err. Envelope_Close (ReadMessage E) ((envelope s)\<lparr>data := Some (d @ chunk)\<rparr>) = Inr (err, envelope s')) \<and>
       written (io s') = written (io s) @ ''250 BDAT ok, BDAT finished, '' @ itoa (int (length (d @ chunk))) @ '' octets received'' @ CRLF
     else state s' = state s \<and> envelope s' = (envelope s)\<lparr>data := Some (d @ chunk)\<rparr> \<and>
       written (io s') = written (io s) @ ''250 BDAT ok, '' @ itoa (int n) @ '' octets received'' @ CRLF)"
proof -
  let ?s = "s\<lparr>io := (io s)\<lparr>rbuf := rest\<rparr>, envelope := (envelope s)\<lparr>data := Some (d @ chunk)\<rparr>\<rparr>"
  have "handleBdat E srv cmd s = finish_bdat E is_last (int n) ?s"
    using assms(1-3,9) bdat_chunk_read [OF assms(5,6,4,7)] by (cases as) (simp_all add: handleBdat_def)
  moreover have w: "writable ((io s)\<lparr>rbuf := rest\<rparr>)"
    using assms(8) by (simp add: writable_def)
  moreover obtain err e where "Envelope_Close (ReadMessage E) ((envelope s)\<lparr>data := Some (d @ chunk)\<rparr>) = Inr (err, e)"
    by (cases "ReadMessage E (d @ chunk)"; cases "fst (ReadMessage E (d @ chunk))") (auto simp: Envelope_Close_def)
  ultimately show ?thesis
    by (simp add: finish_bdat_def)
qed

theorem bdat_chunk_stored_witness:
  "\<exists>s'. handleBdat ex_env ex_srv \<lparr>commandCode = bdatCmd, verb = ''BDAT'', cmd_data = ''BDAT 5 LAST'', arguments = [''5'', ''LAST'']\<rparr>
      ((ex_session [] [] sessionStateGotMail NewEnvelope True [])\<lparr>io := (NewReadWriter [] None)\<lparr>rbuf := ''hello'' @ ''RSET''\<rparr>\<rparr>) = Inr s' \<and>
    rbuf (io s') = ''RSET'' \<and> state s' = sessionStateDataDone"
proof -
  let ?s = "(ex_session [] [] sessionStateGotMail NewEnvelope True [])\<lparr>io := (NewReadWriter [] None)\<lparr>rbuf := ''hello'' @ ''RSET''\<rparr>\<rparr>"
  let ?cmd = "\<lparr>commandCode = bdatCmd, verb = ''BDAT'', cmd_data = ''BDAT 5 LAST'', arguments = [''5'', ''LAST'']\<rparr>"
  have "ParseInt ''5'' = Some (int 5)"
    by (simp add: ParseInt_def digit_val_def)
  then show ?thesis
    using bdat_chunk_stored [of ?s ?cmd "''5''" "[''LAST'']" 5 ex_env "''hello''" "''RSET''" "[]" True ex_srv]
    by (auto simp: ex_session_def NewReadWriter_def writable_def NewEnvelope_def ex_env_def ToUpper_fixed)
qed

lemma finish_bdat_total:
  "data (envelope s) \<noteq> None \<Longrightarrow> finish_bdat E is_last n s \<noteq> Inl p"
  by (auto simp: finish_bdat_def Envelope_Close_def Let_def split: option.split prod.split sum.split)

lemma bdat_chunk_panics_iff:
  assumes "data (envelope s) \<noteq> None"
  shows "(\<exists>p. bdat_chunk E is_last n s = Inl p) \<longleftrightarrow> n < 0 \<or> maxAlloc E < n"
proof (cases "n < 0 \<or> maxAlloc E < n")
  case True
  then show ?thesis by (auto simp: bdat_chunk_def)
next
  case False
  obtain r b where rb: "bufio_Read (nat n) (io s) = (r, b)" by fastforce
  from assms obtain d where d: "data (envelope s) = Some d" by blast
  have "finish_bdat E is_last n (s\<lparr>io := b, envelope := (envelope s)\<lparr>data := Some x\<rparr>\<rparr>) \<noteq> Inl p" for x p
    by (rule finish_bdat_total) simp
  then show ?thesis
    using False rb d by (cases r) (auto simp: bdat_chunk_def Envelope_Write_def Let_def split: if_splits)
qed

text \<open>
  C20: BDAT panics exactly when the session is not after BDAT LAST and its first argument is
  a number that is negative or larger than the largest slice that can be allocated, provided
  the envelope has its buffer (which is part of the session invariant).
\<close>

theorem bdat_panics_iff:
  assumes "data (envelope s) \<noteq> None"
  shows "(\<exists>p. handleBdat E srv cmd s = Inl p) \<longleftrightarrow>
    state s \<noteq> sessionStateDataDone \<and>
    (\<exists>a as n. arguments cmd = a # as \<and> ParseInt a = Some n \<and> (n < 0 \<or> maxAlloc E < n))"
  using bdat_chunk_panics_iff [OF assms]
  by (auto simp: handleBdat_def Let_def split: list.split option.split)

theorem bdat_panics_iff_witness:
  "\<exists>p. handleBdat ex_env ex_srv \<lparr>commandCode = bdatCmd, verb = ''BDAT'', cmd_data = ''BDAT -1'', arguments = [''-1'']\<rparr>
     (ex_session [] [] sessionStateInit NewEnvelope True []) = Inl p"
proof -
  have "ParseInt ''-1'' = Some (- 1)" by (simp add: ParseInt_def digit_val_def)
  moreover have "data (envelope (ex_session [] [] sessionStateInit NewEnvelope True [])) \<noteq> None"
    "state (ex_session [] [] sessionStateInit NewEnvelope True []) \<noteq> sessionStateDataDone"
    by (simp_all add: ex_session_def NewEnvelope_def)
  ultimately show ?thesis
    using bdat_panics_iff [of "ex_session [] [] sessionStateInit NewEnvelope True []" ex_env ex_srv
        "\<lparr>commandCode = bdatCmd, verb = ''BDAT'', cmd_data = ''BDAT -1'', arguments = [''-1'']\<rparr>"] by simp
qed

end
