(* ===== verification/Serve.thy ===== *)
theory Serve
  imports Auth Mail Data
begin

text \<open>
  The main loop of a session: the table of handlers, one round of \<open>Serve\<close>, the loop as a
  total function, and the loop heads it passes as an inductive relation. Every round that
  does not switch to TLS consumes input and TLS is switched on at most once, which is the
  termination argument. The contract \<open>session_handler\<close> of each handler gives the
  invariant of the loop.
\<close>

section \<open>The model\<close>

definition handlers :: "handler list" where
  "handlers =
     [handleHelo, handleEhlo, handleQuit, handleRset, handleNoop, handleMail, handleRcpt,
      handleData, handleStartTLS, handleVrfy, handleExpn, handleHelp, handleAuth, handleBdat]"

text \<open>One round of the loop: \<open>Inl\<close> when it was left, \<open>Inr\<close> when it goes on.\<close>

definition serve_step :: "env \<Rightarrow> Server \<Rightarrow> session \<Rightarrow> (session + session) go" where
  "serve_step E srv s =
     (if BadCmds (srv_Limits srv) \<le> badCommandsCount s
      then Inr (Inl (abort (Out [Codes FailMaxUnrecognizedCmd] s)))
      else go_bind (ReadLine s) (\<lambda>(line, s1).
        case line of
          Inl err \<Rightarrow> Inr (Inl s1)
        | Inr l \<Rightarrow>
            (case parseCommand (unicode_ToUpper E) (TrimRight l) of
               Inl err \<Rightarrow> Inr (Inr (bad_command (Out [Codes FailUnrecognizedCmd] s1)))
             | Inr cmd \<Rightarrow>
                 if state s1 = sessionStateWaitingForQuit \<and> commandCode cmd \<noteq> quitCmd
                 then Inr (Inr (bad_command (Out [Codes FailBadSequence] s1)))
                 else go_bind (go_nth handlers (commandCode cmd)) (\<lambda>h.
                   go_bind (h E srv cmd s1) (\<lambda>s2.
                     if state s2 = sessionStateAborted then Inr (Inl s2) else Inr (Inr s2))))))"

section \<open>Every handler meets the contract\<close>

lemma handlers_contract: "h \<in> set handlers \<Longrightarrow> session_handler h"
  unfolding handlers_def
  using helo.session_handler_axioms ehlo.session_handler_axioms quit.session_handler_axioms
    rset.session_handler_axioms noop.session_handler_axioms mail.session_handler_axioms
    rcpt.session_handler_axioms data.session_handler_axioms starttls.session_handler_axioms
    vrfy.session_handler_axioms expn.session_handler_axioms helps.session_handler_axioms
    auth.session_handler_axioms bdat.session_handler_axioms
  by auto

lemma serve_step_cases:
  assumes "serve_step E srv s = Inr r"
  obtains (limit) "BadCmds (srv_Limits srv) \<le> badCommandsCount s"
      "r = Inl (abort (Out [Codes FailMaxUnrecognizedCmd] s))"
  | (closed) err s1 where "badCommandsCount s < BadCmds (srv_Limits srv)"
      "ReadLine s = Inr (Inl err, s1)" "r = Inl s1"
  | (bad) l s1 m where "badCommandsCount s < BadCmds (srv_Limits srv)"
      "ReadLine s = Inr (Inr l, s1)" "r = Inr (bad_command (Out m s1))"
  | (handled) l s1 h cmd s2 where "badCommandsCount s < BadCmds (srv_Limits srv)"
      "ReadLine s = Inr (Inr l, s1)" "parseCommand (unicode_ToUpper E) (TrimRight l) = Inr cmd"
      "h \<in> set handlers" "h = handlers ! commandCode cmd" "h E srv cmd s1 = Inr s2"
      "r = (if state s2 = sessionStateAborted then Inl s2 else Inr s2)"
proof (cases "BadCmds (srv_Limits srv) \<le> badCommandsCount s")
  case True
  with assms that(1) show thesis by (simp add: serve_step_def)
next
  case False
  then have b: "badCommandsCount s < BadCmds (srv_Limits srv)" by simp
  from False assms obtain line s1 where rl: "ReadLine s = Inr (line, s1)"
    by (auto simp: serve_step_def go_bind_Inr_conv)
  show thesis
  proof (cases line)
    case (Inl err)
    with False rl assms that(2) [OF b] show thesis by (auto simp: serve_step_def)
  next
    case (Inr l)
    show thesis
    proof (cases "\<exists>m. r = Inr (bad_command (Out m s1))")
      case True
      with rl Inr that(3) [OF b] show thesis by blast
    next
      case bad: False
      then obtain cmd where cmd: "parseCommand (unicode_ToUpper E) (TrimRight l) = Inr cmd"
        using assms False rl Inr
        by (cases "parseCommand (unicode_ToUpper E) (TrimRight l)") (auto simp: serve_step_def)
      obtain s2 where "commandCode cmd < length handlers" "(handlers ! commandCode cmd) E srv cmd s1 = Inr s2"
        "r = (if state s2 = sessionStateAborted then Inl s2 else Inr s2)"
        using assms False rl Inr bad cmd
        by (auto simp: serve_step_def go_bind_Inr_conv go_nth_Inr_conv split: if_splits)
      with rl Inr cmd that(4) [OF b] show thesis by (metis nth_mem)
    qed
  qed
qed

text \<open>What a round does, in terms of the contract.\<close>

definition after :: "session + session \<Rightarrow> session" where
  "after r = (case r of Inl s \<Rightarrow> s | Inr s \<Rightarrow> s)"

lemma after_simps [simp]: "after (Inl s) = s" "after (Inr s) = s" "after (if b then Inl s else Inr s) = s"
  by (simp_all add: after_def)

lemma serve_step_inv:
  assumes "session_inv srv s" and "serve_step E srv s = Inr r"
  shows "session_inv srv (after r)"
  using assms(2)
proof (cases rule: serve_step_cases)
  case (handled l s1 h cmd s2)
  with session_handler.keeps_inv [OF handlers_contract [OF handled(4)] inv_ReadLine [OF assms(1) handled(2)] handled(6)]
  show ?thesis by simp
qed (use assms(1) in \<open>auto intro!: inv_intros intro: inv_ReadLine\<close>)

lemma serve_step_evolves:
  assumes "serve_step E srv s = Inr r"
  shows "evolves s (after r)"
  using assms
proof (cases rule: serve_step_cases)
  case (handled l s1 h cmd s2)
  with session_handler.evolves [OF handlers_contract [OF handled(4)] handled(6)] evolves_ReadLine [OF handled(2)]
  show ?thesis by (auto intro: evolves_trans)
qed (auto dest: evolves_ReadLine)

lemma serve_step_counts:
  assumes "serve_step E srv s = Inr r"
  shows "counts s (after r)"
  using assms
proof (cases rule: serve_step_cases)
  case (handled l s1 h cmd s2)
  with session_handler.counts [OF handlers_contract [OF handled(4)] handled(6)] show ?thesis
    by (simp add: counts_def ReadLine_frame)
qed (auto simp: counts_def ReadLine_frame)

text \<open>A round after which the loop goes on has read a line, or switched to TLS.\<close>

definition serve_measure :: "(session \<times> session) set" where
  "serve_measure = measures [\<lambda>s. if tls s then 0 else 1, \<lambda>s. input_size (io s)]"

lemma serve_step_progress:
  assumes "serve_step E srv s = Inr (Inr s')"
  shows "(s', s) \<in> serve_measure"
  using assms
proof (cases rule: serve_step_cases)
  case (bad l s1 m)
  with ReadLine_Inr(3) [OF bad(2)] show ?thesis
    by (auto simp: serve_measure_def ReadLine_frame)
next
  case (handled l s1 h cmd s2)
  from session_handler.evolves [OF handlers_contract [OF handled(4)] handled(6)] ReadLine_Inr(3) [OF handled(2)]
  show ?thesis
    using handled(7) ReadLine_frame [OF handled(2)]
    by (auto simp: serve_measure_def evolves_def split: if_splits)
qed auto

section \<open>The loop\<close>

function serve_loop :: "env \<Rightarrow> Server \<Rightarrow> session \<Rightarrow> session go" where
  "serve_loop E srv s =
     (case serve_step E srv s of
        Inl p \<Rightarrow> Inl p
      | Inr (Inl s1) \<Rightarrow> Inr s1
      | Inr (Inr s1) \<Rightarrow> serve_loop E srv s1)"
  by pat_completeness auto
termination
  by (relation "inv_image serve_measure (\<lambda>(E, srv, s). s)", simp add: serve_measure_def)
    (auto intro: serve_step_progress)

declare serve_loop.simps [simp del]

text \<open>\<open>session.Serve\<close>; closing the connection at the end is the end of the model.\<close>

definition Serve :: "env \<Rightarrow> Server \<Rightarrow> session \<Rightarrow> session go" where
  "Serve E srv s = serve_loop E srv (handleWelcome s)"

section \<open>Loop heads\<close>

text \<open>The sessions the loop tests, from the session it starts with.\<close>

inductive reaches :: "env \<Rightarrow> Server \<Rightarrow> session \<Rightarrow> session \<Rightarrow> bool" for E srv s0 where
  start: "reaches E srv s0 s0"
| round: "reaches E srv s0 s \<Longrightarrow> serve_step E srv s = Inr (Inr s') \<Longrightarrow> reaches E srv s0 s'"

lemma reaches_trans: "reaches E srv s1 s2 \<Longrightarrow> reaches E srv s0 s1 \<Longrightarrow> reaches E srv s0 s2"
  by (induction rule: reaches.induct) (auto intro: reaches.round)

lemma reaches_inv: "reaches E srv s0 s \<Longrightarrow> session_inv srv s0 \<Longrightarrow> session_inv srv s"
  by (induction rule: reaches.induct) (auto dest: serve_step_inv)

lemma reaches_evolves: "reaches E srv s0 s \<Longrightarrow> evolves s0 s"
  by (induction rule: reaches.induct) (auto dest!: serve_step_evolves intro: evolves_trans)

text \<open>The loop ends at a loop head, with a panic or by leaving the loop there.\<close>

lemma serve_loop_ends:
  "\<exists>s1. reaches E srv s s1 \<and>
     ((\<exists>p. serve_loop E srv s = Inl p \<and> serve_step E srv s1 = Inl p) \<or>
      (\<exists>s2. serve_loop E srv s = Inr s2 \<and> serve_step E srv s1 = Inr (Inl s2)))"
proof (induction E srv s rule: serve_loop.induct)
  case (1 E srv s)
  show ?case
  proof (cases "serve_step E srv s")
    case (Inl p)
    then have "serve_loop E srv s = Inl p" by (subst serve_loop.simps) simp
    with Inl reaches.start show ?thesis by blast
  next
    case (Inr r)
    show ?thesis
    proof (cases r)
      case (Inl s1)
      with Inr have "serve_loop E srv s = Inr s1" by (subst serve_loop.simps) simp
      with Inr Inl reaches.start show ?thesis by blast
    next
      case r: (Inr s1)
      with Inr have "serve_loop E srv s = serve_loop E srv s1"
        by (subst serve_loop.simps) simp
      moreover have "reaches E srv s s1"
        using Inr r by (auto intro: reaches.intros)
      ultimately show ?thesis
        using "1.IH" [OF Inr r] by (auto intro: reaches_trans)
    qed
  qed
qed

lemma inv_welcome [inv_intros]: "session_inv srv s \<Longrightarrow> session_inv srv (handleWelcome s)"
  by (simp add: handleWelcome_def inv_Out)

lemma Serve_inv:
  assumes "session_inv srv s" and "Serve E srv s = Inr s'"
  shows "session_inv srv s'"
proof -
  obtain s1 where s1: "reaches E srv (handleWelcome s) s1" "serve_step E srv s1 = Inr (Inl s')"
    using serve_loop_ends [of E srv "handleWelcome s"] assms(2) by (auto simp: Serve_def)
  have "session_inv srv s1"
    using reaches_inv [OF s1(1)] inv_welcome [OF assms(1)] by blast
  from serve_step_inv [OF this s1(2)] show ?thesis by simp
qed

text \<open>The counter of bad commands at a loop head.\<close>

lemma reaches_count:
  assumes "reaches E srv s0 s" and "badCommandsCount s0 = 0"
    and "BadCmds (srv_Limits srv) \<le> max_int64"
  shows "0 \<le> badCommandsCount s \<and> (badCommandsCount s = 0 \<or> badCommandsCount s \<le> BadCmds (srv_Limits srv))"
  using assms(1)
proof (induction rule: reaches.induct)
  case start
  with assms(2) show ?case by simp
next
  case (round s s')
  have "badCommandsCount s < BadCmds (srv_Limits srv)"
    using round.hyps(2) by (cases rule: serve_step_cases) auto
  moreover from this round.IH assms(3) have "int64 (badCommandsCount s + 1) = badCommandsCount s + 1"
    by (intro int64_id) auto
  ultimately show ?case
    using serve_step_counts [OF round.hyps(2)] round.IH by (auto simp: counts_def)
qed

section \<open>Dispatch\<close>

text \<open>The commands of the server, with their codes and what carries them out.\<close>

definition verb_handlers :: "(string \<times> nat \<times> handler) list" where
  "verb_handlers =
     [(''HELO'', heloCmd, handleHelo), (''EHLO'', ehloCmd, handleEhlo), (''STARTTLS'', starttlsCmd, handleStartTLS),
      (''AUTH'', authCmd, handleAuth), (''MAIL'', mailCmd, handleMail), (''RCPT'', rcptCmd, handleRcpt),
      (''DATA'', dataCmd, handleData), (''BDAT'', bdatCmd, handleBdat), (''RSET'', rsetCmd, handleRset),
      (''NOOP'', noopCmd, handleNoop), (''VRFY'', vrfyCmd, handleVrfy), (''EXPN'', expnCmd, handleExpn),
      (''HELP'', helpCmd, handleHelp), (''QUIT'', quitCmd, handleQuit)]"

lemma verb_code_handlers: "map_of verb_handlers w = map_option (\<lambda>k. (k, handlers ! k)) (verb_code w)"
  by (simp add: verb_handlers_def verb_code_def handlers_def)

lemma no_argument_verbs: "verb_code w = Some k \<Longrightarrow> k \<in> {rsetCmd, dataCmd, quitCmd} \<longleftrightarrow> w \<in> {''RSET'', ''DATA'', ''QUIT''}"
  by (auto simp: verb_code_def split: if_splits)

text \<open>
  C29: Dispatch. Take a round below the limit of bad commands, outside the state that waits for
  QUIT, that reads a line \<open>v\<close> or \<open>v rest\<close>, where the verb \<open>v\<close> has no space. A 7-bit verb that
  is, in any letter case, one of the fourteen commands runs the handler of that command on the
  arguments between the single spaces of \<open>rest\<close>, and the loop goes on unless the session is
  aborted afterwards. Any other verb, and RSET, DATA and QUIT with anything after the verb, are
  answered as unrecognized, counted as a bad command, and run no handler.
\<close>

theorem dispatch_correct:
  assumes "badCommandsCount s < BadCmds (srv_Limits srv)" and "state s \<noteq> sessionStateWaitingForQuit"
    and "ReadLine s = Inr (Inr l, s1)"
    and "TrimRight l = v @ r" and "CHR '' '' \<notin> set v" and "r = [] \<or> r = CHR '' '' # rest"
  shows "case (if list_all ascii v then map_of verb_handlers (ToUpper (unicode_ToUpper E) v) else None) of
      None \<Rightarrow> serve_step E srv s = Inr (Inr (bad_command (Out [Codes FailUnrecognizedCmd] s1)))
    | Some (k, h) \<Rightarrow>
        if ToUpper (unicode_ToUpper E) v \<in> {''RSET'', ''DATA'', ''QUIT''} \<and> r \<noteq> []
        then serve_step E srv s = Inr (Inr (bad_command (Out [Codes FailUnrecognizedCmd] s1)))
        else serve_step E srv s =
            go_bind (h E srv \<lparr>commandCode = k, verb = v, cmd_data = TrimRight l,
                arguments = (if r = [] then [] else Split CHR '' '' rest)\<rparr> s1)
              (\<lambda>s2. if state s2 = sessionStateAborted then Inr (Inl s2) else Inr (Inr s2))"
proof -
  let ?U = "unicode_ToUpper E"
  let ?args = "if r = [] then [] else Split CHR '' '' rest"
  have p: "parseCommand ?U (v @ r) =
    (if \<not> list_all ascii v then Inl ''command contains non 7-bit ASCII''
     else case verb_code (ToUpper ?U v) of
        None \<Rightarrow> Inl ''unrecognized command''
      | Some c \<Rightarrow> if c \<in> {rsetCmd, dataCmd, quitCmd} \<and> r \<noteq> [] then Inl ''unexpected argument''
          else Inr \<lparr>commandCode = c, verb = v, cmd_data = v @ r, arguments = ?args\<rparr>)"
    using assms(5,6) by (auto simp: parseCommand_bare parseCommand_args split: option.split)
  have st: "state s1 = state s" using ReadLine_frame [OF assms(3)] by simp
  show ?thesis
  proof (cases "list_all ascii v \<and> verb_code (ToUpper ?U v) \<noteq> None")
    case True
    then obtain k where k: "verb_code (ToUpper ?U v) = Some k" "list_all ascii v" by blast
    then have "k < 14" by (rule_tac verb_code_less)
    then show ?thesis
      using assms(1-4) st p k no_argument_verbs [OF k(1)]
      by (auto simp: serve_step_def verb_code_handlers go_nth_def handlers_def)
  next
    case False
    then show ?thesis
      using assms(1-4) p by (auto simp: serve_step_def verb_code_handlers)
  qed
qed

theorem dispatch_correct_witness:
  "serve_step ex_env ex_srv (ex_session [Chunk (''qUiT'' @ CRLF)] [] sessionStateInit NewEnvelope True []) =
     go_bind (handleQuit ex_env ex_srv \<lparr>commandCode = quitCmd, verb = ''qUiT'', cmd_data = ''qUiT'', arguments = []\<rparr>
       (ex_session [] [] sessionStateInit NewEnvelope True []))
       (\<lambda>s2. if state s2 = sessionStateAborted then Inr (Inl s2) else Inr (Inr s2))"
proof -
  let ?s = "\<lambda>es. ex_session es [] sessionStateInit NewEnvelope True []"
  have "TrimRight ''qUiT'' = ''qUiT''" by (simp add: TrimRight_word graphic_def)
  moreover have "ToUpper (unicode_ToUpper ex_env) ''qUiT'' = ''QUIT''" "list_all ascii ''qUiT''" by code_simp+
  moreover have "map_of verb_handlers ''QUIT'' = Some (quitCmd, handleQuit)" by (simp add: verb_handlers_def)
  moreover have "badCommandsCount (?s es) < BadCmds (srv_Limits ex_srv)" "state (?s es) \<noteq> sessionStateWaitingForQuit" for es
    by (simp_all add: ex_session_def ex_srv_def NewServer_def DefaultLimits_def)
  moreover have "ReadLine (?s [Chunk (''qUiT'' @ CRLF)]) = Inr (Inr ''qUiT'', ?s [])"
    by (rule ex_ReadLine) simp_all
  ultimately show ?thesis
    using dispatch_correct [of "?s [Chunk (''qUiT'' @ CRLF)]" ex_srv "''qUiT''" "?s []" "''qUiT''" "[]" "[]" ex_env]
    by simp
qed

end
