(* ===== verification/Listener.thy ===== *)
theory Listener
  imports Serve
begin

text \<open>
  The listening half of \<open>server.go\<close>: \<open>newSession\<close>, the accept loop \<open>Server.Serve\<close>
  and \<open>ListenAndServe\<close>. A listener is the list of the results of its \<open>Accept\<close>; when
  the list is used up the server waits. The random identifiers of \<open>go-nanoid\<close> are a
  parameter, and so are the two ways of opening a listener. Every session runs in its own
  goroutine on its own state (the server record is only read), so the accept loop is modelled
  by the sessions it starts; each of them then runs \<open>Serve\<close>.
\<close>

section \<open>The model\<close>

record conn =
  RemoteAddr :: string
  LocalAddr :: string
  tls_Conn :: "tls_state option"
  conn_net :: "netread list"
  conn_cap :: "nat option"

text \<open>An unlisted field of a Go struct literal has its zero value.\<close>

definition zero_Peer :: Peer where
  "zero_Peer = \<lparr>HeloName = [], HeloType = [], Protocol = [], ServerName = [], Username = [],
     Authenticated = False, Addr = [], TLS = None\<rparr>"

definition newSession :: "go_error + string \<Rightarrow> Server \<Rightarrow> conn \<Rightarrow> session go" where
  "newSession nanoid srv c =
     (case nanoid of
        Inl err \<Rightarrow> Inl PanicCalled
      | Inr i \<Rightarrow>
          let s = \<lparr>sid = i, remote_addr = RemoteAddr c, local_addr = LocalAddr c,
                   io = NewReadWriter (conn_net c) (conn_cap c), envelope = NewEnvelope,
                   state = sessionStateInit, badCommandsCount = 0, vrfyCount = 0, bodyType = [],
                   peer = zero_Peer\<lparr>Addr := RemoteAddr c, ServerName := Hostname srv\<rparr>,
                   tls = (tls_Conn c \<noteq> None), tlsState = zero_tls_state, helloType = 0,
                   helloHost = [], helloSeen = False, calls = []\<rparr>
          in Inr (case tls_Conn c of
                    None \<Rightarrow> s
                  | Some st \<Rightarrow> s\<lparr>peer := (peer s)\<lparr>TLS := Some st\<rparr>\<rparr>))"

text \<open>An accept error says whether it is a temporary \<open>net.Error\<close>.\<close>

datatype accept = Accepted conn | AcceptError bool go_error

text \<open>
  The accept loop: the sessions started and the error it returned, \<open>None\<close> while it waits.
\<close>

fun Server_Serve ::
  "(nat \<Rightarrow> go_error + string) \<Rightarrow> Server \<Rightarrow> nat \<Rightarrow> accept list \<Rightarrow> (session list \<times> go_error option) go" where
  "Server_Serve ids srv n [] = Inr ([], None)"
| "Server_Serve ids srv n (AcceptError temporary err # ln) =
     (if temporary then Server_Serve ids srv n ln else Inr ([], Some err))"
| "Server_Serve ids srv n (Accepted c # ln) =
     go_bind (newSession (ids n) srv c) (\<lambda>s.
       go_bind (Server_Serve ids srv (n + 1) ln) (\<lambda>(ss, r). Inr (s # ss, r)))"

text \<open>\<open>listenTLS\<close> and \<open>listen\<close> are \<open>tls.Listen\<close> and \<open>net.Listen\<close> on TCP.\<close>

definition ListenAndServe ::
  "(string \<Rightarrow> go_error + accept list) \<Rightarrow> (string \<Rightarrow> go_error + accept list) \<Rightarrow>
   (nat \<Rightarrow> go_error + string) \<Rightarrow> Server \<Rightarrow> (session list \<times> go_error option) go" where
  "ListenAndServe listenTLS listen ids srv =
     (if TLSConfig srv
      then (case listenTLS (srv_Addr srv) of
              Inl err \<Rightarrow> Inr ([], Some err)
            | Inr l \<Rightarrow> Server_Serve ids srv 0 l)
      else (case listen (srv_Addr srv) of
              Inl err \<Rightarrow> Inr ([], Some err)
            | Inr l \<Rightarrow> Server_Serve ids srv 0 l))"

section \<open>New sessions\<close>

lemma newSession_inv: "newSession i srv c = Inr s \<Longrightarrow> session_inv srv s"
  by (auto simp: newSession_def Let_def session_inv_def rcpts_ok_def secure_ok_def zero_Peer_def
      NewEnvelope_def split: sum.splits option.splits)

lemma newSession_frame:
  assumes "newSession i srv c = Inr s"
  shows "badCommandsCount s = 0" and "calls s = []" and "tls s \<longleftrightarrow> tls_Conn c \<noteq> None"
    and "helloSeen s = False" and "Authenticated (peer s) = False"
  using assms by (auto simp: newSession_def Let_def zero_Peer_def split: sum.splits option.splits)

section \<open>The accept loop\<close>

lemma Server_Serve_sessions:
  "Server_Serve ids srv n ln = Inr (ss, r) \<Longrightarrow> s \<in> set ss \<Longrightarrow> \<exists>i k. newSession i srv k = Inr s \<and> Accepted k \<in> set ln"
  by (induction ids srv n ln arbitrary: ss r rule: Server_Serve.induct)
    (fastforce simp: go_bind_Inr_conv split: if_splits)+

lemma started_by_ListenAndServe:
  assumes "ListenAndServe listenTLS listen ids srv = Inr (ss, err)" and "s \<in> set ss"
  shows "\<exists>i k l. newSession i srv k = Inr s \<and> Accepted k \<in> set l \<and>
    (if TLSConfig srv then listenTLS (srv_Addr srv) else listen (srv_Addr srv)) = Inr l"
  using assms Server_Serve_sessions [of ids srv 0 _ ss err s]
  by (auto simp: ListenAndServe_def split: if_splits sum.splits)

text \<open>The connections accepted before the error that ends the accept loop, and that error.\<close>

fun accepted_conns :: "accept list \<Rightarrow> conn list" where
  "accepted_conns [] = []"
| "accepted_conns (Accepted c # ln) = c # accepted_conns ln"
| "accepted_conns (AcceptError temporary err # ln) = (if temporary then accepted_conns ln else [])"

fun final_error :: "accept list \<Rightarrow> go_error option" where
  "final_error [] = None"
| "final_error (Accepted c # ln) = final_error ln"
| "final_error (AcceptError temporary err # ln) = (if temporary then final_error ln else Some err)"

lemma newSession_total: "\<exists>s. newSession (Inr i) srv c = Inr s"
  by (simp add: newSession_def Let_def)

lemma Server_Serve_ok:
  assumes "\<forall>n. \<exists>i. ids n = Inr i"
  shows "\<exists>ss. Server_Serve ids srv n ln = Inr (ss, final_error ln) \<and> length ss = length (accepted_conns ln) \<and>
    (\<forall>k < length ss. newSession (ids (n + k)) srv (accepted_conns ln ! k) = Inr (ss ! k))"
proof (induction ln arbitrary: n rule: accepted_conns.induct)
  case (2 c ln)
  obtain s where s: "newSession (ids n) srv c = Inr s"
    using assms newSession_total by metis
  obtain ss where ss: "Server_Serve ids srv (n + 1) ln = Inr (ss, final_error ln)" "length ss = length (accepted_conns ln)"
    "\<forall>k < length ss. newSession (ids (n + 1 + k)) srv (accepted_conns ln ! k) = Inr (ss ! k)"
    using "2.IH" [of "n + 1"] by blast
  have "newSession (ids (n + k)) srv ((c # accepted_conns ln) ! k) = Inr ((s # ss) ! k)" if "k < length (s # ss)" for k
    using that s ss(3) by (cases k) auto
  with s ss(1,2) show ?case by (intro exI [of _ "s # ss"]) auto
qed auto

text \<open>
  C15: The accept loop. It never panics as long as identifiers can be generated, starts exactly
  one new session per accepted connection, in order, each with its own fresh identifier, goes
  on after every temporary error, and returns the first error that is not temporary.
\<close>

theorem accept_loop:
  assumes "\<forall>n. \<exists>i. ids n = Inr i"
  shows "\<exists>ss. Server_Serve ids srv 0 ln = Inr (ss, final_error ln) \<and> length ss = length (accepted_conns ln) \<and>
    (\<forall>k < length ss. newSession (ids k) srv (accepted_conns ln ! k) = Inr (ss ! k))"
  using Server_Serve_ok [OF assms, of srv 0 ln] by simp

end
