(* ===== verification/Scenario.thy ===== *)
theory Scenario
  imports Listener
begin

text \<open>
  One complete session, from \<open>newSession\<close> to the call of the delivery function, evaluated
  in the kernel: the client sends EHLO, MAIL, a RCPT whose address has an \<open>=\<close> (the only
  addresses RCPT accepts), DATA with one line, and the final dot, each in a segment of its
  own; and a login with AUTH PLAIN on a TLS connection. They show that the hypotheses of the
  properties about reachable sessions, deliveries and logins can be met. The witnesses of the
  properties of DATA, BDAT, RCPT and the accept loop use them too.
\<close>

section \<open>The connection\<close>

definition ex_net :: "netread list" where
  "ex_net = map (\<lambda>l. Chunk (l @ CRLF))
     [''EHLO me'', ''MAIL FROM:<a@b.c>'', ''RCPT TO:<x=y@b.c>'', ''DATA'', ''hello'', ''.'']"

definition ex_conn :: conn where
  "ex_conn = \<lparr>RemoteAddr = ''10.0.0.1:5000'', LocalAddr = ''10.0.0.2:25'', tls_Conn = None,
     conn_net = ex_net, conn_cap = None\<rparr>"

section \<open>The rounds\<close>

lemma ex_round:
  assumes "LF \<notin> set l" and "length l < 4000" and "st \<noteq> sessionStateWaitingForQuit"
    and "parseCommand id (TrimRight l) = Inr cmd" and "commandCode cmd < 14"
    and "(handlers ! commandCode cmd) ex_env ex_srv cmd (ex_session es out st e hello cs) = Inr s'"
    and "state s' \<noteq> sessionStateAborted"
  shows "serve_step ex_env ex_srv (ex_session (Chunk (l @ CRLF) # es) out st e hello cs) = Inr (Inr s')"
proof -
  have "BadCmds (srv_Limits ex_srv) = 5" "unicode_ToUpper ex_env = id"
    by (simp_all add: ex_srv_def NewServer_def DefaultLimits_def ex_env_def)
  moreover have "badCommandsCount (ex_session es out st e hello cs) = 0"
    "state (ex_session es out st e hello cs) = st" for es
    by (simp_all add: ex_session_def)
  ultimately show ?thesis
    using assms by (simp add: serve_step_def ex_ReadLine go_nth_def handlers_def)
qed

lemma verb_codes:
  "verb_code ''EHLO'' = Some ehloCmd" "verb_code ''MAIL'' = Some mailCmd"
  "verb_code ''RCPT'' = Some rcptCmd" "verb_code ''DATA'' = Some dataCmd"
  by (simp_all add: verb_code_def)

lemma ex_parse:
  "parseCommand id (TrimRight ''EHLO me'') = Inr \<lparr>commandCode = ehloCmd, verb = ''EHLO'', cmd_data = ''EHLO me'', arguments = [''me'']\<rparr>"
  "parseCommand id (TrimRight ''MAIL FROM:<a@b.c>'') =
     Inr \<lparr>commandCode = mailCmd, verb = ''MAIL'', cmd_data = ''MAIL FROM:<a@b.c>'', arguments = [''FROM:<a@b.c>'']\<rparr>"
  "parseCommand id (TrimRight ''RCPT TO:<x=y@b.c>'') =
     Inr \<lparr>commandCode = rcptCmd, verb = ''RCPT'', cmd_data = ''RCPT TO:<x=y@b.c>'', arguments = [''TO:<x=y@b.c>'']\<rparr>"
  "parseCommand id (TrimRight ''DATA'') = Inr \<lparr>commandCode = dataCmd, verb = ''DATA'', cmd_data = ''DATA'', arguments = []\<rparr>"
  by (simp_all add: TrimRight_word graphic_def parseCommand_def SplitN2_def verb_codes ToUpper_fixed Let_def)

lemma ex_ehlo:
  "\<exists>out'. handleEhlo ex_env ex_srv \<lparr>commandCode = ehloCmd, verb = ''EHLO'', cmd_data = ''EHLO me'', arguments = [''me'']\<rparr>
     (ex_session es out sessionStateInit NewEnvelope hello cs) = Inr (ex_session es out' sessionStateInit NewEnvelope True cs)"
proof -
  have "(Reset (ex_session es out sessionStateInit NewEnvelope hello cs))
      \<lparr>helloSeen := True, helloType := 1, helloHost := ''me''\<rparr> = ex_session es out sessionStateInit NewEnvelope True cs"
    by (simp add: ex_session_def Reset_def Envelope_Reset_eq NewEnvelope_def)
  with ex_Out show ?thesis
    by (auto simp: handleEhlo_def Let_def check_helo_def ex_srv_def NewServer_def)
qed

lemma ex_mail_args:
  fixes es out hello cs
  defines "s \<equiv> \<lambda>p out st cs. ex_session es out st (NewEnvelope\<lparr>MailFrom := Some ex_from, Priority := p\<rparr>) hello cs"
  assumes "arguments cmd = ''FROM:<a@b.c>'' # args"
    and "mail_exts ex_env args (s 0 out sessionStateInit cs) = Inr (s p out sessionStateInit cs)"
  shows "\<exists>out'. handleMail ex_env ex_srv cmd (ex_session es out sessionStateInit NewEnvelope hello cs) =
     Inr (s p out' sessionStateGotMail (cs @ [CallDNS (Some ex_from) []]))"
proof -
  have r: "Reset (ex_session es out sessionStateInit NewEnvelope hello cs) = ex_session es out sessionStateInit NewEnvelope hello cs"
    by (simp add: ex_session_def Reset_def Envelope_Reset_eq NewEnvelope_def)
  have e: "(ex_session es out sessionStateInit NewEnvelope hello cs)\<lparr>envelope := NewEnvelope\<lparr>MailFrom := Some ex_from\<rparr>\<rparr>
      = s 0 out sessionStateInit cs"
    by (simp add: ex_session_def s_def NewEnvelope_def)
  have f: "\<exists>out'. finish_mail ex_env (s p out sessionStateInit cs) =
      Inr (s p out' sessionStateGotMail (cs @ [CallDNS (Some ex_from) []]))"
    by (simp add: s_def finish_mail_def IsFQN_def hostname_def fqn_def ex_env_def ex_session_def ex_from_def go_nth_def
        ask_def Out_def write_flush_def)
  have "TrimSpace ''FROM:<a@b.c>'' = ''FROM:<a@b.c>''"
    by (simp add: TrimSpace_word graphic_def)
  moreover have "ToLower id ''FROM:<a@b.c>'' = ''from:<a@b.c>''"
    by code_simp
  moreover have "parseAddress (ParseAddress ex_env) ''<a@b.c>'' = Inr ex_from"
    by (simp add: parseAddress_def ex_env_def ex_from_def removeBrackets_def HasPrefix_def HasSuffix_def)
  moreover have "unicode_ToLower ex_env = id" "TLSOnly ex_srv = False" "authMechanisms ex_srv = []" "SenderChecker ex_srv = None"
    by (simp_all add: ex_env_def ex_srv_def NewServer_def)
  moreover have "envelope (ex_session es out sessionStateInit NewEnvelope hello cs) = NewEnvelope"
    by (simp add: ex_session_def)
  moreover have "\<not> IsSet NewEnvelope" by (simp add: IsSet_def NewEnvelope_def)
  ultimately show ?thesis
    using e f assms(2,3) by (simp add: handleMail_def r HasPrefix_def check_sender_def Let_def del: parseAddress_Inr)
qed

lemma ex_mail:
  "\<exists>out'. handleMail ex_env ex_srv \<lparr>commandCode = mailCmd, verb = ''MAIL'', cmd_data = ''MAIL FROM:<a@b.c>'', arguments = [''FROM:<a@b.c>'']\<rparr>
     (ex_session es out sessionStateInit NewEnvelope hello cs) =
     Inr (ex_session es out' sessionStateGotMail (NewEnvelope\<lparr>MailFrom := Some ex_from\<rparr>) hello (cs @ [CallDNS (Some ex_from) []]))"
  using ex_mail_args [of _ "[]" es out hello cs 0] by (simp add: NewEnvelope_def)

lemma ex_rcpt:
  "\<exists>out'. handleRcpt ex_env ex_srv \<lparr>commandCode = rcptCmd, verb = ''RCPT'', cmd_data = ''RCPT TO:<x=y@b.c>'', arguments = [''TO:<x=y@b.c>'']\<rparr>
     (ex_session es out sessionStateGotMail (NewEnvelope\<lparr>MailFrom := a\<rparr>) True cs) =
     Inr (ex_session es out' sessionStateReadyForData (NewEnvelope\<lparr>MailTo := [ex_to]\<rparr>) True (cs @ [CallRcpt ex_peer ex_to None]))"
proof -
  let ?s = "ex_session es out sessionStateGotMail (NewEnvelope\<lparr>MailFrom := a\<rparr>) True cs"
  have rr: "ToUpper U ''TO:<x'' \<noteq> ''RRVS''" for U
    using ToUpper_keeps [of "CHR '':''" "''TO:<x''" U] by auto
  have acc: "\<exists>out'. accept_rcpt ex_env ex_srv [''TO:<x=y@b.c>''] ex_to ?s =
      Inr (ex_session es out' sessionStateReadyForData (NewEnvelope\<lparr>MailTo := [ex_to]\<rparr>) True (cs @ [CallRcpt ex_peer ex_to None]))"
    by (simp add: accept_rcpt_def check_recipient_def ex_srv_def rcpt_ext_def rr finish_rcpt_def AddRecipient_def
        ex_session_def ask_def Out_def write_flush_def Let_def NewEnvelope_def)
  have "TrimSpace ''TO'' = ''TO''" by (simp add: TrimSpace_word graphic_def)
  moreover have "ToUpper U ''TO'' = ''TO''" for U by (simp add: ToUpper_fixed)
  moreover have "ToLower U ''<x=y@b.c>'' = ''<x=y@b.c>''" for U by (simp add: ToLower_fixed)
  moreover have "parseAddress (ParseAddress ex_env) ''<x=y@b.c>'' = Inr ex_to"
    by (simp add: parseAddress_def ex_env_def ex_to_def removeBrackets_def HasPrefix_def HasSuffix_def)
  moreover have "authMechanisms ex_srv = []" by (simp add: ex_srv_def NewServer_def)
  moreover have "helloSeen ?s" "MailTo (envelope ?s) = []" by (simp_all add: ex_session_def NewEnvelope_def)
  ultimately show ?thesis
    using acc by (simp add: handleRcpt_def Let_def DefaultLimits_def del: parseAddress_Inr)
qed

definition ex_ready :: "string \<Rightarrow> call list \<Rightarrow> session" where
  "ex_ready out cs = ex_session [Chunk (''hello'' @ CRLF), Chunk (''.'' @ CRLF)] out
     sessionStateReadyForData (NewEnvelope\<lparr>MailTo := [ex_to]\<rparr>) True cs"

lemma ex_ready_frame:
  "bodyType (ex_ready out cs) = []" "MailTo (envelope (ex_ready out cs)) = [ex_to]"
  "state (ex_ready out cs) = sessionStateReadyForData" "writable (io (ex_ready out cs))"
  "pending (io (ex_ready out cs)) = ''hello'' @ CRLF @ ''.'' @ CRLF"
  "remote_addr (ex_ready out cs) = ''10.0.0.1:5000''" "peer (ex_ready out cs) = ex_peer" "calls (ex_ready out cs) = cs"
  "headers (envelope (ex_ready out cs)) = []"
  by (simp_all add: ex_ready_def ex_session_def NewEnvelope_def writable_def pending_def)

lemma ex_trim: "TrimSpace (CHR ''h'' # CHR ''e'' # CHR ''l'' # CHR ''l'' # CHR ''o'' # CRLF) = ''hello''"
  using TrimSpace_CRLF [of "''hello''"] by (simp add: graphic_def)

lemma ex_lines: "message_lines [''hello'']" "data_size [''hello''] = 5" "data_content [''hello''] = ''hello'' @ CRLF"
  by (simp_all add: message_lines_def ex_trim)

lemma ex_limits: "MsgSize (srv_Limits ex_srv) = 5242880" "BadCmds (srv_Limits ex_srv) = 5"
  by (simp_all add: ex_srv_def NewServer_def DefaultLimits_def)

lemma ex_data:
  "\<exists>s' e cs'. handleData ex_env ex_srv cmd (ex_ready out cs) = Inr s' \<and> state s' = sessionStateInit \<and>
     MailTo e = [ex_to] \<and> calls s' = cs @ cs' @ [CallHandler ex_peer e (Inr ''id1'')]"
proof -
  let ?g = "getting_data (ex_ready out cs)"
  obtain b where b: "data_loop 5242880 0 ?g = Inr (Inr (5,
      ?g\<lparr>io := b, envelope := (envelope ?g)\<lparr>data := Some (''hello'' @ CRLF)\<rparr>\<rparr>))" "continues (io ?g) [] b"
    using data_loop_message [of ?g "[''hello'']" "[]" "[]" 5242880]
    by (auto simp: getting_data_frame ex_ready_frame ex_lines ex_trim max_int64_def)
  let ?s = "?g\<lparr>io := b, envelope := (envelope ?g)\<lparr>data := Some (''hello'' @ CRLF)\<rparr>\<rparr>"
  have "handleData ex_env ex_srv cmd (ex_ready out cs) = deliver ex_env ex_srv ?s"
    using b by (simp add: handleData_ready ex_ready_frame ex_limits)
  moreover have "\<forall>cs ip. LookupAddr ex_env cs ip \<noteq> Inr []" "Handler ex_srv = Some (\<lambda>cs p e. Inr ''id1'')"
    by (simp_all add: ex_env_def ex_srv_def)
  moreover have "headers (envelope ?s) = []" by (simp add: getting_data_def ex_ready_def ex_session_def NewEnvelope_def)
  moreover have "writable (io ?s)" using b(2) by (simp add: continues_def getting_data_frame ex_ready_frame)
  ultimately obtain s' where "handleData ex_env ex_srv cmd (ex_ready out cs) = Inr s'"
    "delivered ex_env (\<lambda>cs p e. Inr ''id1'') (''hello'' @ CRLF) (written (io ?s)) ?s s'"
    using deliver_total [of ?s ex_env ex_srv "\<lambda>cs p e. Inr ''id1''" "''hello'' @ CRLF"]
    by (auto simp: getting_data_frame ex_ready_frame)
  then show ?thesis
    using Envelope_Close_frame(1) by (auto simp: delivered_def getting_data_frame ex_ready_frame)
qed

section \<open>The whole session\<close>

lemma ex_new: "newSession (Inr ''sid'') ex_srv ex_conn = Inr (ex_session ex_net [] sessionStateInit NewEnvelope False [])"
  by (simp add: newSession_def ex_conn_def ex_session_def zero_Peer_def ex_peer_def NewReadWriter_def ex_srv_def NewServer_def)

lemma ex_delivers:
  "\<exists>s0 s cs e. reaches ex_env ex_srv (handleWelcome (ex_session ex_net [] sessionStateInit NewEnvelope False [])) s0 \<and>
     serve_step ex_env ex_srv s0 = Inr (Inr s) \<and> deliveries (calls s0) = [] \<and> state s0 = sessionStateReadyForData \<and>
     MailTo e = [ex_to] \<and> calls s = cs @ [CallHandler ex_peer e (Inr ''id1'')]"
proof -
  let ?n = "\<lambda>ls. map (\<lambda>l. Chunk (l @ CRLF)) ls"
  let ?E = "handleWelcome (ex_session ex_net [] sessionStateInit NewEnvelope False [])"
  obtain o0 where s0: "?E = ex_session ex_net o0 sessionStateInit NewEnvelope False []"
    using ex_Out unfolding handleWelcome_def by blast
  define es1 where "es1 = tl ex_net"
  define es2 where "es2 = tl es1"
  define es3 where "es3 = tl es2"
  have es: "ex_net = Chunk (''EHLO me'' @ CRLF) # es1" "es1 = Chunk (''MAIL FROM:<a@b.c>'' @ CRLF) # es2"
    "es2 = Chunk (''RCPT TO:<x=y@b.c>'' @ CRLF) # es3"
    "es3 = Chunk (''DATA'' @ CRLF) # [Chunk (''hello'' @ CRLF), Chunk (''.'' @ CRLF)]"
    by (simp_all add: es1_def es2_def es3_def ex_net_def)
  have st: "state (ex_session es out st e hello cs) = st" for es out st e hello cs
    by (simp add: ex_session_def)
  obtain o1 where r1: "serve_step ex_env ex_srv (ex_session ex_net o0 sessionStateInit NewEnvelope False []) = Inr (Inr (ex_session es1 o1 sessionStateInit NewEnvelope True []))"
    using ex_ehlo [of es1 o0 False "[]"] ex_round [OF _ _ _ ex_parse(1), of sessionStateInit es1 o0 NewEnvelope False "[]"]
    unfolding es(1) by (auto simp: handlers_def st)
  obtain o2 where r2: "serve_step ex_env ex_srv (ex_session es1 o1 sessionStateInit NewEnvelope True []) =
      Inr (Inr (ex_session es2 o2 sessionStateGotMail (NewEnvelope\<lparr>MailFrom := Some ex_from\<rparr>) True [CallDNS (Some ex_from) []]))"
    using ex_mail [of es2 o1 True "[]"] ex_round [OF _ _ _ ex_parse(2), of sessionStateInit es2 o1 NewEnvelope True "[]"]
    unfolding es(2) by (auto simp: handlers_def st)
  obtain o3 where r3: "serve_step ex_env ex_srv (ex_session es2 o2 sessionStateGotMail (NewEnvelope\<lparr>MailFrom := Some ex_from\<rparr>) True [CallDNS (Some ex_from) []]) =
      Inr (Inr (ex_session es3 o3 sessionStateReadyForData (NewEnvelope\<lparr>MailTo := [ex_to]\<rparr>) True [CallDNS (Some ex_from) [], CallRcpt ex_peer ex_to None]))"
    using ex_rcpt [of es3 o2 "Some ex_from" "[CallDNS (Some ex_from) []]"]
      ex_round [OF _ _ _ ex_parse(3), of sessionStateGotMail es3 o2 "NewEnvelope\<lparr>MailFrom := Some ex_from\<rparr>" True "[CallDNS (Some ex_from) []]"]
    unfolding es(3) by (auto simp: handlers_def st)
  let ?cs = "[CallDNS (Some ex_from) [], CallRcpt ex_peer ex_to None]"
  obtain s4 e cs' where s4: "handleData ex_env ex_srv \<lparr>commandCode = dataCmd, verb = ''DATA'', cmd_data = ''DATA'', arguments = []\<rparr> (ex_ready o3 ?cs) = Inr s4"
    "state s4 = sessionStateInit" "MailTo e = [ex_to]" "calls s4 = ?cs @ cs' @ [CallHandler ex_peer e (Inr ''id1'')]"
    using ex_data by blast
  have r4: "serve_step ex_env ex_srv (ex_session es3 o3 sessionStateReadyForData (NewEnvelope\<lparr>MailTo := [ex_to]\<rparr>) True ?cs) = Inr (Inr s4)"
    using s4(1,2) ex_round [OF _ _ _ ex_parse(4)] unfolding es(4) by (simp add: handlers_def ex_ready_def)
  have "reaches ex_env ex_srv ?E (ex_session es3 o3 sessionStateReadyForData (NewEnvelope\<lparr>MailTo := [ex_to]\<rparr>) True ?cs)"
    unfolding s0 by (rule reaches.round [OF reaches.round [OF reaches.round [OF reaches.start r1] r2] r3])
  moreover have "deliveries (calls (ex_session es3 o3 sessionStateReadyForData (NewEnvelope\<lparr>MailTo := [ex_to]\<rparr>) True ?cs)) = []"
    by (simp add: ex_session_def)
  moreover note st
  ultimately show ?thesis using r4 s4(3,4) by (metis append_assoc)
qed


section \<open>Witnesses for DATA, BDAT and RCPT\<close>

theorem data_roundtrip_witness:
  "\<exists>s' e0 err e cs. handleData ex_env ex_srv \<lparr>commandCode = dataCmd, verb = ''DATA'', cmd_data = ''DATA'', arguments = []\<rparr> (ex_ready [] []) = Inr s' \<and>
     data e0 = Some (''hello'' @ CRLF) \<and> MailTo e0 = [ex_to] \<and>
     Envelope_Close (ReadMessage ex_env) e0 = Inr (err, e) \<and>
     calls s' = cs @ [CallHandler ex_peer e (Inr ''id1'')] \<and> pending (io s') = [] \<and> MailTo (envelope s') = []"
proof -
  have "\<forall>cs ip. LookupAddr ex_env cs ip \<noteq> Inr []" "Handler ex_srv = Some (\<lambda>cs p e. Inr ''id1'')"
    by (simp_all add: ex_env_def ex_srv_def)
  then show ?thesis
    using data_roundtrip [of "ex_ready [] []" "[''hello'']" "[]" ex_srv ex_env "\<lambda>cs p e. Inr ''id1''" "\<lparr>commandCode = dataCmd, verb = ''DATA'', cmd_data = ''DATA'', arguments = []\<rparr>"]
    by (auto simp: ex_ready_frame ex_lines ex_trim ex_limits max_int64_def delivered_def) blast
qed

theorem data_at_limit_witness:
  "\<exists>s'. handleData ex_env (ex_srv\<lparr>srv_Limits := DefaultLimits\<lparr>MsgSize := 5\<rparr>\<rparr>) \<lparr>commandCode = dataCmd, verb = ''DATA'', cmd_data = ''DATA'', arguments = []\<rparr> (ex_ready [] []) = Inr s' \<and>
     state s' = sessionStateInit \<and> length (deliveries (calls s')) = 1 \<and> pending (io s') = ''.'' @ CRLF"
proof -
  have "\<forall>cs ip. LookupAddr ex_env cs ip \<noteq> Inr []" "Handler ex_srv = Some (\<lambda>cs p e. Inr ''id1'')"
    by (simp_all add: ex_env_def ex_srv_def)
  then show ?thesis
    using data_at_limit [of "ex_ready [] []" "[]" "''hello''" "''.'' @ CRLF" "ex_srv\<lparr>srv_Limits := DefaultLimits\<lparr>MsgSize := 5\<rparr>\<rparr>"
        ex_env "\<lambda>cs p e. Inr ''id1''" "\<lparr>commandCode = dataCmd, verb = ''DATA'', cmd_data = ''DATA'', arguments = []\<rparr>"]
    by (auto simp: ex_ready_frame ex_lines ex_trim max_int64_def delivered_def)
qed

theorem data_oversize_witness:
  "\<exists>s'. handleData ex_env (ex_srv\<lparr>srv_Limits := DefaultLimits\<lparr>MsgSize := 3\<rparr>\<rparr>) \<lparr>commandCode = dataCmd, verb = ''DATA'', cmd_data = ''DATA'', arguments = []\<rparr> (ex_ready [] []) = Inr s' \<and>
     calls s' = [] \<and> state s' = sessionStateGettingData \<and> pending (io s') = ''.'' @ CRLF"
  using data_oversize [of "ex_ready [] []" "[]" "''hello''" "''.'' @ CRLF"
      "ex_srv\<lparr>srv_Limits := DefaultLimits\<lparr>MsgSize := 3\<rparr>\<rparr>" ex_env "\<lparr>commandCode = dataCmd, verb = ''DATA'', cmd_data = ''DATA'', arguments = []\<rparr>"]
  by (auto simp: ex_ready_frame ex_lines ex_trim max_int64_def)

theorem rcpt_stores_accepted_witness:
  "\<exists>s' f. handleRcpt ex_env ex_srv \<lparr>commandCode = rcptCmd, verb = ''RCPT'', cmd_data = ''RCPT TO:<x=y@b.c>'', arguments = [''TO:<x=y@b.c>'']\<rparr> (ex_session [] [] sessionStateGotMail NewEnvelope True []) = Inr s' \<and>
     RecipientChecker ex_srv = Some f \<and> f [] ex_peer ex_to = None \<and> MailTo (envelope s') = [ex_to] \<and> calls s' = [CallRcpt ex_peer ex_to None] \<and>
     state s' = sessionStateReadyForData"
proof -
  have "NewEnvelope\<lparr>MailFrom := None\<rparr> = NewEnvelope" by (simp add: NewEnvelope_def)
  then obtain out where h: "handleRcpt ex_env ex_srv \<lparr>commandCode = rcptCmd, verb = ''RCPT'', cmd_data = ''RCPT TO:<x=y@b.c>'', arguments = [''TO:<x=y@b.c>'']\<rparr> (ex_session [] [] sessionStateGotMail NewEnvelope True []) =
      Inr (ex_session [] out sessionStateReadyForData (NewEnvelope\<lparr>MailTo := [ex_to]\<rparr>) True [CallRcpt ex_peer ex_to None])"
    using ex_rcpt [of "[]" "[]" None "[]"] by auto
  with rcpt_stores_accepted [OF h] show ?thesis
    by (auto simp: ex_session_def NewEnvelope_def)
qed

section \<open>A login over TLS\<close>

definition ex_tls_srv :: Server where
  "ex_tls_srv = ex_srv\<lparr>TLSConfig := True, authMechanisms := [''PLAIN''], Authenticator := Some (\<lambda>cs p pw. Inr (pw = ''pw''))\<rparr>"

definition ex_tls_conn :: conn where
  "ex_tls_conn = ex_conn\<lparr>tls_Conn := Some zero_tls_state, conn_net := [Chunk (''AUTH PLAIN AG1lAHB3'' @ CRLF)]\<rparr>"

lemma ex_login:
  "\<exists>s0 r p. newSession (Inr ''sid'') ex_tls_srv ex_tls_conn = Inr s0 \<and>
     serve_step ex_env ex_tls_srv (handleWelcome s0) = Inr r \<and>
     CallAuth p ''pw'' (Inr True) \<in> set (calls (after r)) \<and> Username p = ''me''"
proof -
  obtain s0 where s0: "newSession (Inr ''sid'') ex_tls_srv ex_tls_conn = Inr s0"
    by (simp add: newSession_def ex_tls_conn_def Let_def)
  then have f: "pending (io s0) = ''AUTH PLAIN AG1lAHB3'' @ CRLF @ []" "badCommandsCount s0 = 0" "tls s0"
    "state s0 = sessionStateInit" "\<not> Authenticated (peer s0)" "writable (io s0)"
    by (auto simp: writable_def ex_conn_def newSession_def ex_tls_conn_def Let_def zero_Peer_def NewReadWriter_def pending_def)
  then obtain b where b: "ReadLine (handleWelcome s0) = Inr (Inr ''AUTH PLAIN AG1lAHB3'', (handleWelcome s0)\<lparr>io := b\<rparr>)"
    using ReadLine_line [of "handleWelcome s0" "''AUTH PLAIN AG1lAHB3''" "[]"] by (auto simp: handleWelcome_def)
  let ?cmd = "\<lparr>commandCode = authCmd, verb = ''AUTH'', cmd_data = ''AUTH PLAIN AG1lAHB3'', arguments = [''PLAIN'', ''AG1lAHB3'']\<rparr>"
  have cmd: "parseCommand id (TrimRight ''AUTH PLAIN AG1lAHB3'') = Inr ?cmd"
    by code_simp
  have cut: "DecodeString ''AG1lAHB3'' = Some (CHR 0x00 # ''me'' @ CHR 0x00 # ''pw'')"
    "split_creds [[], [], []] 0 (CHR 0x00 # ''me'' @ CHR 0x00 # ''pw'') = Inr [[], ''me'', ''pw'']"
    by code_simp+
  have "\<exists>p s'. handleAuth ex_env ex_tls_srv ?cmd ((handleWelcome s0)\<lparr>io := b\<rparr>) = Inr s' \<and>
      CallAuth p ''pw'' (Inr True) \<in> set (calls s') \<and> Username p = ''me''"
    using f cut
    by (intro exI [of _ "(peer s0)\<lparr>Username := ''me''\<rparr>"])
      (simp add: handleAuth_def ex_tls_srv_def authMechanismValid_def ToUpper_fixed handlePlainAuth_def plain_one_arg_def
        check_login_def handleWelcome_def Let_def)
  then obtain p s' where h: "handleAuth ex_env ex_tls_srv ?cmd ((handleWelcome s0)\<lparr>io := b\<rparr>) = Inr s'"
    "CallAuth p ''pw'' (Inr True) \<in> set (calls s')" "Username p = ''me''" by blast
  have "state (handleWelcome s0) \<noteq> sessionStateWaitingForQuit" "badCommandsCount (handleWelcome s0) = 0"
    using f by (simp_all add: handleWelcome_def)
  moreover have "BadCmds (srv_Limits ex_tls_srv) = 5" "unicode_ToUpper ex_env = id"
    by (simp_all add: ex_tls_srv_def ex_limits ex_env_def)
  ultimately have "serve_step ex_env ex_tls_srv (handleWelcome s0) = Inr (if state s' = sessionStateAborted then Inl s' else Inr s')"
    using b cmd h(1) by (simp add: serve_step_def go_nth_def handlers_def)
  with s0 h show ?thesis by (intro exI [of _ s0] exI) auto
qed

section \<open>Witness for the accept loop\<close>

theorem accept_loop_witness:
  "\<exists>s. Server_Serve (\<lambda>n. Inr ''sid'') ex_srv 0 [AcceptError True EOF, Accepted ex_conn, AcceptError False EOF] = Inr ([s], Some EOF) \<and>
     newSession (Inr ''sid'') ex_srv ex_conn = Inr s"
  using accept_loop [of "\<lambda>n. Inr ''sid''" ex_srv "[AcceptError True EOF, Accepted ex_conn, AcceptError False EOF]"]
  by (auto simp: length_Suc_conv)

end
