(* ===== verification/Panics.thy ===== *)
theory Panics
  imports Scenario
begin

text \<open>
  Run-time panics. A panic of a session ends the whole process, so which inputs cause one is
  part of what the server promises. Each handler is shown to panic only for the causes listed
  in \<open>panic_cause\<close>, on a server that is configured (a delivery function, a recipient
  checker, an authenticator if there are mechanisms) and with a mail parser and a resolver
  that behave as documented.
\<close>

section \<open>The causes\<close>

definition panic_cause :: "env \<Rightarrow> command \<Rightarrow> session \<Rightarrow> bool" where
  "panic_cause E cmd s \<longleftrightarrow>
     commandCode cmd \<in> {heloCmd, ehloCmd, rcptCmd} \<and> arguments cmd = [] \<or>
     commandCode cmd = mailCmd \<and> list_ex (unknown_param E) (tl (arguments cmd)) \<or>
     commandCode cmd = bdatCmd \<and> (case arguments cmd of [] \<Rightarrow> False | a # _ \<Rightarrow>
       (case ParseInt a of None \<Rightarrow> False | Some n \<Rightarrow> n < 0 \<or> maxAlloc E < n)) \<or>
     commandCode cmd = dataCmd \<and> CHR '':'' \<notin> set (remote_addr s) \<or>
     commandCode cmd = authCmd \<and> tls s \<and> \<not> Authenticated (peer s)"

text \<open>What \<open>net/mail\<close> and \<open>net\<close> promise: an address has an \<open>@\<close>, a successful reverse lookup a name.\<close>

definition outside_ok :: "env \<Rightarrow> bool" where
  "outside_ok E \<longleftrightarrow>
     (\<forall>src a. ParseAddress E src = Inr a \<longrightarrow> CHR ''@'' \<in> set (Address a)) \<and>
     (\<forall>cs ip. LookupAddr E cs ip \<noteq> Inr [])"

section \<open>Handler by handler\<close>

lemma ReadLine_panics: "ReadLine s = Inl p \<Longrightarrow> \<exists>rest. pending (io s) = LF # rest"
proof -
  assume a: "ReadLine s = Inl p"
  then obtain l b where r: "ReadString (io s) = (Inr l, b)" "length l < 2"
    by (auto simp: ReadLine_def split: prod.splits sum.splits if_splits)
  then have lf: "LF \<in> set (pending (io s))" using bufio_lines.read_Inr_iff by blast
  with r have "takeWhile (\<lambda>c. c \<noteq> LF) (pending (io s)) = []"
    using bufio_lines.read_line [OF lf] by auto
  with lf show ?thesis by (cases "pending (io s)") (auto split: if_splits)
qed

lemma greeting_panics: "handleHelo E srv cmd s = Inl p \<or> handleEhlo E srv cmd s = Inl p \<Longrightarrow> arguments cmd = []"
  by (cases "arguments cmd") (auto simp: handleHelo_def handleEhlo_def Let_def)

lemma finish_mail_total:
  assumes "MailFrom (envelope s) = Some a" and "CHR ''@'' \<in> set (Address a)"
  shows "finish_mail E s \<noteq> Inl p"
proof -
  have "1 < length (Split CHR ''@'' (Address a))"
    using assms(2) by (simp add: length_Split count_list_0_iff flip: neq0_conv)
  then obtain err where "IsFQN (LookupMX E (calls s)) (LookupHost E (calls s)) (Some a) = Inr err"
    using fqn_cases [of "LookupMX E (calls s)" "LookupHost E (calls s)" "Split CHR ''@'' (Address a) ! 1"]
    by (auto simp: IsFQN_def hostname_def go_nth_def)
  then show ?thesis
    by (auto simp: finish_mail_def assms(1) Let_def split: sessionState.split)
qed

lemma handleMail_panics:
  assumes "outside_ok E" and "handleMail E srv cmd s = Inl p"
  shows "list_ex (unknown_param E) (tl (arguments cmd))"
proof (rule ccontr)
  assume ok: "\<not> list_ex (unknown_param E) (tl (arguments cmd))"
  obtain a args addr mailFrom s1 s2 where "arguments cmd = a # args" "ParseAddress E addr = Inr mailFrom"
    "mail_exts E args (s1\<lparr>envelope := (envelope s1)\<lparr>MailFrom := Some mailFrom\<rparr>\<rparr>) = Inr s2" "finish_mail E s2 = Inl p"
    using assms(2) by (auto simp: handleMail_def Let_def split: if_splits list.splits sum.splits)
  with ok mail_exts_sender [of E args _ s2] finish_mail_total [of s2 mailFrom E p] assms(1) show False
    by (fastforce simp: outside_ok_def)
qed

lemma handleRcpt_panics:
  assumes "RecipientChecker srv \<noteq> None" and "handleRcpt E srv cmd s = Inl p"
  shows "arguments cmd = []"
proof (rule ccontr)
  assume "arguments cmd \<noteq> []"
  then obtain a args where args: "arguments cmd = a # args" by (cases "arguments cmd") auto
  have "accept_rcpt E srv xs r s1 \<noteq> Inl p" for xs r s1
    using assms(1) by (auto simp: accept_rcpt_def check_recipient_def Let_def split: option.split go_error.split sum.split)
  with assms(2) args show False
    by (auto simp: handleRcpt_def Let_def split: if_splits sum.splits)
qed

lemma handleData_panics:
  assumes "outside_ok E" and "Handler srv \<noteq> None" and "data (envelope s) \<noteq> None" and "headers (envelope s) = []"
    and "handleData E srv cmd s = Inl p"
  shows "CHR '':'' \<notin> set (remote_addr s)"
proof
  assume port: "CHR '':'' \<in> set (remote_addr s)"
  obtain f where f: "Handler srv = Some f" using assms(2) by blast
  have total: "deliver E srv s1 \<noteq> Inl p" if rcv: "receives (getting_data s) s1" for s1
  proof -
    obtain d where "data (envelope s1) = Some d" "remote_addr s1 = remote_addr s" "headers (envelope s1) = []"
      using rcv assms(4) by (auto simp: receives_def getting_data_frame getting_data_def)
    with deliver_total [OF _ _ f, of s1 E d] port assms(1) show ?thesis by (auto simp: outside_ok_def)
  qed
  obtain e where b: "BeginData (envelope s) = (None, e)" "state s = sessionStateReadyForData" "bodyType s \<noteq> ''BINARYMIME''"
    using assms(5) by (auto simp: handleData_def Let_def split: if_splits prod.splits option.splits)
  have "data (envelope (getting_data s)) \<noteq> None"
    by (simp add: getting_data_frame)
  with data_loop_cases [of "getting_data s" "MsgSize (srv_Limits srv)" 0] total handleData_ready [OF b(3) _ b(2)] assms(5) b(1)
  show False by (auto simp: BeginData_def split: if_splits)
qed

lemma handleBdat_panics:
  assumes "data (envelope s) \<noteq> None" and "handleBdat E srv cmd s = Inl p"
  shows "\<exists>a as n. arguments cmd = a # as \<and> ParseInt a = Some n \<and> (n < 0 \<or> maxAlloc E < n)"
  using assms(2) bdat_chunk_panics_iff [OF assms(1)]
  by (auto simp: handleBdat_def Let_def split: list.splits option.splits if_splits)

lemma handleAuth_panics: "handleAuth E srv cmd s = Inl p \<Longrightarrow> tls s \<and> \<not> Authenticated (peer s)"
  by (auto simp: handleAuth_def split: if_splits)

lemma quiet_panics:
  "handleQuit E srv cmd s \<noteq> Inl p" "handleRset E srv cmd s \<noteq> Inl p" "handleNoop E srv cmd s \<noteq> Inl p"
  "handleVrfy E srv cmd s \<noteq> Inl p" "handleExpn E srv cmd s \<noteq> Inl p" "handleHelp E srv cmd s \<noteq> Inl p"
  "handleStartTLS E srv cmd s \<noteq> Inl p"
  by (simp_all add: handleQuit_def handleRset_def handleNoop_def handleVrfy_def handleExpn_def handleHelp_def
      handleStartTLS_def Let_def split: handshake.split)

lemma handlers_panic:
  assumes "outside_ok E" and "Handler srv \<noteq> None" and "RecipientChecker srv \<noteq> None"
    and "data (envelope s) \<noteq> None" and "headers (envelope s) = []" and "commandCode cmd < 14" and "(handlers ! commandCode cmd) E srv cmd s = Inl p"
  shows "panic_cause E cmd s"
proof -
  have "commandCode cmd \<in> {0, 1, 2, 3, 4, 5, 6, 7, 8, 9, 10, 11, 12, 13}"
    using assms(6) by (simp only: insert_iff empty_iff) presburger
  then show ?thesis
    using assms(7)
    by (elim insertE emptyE)
      (auto simp: handlers_def panic_cause_def quiet_panics
        dest: greeting_panics [OF disjI1] greeting_panics [OF disjI2] handleMail_panics [OF assms(1)] handleRcpt_panics [OF assms(3)]
          handleData_panics [OF assms(1,2,4,5)] handleBdat_panics [OF assms(4)] handleAuth_panics)
qed

section \<open>The properties\<close>

text \<open>
  C32: A MAIL command that passes the checks on TLS, authentication, address and sender panics
  exactly when none of its parameters ends it and at least one of them is unknown: an unknown \<open>key=value\<close> is answered
  with 555, the sender is forgotten, and then the host of a nil address is looked up.
\<close>

theorem mail_panics_iff:
  assumes "tls s \<or> \<not> TLSOnly srv" and "authMechanisms srv = [] \<or> Authenticated (peer s)"
    and "arguments cmd = a # args" and "HasPrefix (ToLower (unicode_ToLower E) (TrimSpace a)) ''from:''"
    and "Split CHR '':'' (ToLower (unicode_ToLower E) (TrimSpace a)) = w # addr # ws"
    and "ParseAddress E addr = Inr mailFrom" and "CHR ''@'' \<in> set (Address mailFrom)"
    and "\<forall>f. SenderChecker srv = Some f \<longrightarrow> f (calls s) (peer s) mailFrom = None"
  shows "(\<exists>p. handleMail E srv cmd s = Inl p) \<longleftrightarrow>
    list_all (param_passes E) args \<and> list_ex (unknown_param E) args"
proof -
  obtain s1 where s1: "check_sender srv mailFrom (Reset s) = Inr s1"
    using assms(8) by (cases "SenderChecker srv") (auto simp: check_sender_def Let_def)
  let ?s = "s1\<lparr>envelope := (envelope s1)\<lparr>MailFrom := Some mailFrom\<rparr>\<rparr>"
  have "ToLower (unicode_ToLower E) (TrimSpace a) \<noteq> []"
    using assms(4) by (auto simp: HasPrefix_def)
  moreover have "\<not> IsSet (envelope (Reset s))" by (simp add: IsSet_def Envelope_Reset_eq)
  ultimately have h: "handleMail E srv cmd s = (case mail_exts E args ?s of Inl s3 \<Rightarrow> Inr s3 | Inr s3 \<Rightarrow> finish_mail E s3)"
    using assms(1-6) s1 by (auto simp: handleMail_def parseAddress_def Let_def)
  show ?thesis
  proof (cases "mail_exts E args ?s")
    case (Inl s3)
    with mail_exts_pass [of E args ?s] show ?thesis by (simp add: h)
  next
    case (Inr s3)
    with mail_exts_pass [of E args ?s] have "list_all (param_passes E) args" by auto
    moreover have "MailFrom (envelope s3) = (if list_ex (unknown_param E) args then None else Some mailFrom)"
      using mail_exts_sender [OF Inr] by simp
    ultimately show ?thesis
      using finish_mail_total [of s3 mailFrom E] assms(7)
      by (auto simp: h Inr finish_mail_def IsFQN_def hostname_def)
  qed
qed

theorem mail_panics_iff_witness:
  "\<exists>p. handleMail ex_env ex_srv \<lparr>commandCode = mailCmd, verb = ''MAIL'', cmd_data = [], arguments = [''FROM:<a@b.c>'', ''BODY=7BIT'', ''RET=HDRS'']\<rparr>
      (ex_session [] [] sessionStateInit NewEnvelope True []) = Inl p"
proof -
  have "param_passes ex_env ''BODY=7BIT''" "param_passes ex_env ''RET=HDRS''" "unknown_param ex_env ''RET=HDRS''"
    by (simp_all add: param_passes_def unknown_param_def ToUpper_fixed)
  moreover have "TrimSpace ''FROM:<a@b.c>'' = ''FROM:<a@b.c>''" "ToLower (unicode_ToLower ex_env) ''FROM:<a@b.c>'' = ''from:<a@b.c>''"
    "ParseAddress ex_env ''<a@b.c>'' = Inr ex_from" "SenderChecker ex_srv = None" "TLSOnly ex_srv = False" "authMechanisms ex_srv = []"
    by (code_simp | simp add: TrimSpace_word graphic_def ex_env_def ex_from_def removeBrackets_def HasPrefix_def HasSuffix_def ex_srv_def NewServer_def)+
  ultimately show ?thesis
    using mail_panics_iff [of "ex_session [] [] sessionStateInit NewEnvelope True []" ex_srv
        "\<lparr>commandCode = mailCmd, verb = ''MAIL'', cmd_data = [], arguments = [''FROM:<a@b.c>'', ''BODY=7BIT'', ''RET=HDRS'']\<rparr>"
        "''FROM:<a@b.c>''" "[''BODY=7BIT'', ''RET=HDRS'']" ex_env "''from''" "''<a@b.c>''" "[]" ex_from]
    by (simp add: ex_from_def HasPrefix_def)
qed

text \<open>
  C10: The ways a client can crash the process. On a configured server, a round of the main loop
  at any session a new connection can reach panics only if the next line is a bare line feed,
  or if it is HELO, EHLO or RCPT without an argument, MAIL with an unknown parameter, BDAT with
  a size that is negative or cannot be allocated, DATA from a remote address without a port, or
  AUTH over TLS before authentication. Every other input is answered.
\<close>

theorem serve_panics_only_if:
  assumes "newSession i srv c = Inr s0" and "reaches E srv (handleWelcome s0) s" and "serve_step E srv s = Inl p"
    and "outside_ok E" and "Handler srv \<noteq> None" and "RecipientChecker srv \<noteq> None"
  shows "(\<exists>rest. pending (io s) = LF # rest) \<or>
    (\<exists>l s1 cmd. ReadLine s = Inr (Inr l, s1) \<and> parseCommand (unicode_ToUpper E) (TrimRight l) = Inr cmd \<and>
      panic_cause E cmd s)"
proof (cases "ReadLine s")
  case (Inl q)
  then show ?thesis using ReadLine_panics by blast
next
  case (Inr x)
  then obtain r s1 where rl: "ReadLine s = Inr (r, s1)" by (cases x) auto
  have "session_inv srv s"
    using reaches_inv [OF assms(2)] newSession_inv [OF assms(1)] inv_welcome by blast
  then have d: "data (envelope s1) \<noteq> None" "headers (envelope s1) = []"
    using ReadLine_frame(4) [OF rl] by (auto simp: session_inv_def)
  obtain l cmd where l: "r = Inr l" "parseCommand (unicode_ToUpper E) (TrimRight l) = Inr cmd"
    and h: "go_bind (go_nth handlers (commandCode cmd)) (\<lambda>h. go_bind (h E srv cmd s1) (\<lambda>s2.
      if state s2 = sessionStateAborted then Inr (Inl s2) else Inr (Inr s2))) = (Inl p :: (session + session) go)"
    using assms(3) rl by (auto simp: serve_step_def split: if_splits sum.splits)
  have k: "commandCode cmd < 14"
    using smtp_syntax.valid_code [OF smtp_syntax.parse_valid [OF l(2)]] .
  then have "(handlers ! commandCode cmd) E srv cmd s1 = Inl p"
    using h by (auto simp: go_nth_def handlers_def go_bind_Inl_conv split: if_splits)
  then have "panic_cause E cmd s1"
    using handlers_panic [OF assms(4-6) d k] by blast
  moreover have "panic_cause E cmd s1 = panic_cause E cmd s"
    using rl by (auto simp: ReadLine_def panic_cause_def split: prod.splits sum.splits if_splits)
  ultimately show ?thesis using rl l by blast
qed

theorem serve_panics_only_if_witness:
  "\<exists>s0. newSession (Inr ''sid'') ex_srv (ex_conn\<lparr>conn_net := [Chunk (''EHLO'' @ CRLF)]\<rparr>) = Inr s0 \<and>
     serve_step ex_env ex_srv (handleWelcome s0) = Inl IndexOutOfRange \<and>
     (\<exists>l s1 cmd. ReadLine (handleWelcome s0) = Inr (Inr l, s1) \<and> parseCommand id (TrimRight l) = Inr cmd \<and>
       panic_cause ex_env cmd (handleWelcome s0))"
proof -
  obtain s0 where s0: "newSession (Inr ''sid'') ex_srv (ex_conn\<lparr>conn_net := [Chunk (''EHLO'' @ CRLF)]\<rparr>) = Inr s0"
    using newSession_total by blast
  let ?s = "handleWelcome s0"
  have f: "pending (io ?s) = ''EHLO'' @ CRLF @ []" "badCommandsCount ?s = 0" "state ?s = sessionStateInit"
    using s0 by (auto simp: newSession_def ex_conn_def Let_def pending_def NewReadWriter_def handleWelcome_def writable_def)
  obtain b where b: "ReadLine ?s = Inr (Inr ''EHLO'', ?s\<lparr>io := b\<rparr>)"
    using ReadLine_line [OF f(1)] by auto
  have cmd: "parseCommand id (TrimRight ''EHLO'') = Inr \<lparr>commandCode = ehloCmd, verb = ''EHLO'', cmd_data = ''EHLO'', arguments = []\<rparr>"
    by (simp add: TrimRight_word graphic_def parseCommand_def SplitN2_def verb_codes ToUpper_fixed Let_def)
  have U: "unicode_ToUpper ex_env = id" by (simp add: ex_env_def)
  have p: "serve_step ex_env ex_srv ?s = Inl IndexOutOfRange"
    using f b cmd by (simp add: serve_step_def ex_limits U go_nth_def handlers_def handleEhlo_def Let_def)
  have "outside_ok ex_env" "Handler ex_srv \<noteq> None" "RecipientChecker ex_srv \<noteq> None"
    by (auto simp: outside_ok_def ex_env_def ex_srv_def split: if_splits)
  with serve_panics_only_if [OF s0 reaches.start p] s0 p f(1) show ?thesis by (auto simp: U)
qed

end
