(* ===== verification/Mamail.thy ===== *)
theory Mamail
  imports Scenario
begin

text \<open>
  The program \<open>examples/mamail.go\<close>: the server it configures and its \<open>main\<close>. Printing
  is left out, and so is \<open>alwaysOkRcpt\<close>, which the program declares but never installs:
  the recipient checker stays nil.
\<close>

definition mamail_server :: Server where
  "mamail_server = (NewServer '':3333'' [])
     \<lparr>Hostname := ''example.com'', Authenticator := Some (\<lambda>cs p pw. Inr True),
      Handler := Some (\<lambda>cs p e. Inr ''1'')\<rparr>"

text \<open>The sessions \<open>main\<close> starts; it panics when \<open>ListenAndServe\<close> returns an error.\<close>

definition mamail_main ::
  "(string \<Rightarrow> go_error + accept list) \<Rightarrow> (string \<Rightarrow> go_error + accept list) \<Rightarrow>
   (nat \<Rightarrow> go_error + string) \<Rightarrow> session list go" where
  "mamail_main listenTLS listen ids =
     go_bind (ListenAndServe listenTLS listen ids mamail_server) (\<lambda>(ss, err).
       case err of None \<Rightarrow> Inr ss | Some e \<Rightarrow> Inl PanicCalled)"

lemma no_checker_no_rcpt:
  assumes "log_ok srv cs" and "RecipientChecker srv = None"
  shows "CallRcpt p a r \<notin> set cs"
  using assms by (auto dest!: split_list log_ok_split)

lemma no_checker_no_delivery:
  assumes "log_ok srv cs" and "RecipientChecker srv = None"
  shows "CallHandler p e r \<notin> set cs"
proof
  assume "CallHandler p e r \<in> set cs"
  then obtain cs1 cs2 where cs: "cs = cs1 @ CallHandler p e r # cs2" by (blast dest: split_list)
  then have "call_ok srv cs1 (CallHandler p e r)"
    using log_ok_split assms(1) by blast
  then have "hd (MailTo e) \<in> set (MailTo e)" "tx_log srv (MailTo e) cs1" by simp_all
  then obtain q where "CallRcpt q (hd (MailTo e)) None \<in> set cs"
    unfolding tx_log_def cs by fastforce
  with no_checker_no_rcpt [OF assms] show False by blast
qed

text \<open>
  What that means for the example server: no recipient is ever stored, and the delivery
  function is never called. (A RCPT command that gets as far as the missing checker panics, so
  this holds of the rounds that return.)
\<close>

lemma mamail_never_delivers:
  assumes "mamail_main listenTLS listen ids = Inr ss" and "s0 \<in> set ss"
    and "reaches E mamail_server (handleWelcome s0) s" and "serve_step E mamail_server s = Inr r"
  shows "MailTo (envelope (after r)) = [] \<and> deliveries (calls (after r)) = []"
proof -
  obtain err where "ListenAndServe listenTLS listen ids mamail_server = Inr (ss, err)"
    using assms(1) by (auto simp: mamail_main_def go_bind_Inr_conv split: option.splits)
  then obtain i c where "newSession i mamail_server c = Inr s0"
    using started_by_ListenAndServe assms(2) by blast
  then have inv: "session_inv mamail_server (after r)"
    using reaches_inv [OF assms(3)] serve_step_inv [OF _ assms(4)] newSession_inv inv_welcome by blast
  have nil: "RecipientChecker mamail_server = None" by (simp add: mamail_server_def NewServer_def)
  have log: "log_ok mamail_server (calls (after r))" using inv by (simp add: session_inv_def)
  have "\<not> list_ex (rcpt_accepted a) (calls (after r))" for a
    using no_checker_no_rcpt [OF log nil] by (simp add: accepted_iff)
  then have "MailTo (envelope (after r)) = []"
    using inv by (cases "MailTo (envelope (after r))") (auto simp: session_inv_def rcpts_ok_def)
  moreover have "deliveries (calls (after r)) = []"
    using no_checker_no_delivery [OF log nil]
    by (auto simp: deliveries_def filter_empty_conv elim!: is_delivery.elims(2))
  ultimately show ?thesis ..
qed

end
