(* ===== verification/Transaction.thy ===== *)
theory Transaction
  imports Scenario
begin

text \<open>
  An abstract mail transaction and the refinement: a transaction is the state, the number of
  recipients and the number of deliveries so far, and \<open>tx_step\<close> says how one command may
  change it. The locale \<open>tx_handler\<close> extends the contract of a handler by the simulation
  \<open>tx_of\<close>; it is interpreted for every handler, so every round of the main loop is a step
  of the abstract machine.
\<close>

section \<open>The abstract machine\<close>

type_synonym tx = "sessionState \<times> nat \<times> nat"

fun rcpt_next :: "sessionState \<Rightarrow> sessionState option" where
  "rcpt_next sessionStateInit = Some sessionStateGotRcpt"
| "rcpt_next sessionStateGotMail = Some sessionStateReadyForData"
| "rcpt_next sessionStateGotRcpt = Some sessionStateGotRcpt"
| "rcpt_next sessionStateReadyForData = Some sessionStateReadyForData"
| "rcpt_next _ = None"

inductive tx_step :: "tx \<Rightarrow> tx \<Rightarrow> bool" where
  keep: "tx_step (st, n, d) (st, n, d)"
| reset: "tx_step (st, n, d) (sessionStateInit, 0, d)"
| mail: "tx_step (st, n, d) (sessionStateGotMail, 0, d)"
| rcpt: "rcpt_next st = Some st' \<Longrightarrow> tx_step (st, n, d) (st', Suc n, d)"
| oversize: "0 < n \<Longrightarrow> tx_step (sessionStateReadyForData, n, d) (sessionStateGettingData, n, d)"
| deliver: "0 < n \<Longrightarrow> tx_step (sessionStateReadyForData, n, d) (sessionStateInit, 0, Suc d)"
| bdat_last: "st \<noteq> sessionStateDataDone \<Longrightarrow> tx_step (st, n, d) (sessionStateDataDone, n, d)"
| aborted: "m \<le> Suc n \<Longrightarrow> tx_step (st, n, d) (sessionStateAborted, m, d)"

inductive_simps tx_step_simps: "tx_step (st, n, d) (st', n', d')"

definition tx_of :: "session \<Rightarrow> tx" where
  "tx_of s = (state s, length (MailTo (envelope s)), length (deliveries (calls s)))"

text \<open>A step delivers at most once, from the state ready for data, with a recipient.\<close>

lemma tx_step_deliveries:
  "tx_step (st, n, d) (st', n', d') \<Longrightarrow>
   d' = d \<or> d' = Suc d \<and> st = sessionStateReadyForData \<and> 0 < n \<and> st' = sessionStateInit \<and> n' = 0"
  by (auto simp: tx_step_simps)

section \<open>The simulation\<close>

locale tx_handler = session_handler +
  assumes simulates: "session_inv srv s \<Longrightarrow> h E srv cmd s = Inr s' \<Longrightarrow> tx_step (tx_of s) (tx_of s')"
begin

lemma delivers_once:
  assumes "session_inv srv s" and "h E srv cmd s = Inr s'"
    and "deliveries (calls s') \<noteq> deliveries (calls s)"
  shows "state s = sessionStateReadyForData \<and> (\<exists>c. is_delivery c \<and> deliveries (calls s') = deliveries (calls s) @ [c])"
proof -
  obtain new where new: "calls s' = calls s @ new"
    using log_grows [OF assms(2)] by blast
  with assms(3) have "deliveries new \<noteq> []" by simp
  with tx_step_deliveries [OF simulates [OF assms(1,2), unfolded tx_of_def]] new
  have "state s = sessionStateReadyForData" "length (deliveries new) = 1" by auto
  then obtain c where "deliveries new = [c]" by (auto simp: length_Suc_conv)
  moreover from this have "c \<in> set (filter is_delivery new)"
    by (simp add: deliveries_def)
  ultimately show ?thesis using \<open>state s = sessionStateReadyForData\<close> new by simp
qed

end

lemma tx_step_keeps: "keeps_tx s s' \<Longrightarrow> tx_step (tx_of s) (tx_of s')"
  by (auto simp: keeps_tx_def tx_of_def tx_step_simps)

lemma tx_step_resets:
  assumes "MailTo (envelope s') = []" and "deliveries (calls s') = deliveries (calls s)"
    and "state s' \<in> {sessionStateInit, sessionStateGotMail, sessionStateAborted}"
  shows "tx_step (tx_of s) (tx_of s')"
  using assms by (auto simp: tx_of_def intro: tx_step.intros)

lemma Reset_Out_tx:
  "MailTo (envelope (Out m (Reset s))) = []" "deliveries (calls (Out m (Reset s))) = deliveries (calls s)"
  "state (Out m (Reset s)) \<in> {sessionStateInit, sessionStateGotMail, sessionStateAborted}"
  using Out_state [of m "Reset s"] by (auto simp: Envelope_Reset_eq)

lemma greeting_tx:
  assumes "s' = Out m (check_helo srv ((Reset s)\<lparr>helloSeen := True, helloType := t, helloHost := h\<rparr>))"
  shows "tx_step (tx_of s) (tx_of s')"
proof -
  let ?g = "(Reset s)\<lparr>helloSeen := True, helloType := t, helloHost := h\<rparr>"
  have "state s' = sessionStateInit \<or> state s' = sessionStateAborted"
    using assms Out_state [of m "check_helo srv ?g"] check_helo_state [of srv ?g] by auto
  moreover have "deliveries (calls s') = deliveries (calls s)"
    using assms check_helo_calls [of srv ?g] by auto
  ultimately show ?thesis
    using assms by (intro tx_step_resets) (auto simp: Envelope_Reset_eq)
qed

interpretation helo_tx: tx_handler handleHelo
  by unfold_locales (auto simp: handleHelo_def Let_def go_bind_Inr_conv intro: greeting_tx)

interpretation ehlo_tx: tx_handler handleEhlo
  by unfold_locales (auto simp: handleEhlo_def Let_def go_bind_Inr_conv intro: greeting_tx)

interpretation quit_tx: tx_handler handleQuit
  by unfold_locales (auto simp: handleQuit_def intro!: tx_step_keeps)

interpretation rset_tx: tx_handler handleRset
  by unfold_locales (auto simp: handleRset_eq intro!: tx_step_resets Reset_Out_tx simp del: Out_frame)

interpretation noop_tx: tx_handler handleNoop
  by unfold_locales (auto simp: handleNoop_def intro!: tx_step_keeps)

interpretation vrfy_tx: tx_handler handleVrfy
  by unfold_locales (auto simp: handleVrfy_def intro!: tx_step_keeps)

interpretation expn_tx: tx_handler handleExpn
  by unfold_locales (auto simp: handleExpn_def intro!: tx_step_keeps)

interpretation helps_tx: tx_handler handleHelp
  by unfold_locales (auto simp: handleHelp_def intro!: tx_step_keeps)

interpretation auth_tx: tx_handler handleAuth
proof
  fix srv s E cmd s'
  assume "handleAuth E srv cmd s = Inr s'"
  then have "keeps_tx s s'"
    by (cases rule: handleAuth_cases)
      (use handleLoginAuth_ok [of srv cmd s s'] handlePlainAuth_ok [of E srv cmd s s'] in auto)
  then show "tx_step (tx_of s) (tx_of s')" by (rule tx_step_keeps)
qed

interpretation mail_tx: tx_handler handleMail
proof
  fix srv s E cmd s'
  assume "session_inv srv s" and h: "handleMail E srv cmd s = Inr s'"
  then show "tx_step (tx_of s) (tx_of s')"
    using handleMail_fresh [of srv s E cmd s'] handleMail_quiet [OF h]
    by (intro tx_step_resets) (auto simp: quiet_def)
qed

interpretation starttls_tx: tx_handler handleStartTLS
proof
  fix srv s E cmd s'
  assume "handleStartTLS E srv cmd s = Inr s'"
  then show "tx_step (tx_of s) (tx_of s')"
  proof (cases rule: handleStartTLS_cases)
    case (secured st es cap)
    then show ?thesis by (intro tx_step_resets) (auto simp: Envelope_Reset_eq)
  qed (auto intro!: tx_step_keeps)
qed

lemma finish_rcpt_tx:
  assumes "MailTo (envelope s1) = MailTo (envelope s)" and "deliveries (calls s1) = deliveries (calls s)"
    and "state s1 = state s \<or> state s1 = sessionStateAborted"
  shows "tx_step (tx_of s) (tx_of (finish_rcpt a s1))"
proof -
  have f: "MailTo (envelope (finish_rcpt a s1)) = MailTo (envelope s) @ [a]" "calls (finish_rcpt a s1) = calls s1"
    using assms(1) by (simp_all add: finish_rcpt_def AddRecipient_def Let_def split: sessionState.split)
  have "state (finish_rcpt a s1) = sessionStateAborted \<or> rcpt_next (state s) = Some (state (finish_rcpt a s1))"
    using assms(3) Out_state [of "[Codes SuccessRcptCmd]"] Out_state [of "[Codes FailBadSequence]"]
    by (cases "state s1") (auto simp: finish_rcpt_def AddRecipient_def Let_def, force+)
  then show ?thesis
    using assms(2) f by (auto simp: tx_of_def intro: tx_step.rcpt tx_step.aborted)
qed

text \<open>The parameters of RCPT leave the state alone, unless a reply cannot be sent.\<close>

lemma rcpt_exts_keep_state:
  "either (\<lambda>s'. state s' = state s \<or> state s' = sessionStateAborted) (rcpt_exts E args s)"
proof (induction args arbitrary: s)
  case Nil
  then show ?case by simp
next
  case (Cons ext args)
  have "either (\<lambda>s'. state s' = state s \<or> state s' = sessionStateAborted) (rcpt_ext E ext s)"
    using Out_state by (auto simp: rcpt_ext_def Let_def)
  then show ?case
    using Cons.IH by (cases "rcpt_ext E ext s") (force simp: either_def split: sum.splits)+
qed

interpretation rcpt_tx: tx_handler handleRcpt
proof
  fix srv s E cmd s'
  assume h: "handleRcpt E srv cmd s = Inr s'"
  let ?s = "\<lambda>a. ask (CallRcpt (peer s) a None) s"
  from h show "tx_step (tx_of s) (tx_of s')"
  proof (cases rule: handleRcpt_cases)
    case (exts a args)
    then show ?thesis
      using rcpt_exts_ok [of srv "?s a" E args] rcpt_exts_keep_state [of "?s a" E args]
      by (auto simp: rcpt_step_def tx_of_def tx_step_simps)
  next
    case (stored arg args a s1)
    have "rcpt_step srv (?s a) s1" "state s1 = state s \<or> state s1 = sessionStateAborted"
      using rcpt_exts_ok [of srv "?s a" E "arg # args"] rcpt_exts_keep_state [of "?s a" E "arg # args"] stored(5)
      by (auto simp del: rcpt_exts.simps)
    then show ?thesis
      unfolding stored(7) by (intro finish_rcpt_tx) (auto simp: rcpt_step_def)
  qed (auto intro!: tx_step_keeps)
qed

lemma deliver_tx:
  assumes "deliver E srv s = Inr s'"
  shows "tx_of s' = (sessionStateInit, 0, Suc (length (deliveries (calls s))))"
  using assms by (rule deliver_cases) (auto simp: tx_of_def Envelope_Reset_eq)

interpretation data_tx: tx_handler handleData
proof
  fix srv s E cmd s'
  assume "handleData E srv cmd s = Inr s'"
  then show "tx_step (tx_of s) (tx_of s')"
  proof (cases rule: handleData_cases)
    case (sequence m)
    then show ?thesis by (auto simp: tx_of_def intro: tx_step.aborted)
  next
    case (broken s2 s3 m)
    then show ?thesis
      using receives_frame [OF broken(4)] by (auto simp: tx_of_def intro: tx_step.aborted)
  next
    case (oversize s2 s3 m)
    then show ?thesis
      using receives_frame [OF oversize(4)] Out_state [of m s3]
      by (auto simp: tx_of_def tx_step_simps)
  next
    case (delivered s2 s3)
    then show ?thesis
      using receives_frame [OF delivered(4)] deliver_tx [OF delivered(5)]
      by (auto simp: tx_of_def intro: tx_step.deliver)
  qed (auto intro!: tx_step_keeps)
qed

interpretation bdat_tx: tx_handler handleBdat
proof
  fix srv s E cmd s'
  assume h: "handleBdat E srv cmd s = Inr s'"
  have st: "state s \<noteq> sessionStateDataDone \<or> (\<exists>m. s' = Out m s)"
    using h by (auto simp: handleBdat_def)
  from h show "tx_step (tx_of s) (tx_of s')"
  proof (cases rule: handleBdat_cases)
    case (chunk n r b d is_last k)
    from chunk(3) show ?thesis
    proof (cases rule: finish_bdat_cases)
      case (more m)
      then show ?thesis
        using Out_state [of m "s\<lparr>io := b, envelope := (envelope s)\<lparr>data := Some (d @ r)\<rparr>\<rparr>"]
        by (auto simp: tx_of_def tx_step_simps)
    next
      case (done_all m err e)
      with Envelope_Close_frame [OF done_all(2)] st show ?thesis
        by (auto simp: tx_of_def tx_step_simps)
    qed
  qed (auto intro!: tx_step_keeps)
qed

section \<open>The main loop refines the machine\<close>

lemma handlers_simulate: "h \<in> set handlers \<Longrightarrow> tx_handler h"
  unfolding handlers_def
  using helo_tx.tx_handler_axioms ehlo_tx.tx_handler_axioms quit_tx.tx_handler_axioms
    rset_tx.tx_handler_axioms noop_tx.tx_handler_axioms mail_tx.tx_handler_axioms
    rcpt_tx.tx_handler_axioms data_tx.tx_handler_axioms starttls_tx.tx_handler_axioms
    vrfy_tx.tx_handler_axioms expn_tx.tx_handler_axioms helps_tx.tx_handler_axioms
    auth_tx.tx_handler_axioms bdat_tx.tx_handler_axioms
  by (auto intro: tx_handler.intro)

lemma serve_step_tx:
  assumes "session_inv srv s" and "serve_step E srv s = Inr r"
  shows "tx_step (tx_of s) (tx_of (after r))"
  using assms(2)
proof (cases rule: serve_step_cases)
  case (handled l s1 h cmd s2)
  have "tx_of s1 = tx_of s" by (simp add: tx_of_def ReadLine_frame [OF handled(2)])
  with tx_handler.simulates [OF handlers_simulate [OF handled(4)] inv_ReadLine [OF assms(1) handled(2)] handled(6)]
  show ?thesis using handled(7) by simp
qed (auto intro!: tx_step_keeps dest!: keeps_tx_ReadLine intro: keeps_tx_Out)

text \<open>Only DATA delivers.\<close>

definition quiet_handlers :: "handler list" where
  "quiet_handlers =
     [handleHelo, handleEhlo, handleQuit, handleRset, handleNoop, handleMail, handleRcpt,
      handleStartTLS, handleVrfy, handleExpn, handleHelp, handleAuth, handleBdat]"

lemma handlers_quiet: "k < 14 \<Longrightarrow> k \<noteq> dataCmd \<Longrightarrow> handlers ! k \<in> set quiet_handlers"
  by (simp add: handlers_def quiet_handlers_def nth_Cons numeral_eq_Suc split: nat.split)

lemma check_helo_deliveries [simp]: "deliveries (calls (check_helo srv s)) = deliveries (calls s)"
  using check_helo_calls [of srv s] by auto

lemma handleStartTLS_deliveries:
  "handleStartTLS E srv cmd s = Inr s' \<Longrightarrow> deliveries (calls s') = deliveries (calls s)"
  by (erule handleStartTLS_cases) auto

lemma handleAuth_deliveries:
  "handleAuth E srv cmd s = Inr s' \<Longrightarrow> deliveries (calls s') = deliveries (calls s)"
  using handleLoginAuth_ok [of srv cmd s s'] handlePlainAuth_ok [of E srv cmd s s']
  by (erule_tac handleAuth_cases) (auto simp: keeps_tx_def)

lemma handleBdat_deliveries:
  "handleBdat E srv cmd s = Inr s' \<Longrightarrow> deliveries (calls s') = deliveries (calls s)"
  by (erule handleBdat_cases) (auto elim!: finish_bdat_cases)

lemma quiet_handlers_deliver_nothing:
  assumes "h \<in> set quiet_handlers" and "h E srv cmd s = Inr s'"
  shows "deliveries (calls s') = deliveries (calls s)"
  using assms handleMail_quiet [of E srv cmd s s'] handleRcpt_quiet [of E srv cmd s s']
    handleStartTLS_deliveries [of E srv cmd s s'] handleAuth_deliveries [of E srv cmd s s']
    handleBdat_deliveries [of E srv cmd s s']
  unfolding quiet_handlers_def
  by (auto simp: quiet_def handleHelo_def handleEhlo_def handleQuit_def handleRset_def handleNoop_def
      handleVrfy_def handleExpn_def handleHelp_def Let_def go_bind_Inr_conv)

section \<open>Properties\<close>

text \<open>
  C2: Refinement. At every loop head a session started by \<open>newSession\<close> can reach, the next
  round of the main loop is a step of the abstract mail transaction.
\<close>

theorem session_refines_transaction:
  assumes "newSession i srv c = Inr s0" and "reaches E srv (handleWelcome s0) s"
    and "serve_step E srv s = Inr r"
  shows "tx_step (tx_of s) (tx_of (after r))"
  using serve_step_tx reaches_inv [OF assms(2) inv_welcome [OF newSession_inv [OF assms(1)]]] assms(3)
  by blast

theorem session_refines_transaction_witness:
  "\<exists>s r. reaches ex_env ex_srv (handleWelcome (ex_session ex_net [] sessionStateInit NewEnvelope False [])) s \<and>
     serve_step ex_env ex_srv s = Inr r \<and> tx_step (tx_of s) (tx_of (after r))"
proof -
  obtain s r where "reaches ex_env ex_srv (handleWelcome (ex_session ex_net [] sessionStateInit NewEnvelope False [])) s"
    "serve_step ex_env ex_srv s = Inr r"
    using ex_delivers by blast
  with session_refines_transaction [OF ex_new this] show ?thesis by blast
qed

text \<open>
  C9: The delivery function is called only by a DATA command, in the state ready for data,
  and at most once per command.
\<close>

theorem delivery_only_by_data:
  assumes "newSession i srv c = Inr s0" and "reaches E srv (handleWelcome s0) s"
    and "serve_step E srv s = Inr r" and "deliveries (calls (after r)) \<noteq> deliveries (calls s)"
  shows "state s = sessionStateReadyForData \<and>
    (\<exists>p e res. deliveries (calls (after r)) = deliveries (calls s) @ [CallHandler p e res]) \<and>
    (\<exists>l s1 cmd. ReadLine s = Inr (Inr l, s1) \<and>
      parseCommand (unicode_ToUpper E) (TrimRight l) = Inr cmd \<and> commandCode cmd = dataCmd)"
  using assms(3)
proof (cases rule: serve_step_cases)
  case (handled l s1 h cmd s2)
  note frame = ReadLine_frame [OF handled(2)]
  have inv: "session_inv srv s1"
    using reaches_inv [OF assms(2) inv_welcome [OF newSession_inv [OF assms(1)]]] handled(2) by (rule inv_ReadLine)
  have ne: "deliveries (calls s2) \<noteq> deliveries (calls s1)"
    using assms(4) handled(7) frame by simp
  obtain c where "state s = sessionStateReadyForData" "is_delivery c" "deliveries (calls s2) = deliveries (calls s) @ [c]"
    using tx_handler.delivers_once [OF handlers_simulate [OF handled(4)] inv handled(6) ne] frame by auto
  moreover have "commandCode cmd = dataCmd"
    using handlers_quiet [of "commandCode cmd"] smtp_syntax.valid_code [OF smtp_syntax.parse_valid [OF handled(3)]] handled(5,6) ne
      quiet_handlers_deliver_nothing [of h E srv cmd s1 s2] by blast
  ultimately show ?thesis
    using handled by (cases c) auto
qed (use assms(4) in \<open>auto simp: ReadLine_frame\<close>)

theorem delivery_only_by_data_witness:
  "\<exists>s r. reaches ex_env ex_srv (handleWelcome (ex_session ex_net [] sessionStateInit NewEnvelope False [])) s \<and>
     serve_step ex_env ex_srv s = Inr r \<and> deliveries (calls (after r)) \<noteq> deliveries (calls s) \<and>
     state s = sessionStateReadyForData"
proof -
  obtain s r cs e where s: "reaches ex_env ex_srv (handleWelcome (ex_session ex_net [] sessionStateInit NewEnvelope False [])) s"
    "serve_step ex_env ex_srv s = Inr (Inr r)" "deliveries (calls s) = []" "calls r = cs @ [CallHandler ex_peer e (Inr ''id1'')]"
    using ex_delivers by blast
  then have "deliveries (calls (after (Inr r))) \<noteq> deliveries (calls s)" by simp
  with delivery_only_by_data [OF ex_new s(1,2)] s(1,2) show ?thesis by blast
qed

end
