(* ===== verification/Spec2Isabelle.thy ===== *)
theory Spec2Isabelle
  imports Panics Mamail Transaction
begin

text \<open>
  A verification development of gosmtp, an SMTP server library in Go.

  \<^bold>\<open>The program.\<close> A program configures a \<open>Server\<close> (\<open>server.go\<close>, \<open>limits.go\<close>)
  with callbacks (authenticator, checkers of greetings, senders and recipients, and the delivery
  function \<open>Handler\<close>) and calls \<open>ListenAndServe\<close>. Every accepted connection becomes a
  \<open>session\<close> (\<open>session.go\<close>) that runs \<open>Serve\<close> in its own goroutine: it reads a line
  through a \<open>bufio.ReadWriter\<close>, parses it (\<open>command.go\<close>), calls one of fourteen handlers
  and replies with a text prepared in \<open>response.go\<close>. MAIL, RCPT, DATA and BDAT build the
  \<open>Envelope\<close> (\<open>envelope.go\<close>); MAIL looks up the sender's domain (\<open>address.go\<close>); AUTH
  asks the authenticator (\<open>auth.go\<close>); DATA stamps a \<open>Received\<close> header, folded by \<open>wrap\<close>
  (\<open>utils.go\<close>), parses the message and hands the envelope to \<open>Handler\<close>.

  \<^bold>\<open>The theories\<close>, in the order of their imports:
  \<^item> \<open>Prelude\<close>: panics (\<open>'a go\<close>), error values, 64-bit wrap-around, the shared lemmas.
  \<^item> \<open>GoStrings\<close>: what the code uses of \<open>strings\<close>, \<open>strconv\<close>, \<open>unicode\<close> and \<open>fmt\<close>.
  \<^item> \<open>Response\<close> (\<open>response.go\<close>): the code table, \<open>Response.String\<close> and the
    prepared replies (\<open>Codes\<close>), with the reply code each of them carries.
  \<^item> \<open>Command\<close> (\<open>command.go\<close>): \<open>parseCommand\<close> inverts \<open>command.String\<close> exactly on
    the well-formed commands; locale \<open>command_syntax\<close> is what the main loop relies on.
  \<^item> \<open>Utils\<close> (\<open>utils.go\<close>): \<open>wrap\<close> against a one-pass reference, the line splitter.
  \<^item> \<open>Bufio\<close>: \<open>bufio\<close> over a connection that delivers arbitrary segments and errors;
    locale \<open>line_source\<close> states that reading lines depends on the bytes only.
  \<^item> \<open>Envelope\<close> (\<open>envelope.go\<close>): every operation; locale \<open>mail_transaction\<close>.
  \<^item> \<open>Server\<close> (\<open>limits.go\<close>, \<open>server.go\<close>): the records of limits, peer and server,
    \<open>Auth\<close>, \<open>NewServer\<close>; the environment \<open>env\<close> and the log of outside calls \<open>call\<close>.
  \<^item> \<open>Address\<close> (\<open>address.go\<close>): \<open>IsFQN\<close> and its lookups.
  \<^item> \<open>Session\<close> (\<open>session.go\<close>): the session record, input, output and the handlers that
    only answer, STARTTLS included.
  \<^item> \<open>Example\<close>: a concrete environment, server and session for the witnesses.
  \<^item> \<open>Policy\<close>: the invariant \<open>session_inv\<close>, what no handler undoes (\<open>evolves\<close>), and
    the locale \<open>session_handler\<close>, the contract of a handler, interpreted for every handler in
    the theory that defines it.
  \<^item> \<open>Auth\<close> (\<open>auth.go\<close>, AUTH), \<open>Mail\<close> (MAIL, RCPT), \<open>Data\<close> (DATA, BDAT, \<open>Received\<close>).
  \<^item> \<open>Serve\<close>: the handler table, one round of the loop (\<open>serve_step\<close>), the loop as a total
    function, the loop heads it passes (\<open>reaches\<close>), and the dispatch of lines to handlers.
  \<^item> \<open>Listener\<close> (\<open>server.go\<close>): \<open>newSession\<close>, the accept loop, \<open>ListenAndServe\<close>.
  \<^item> \<open>Scenario\<close>: a session from the connection to the delivery and a login over TLS,
    evaluated in the kernel: the hypotheses of the session-wide properties can be met.
  \<^item> \<open>Panics\<close>: the only inputs on which a round of the main loop panics, and exactly when an
    otherwise acceptable MAIL does.
  \<^item> \<open>Mamail\<close> (\<open>examples/mamail.go\<close>): the example program.
  \<^item> \<open>Transaction\<close>: an abstract mail transaction; locale \<open>tx_handler\<close> extends
    \<open>session_handler\<close> by a simulation and is interpreted for all fourteen handlers.

  \<^bold>\<open>Correspondence.\<close> A Go function that can panic returns \<open>'a go\<close>, with \<open>Inl\<close> the
  run-time panic; a Go \<open>error\<close> is a value of \<open>go_error\<close>. A handler maps environment, server,
  command and session to the new session. Where a Go function is long, its blocks are definitions
  of their own (\<open>mail_exts\<close>, \<open>check_sender\<close>, \<open>finish_mail\<close> and so on), composed in the order
  of the code; a block that may return early gives \<open>Inl\<close> the session it returned with. Counters
  and sizes are integers with the 64-bit wrap-around written out (\<open>int64\<close>). The field \<open>calls\<close>
  of the session has no counterpart in the code: it records the calls to callbacks, DNS and the
  TLS handshake with their answers, and the safety properties speak about it. A round that
  panics ends the process and leaves no session behind, so the log speaks about the rounds
  before it. An entry \<open>CallDNS (Some a) []\<close> says that the domain check of MAIL did not object to
  the address; that includes lookups that failed otherwise than with "no such host". The sender
  of the address is forgotten by RCPT (the loop over its parameters clears it), so the policy is
  stated on the log of the transaction and not on the envelope.

  \<^bold>\<open>What is shown.\<close> Replies, parsing, folding, base64 and credentials are correct on all
  inputs (equivalence with references, round trips). Every line is dispatched to the handler of
  its verb or counted as a bad command. Every handler keeps the invariant, so every reachable
  session satisfies the delivery policy, authenticates only over TLS and keeps its counters and
  the priority in range; every round refines the abstract transaction, and only DATA delivers.
  RCPT stores exactly the address the checker just accepted, MAIL passes only bounded
  parameters. DATA delivers the lines sent, each without its surrounding white space, when their
  counted size is below the limit; at the limit exactly it delivers with the final dot left to
  be read as a command, and above it refuses. BDAT stores the bytes of a buffered chunk and
  delivers nothing. \<open>Serve\<close> returns on every input. Every input by which a client can make
  the process panic is on a short list.

  \<^bold>\<open>Loops\<close> are total functions, so there is no fuel: the read loops decrease the
  input that is left, the main loop decreases it too except in the one round that switches to
  TLS. The input of a connection is a finite list of segments and errors (the end of the list is
  end of file), which is every finite behaviour of a client; a client that stays silent
  is the deadline error. A client that never stops sending is outside the model.

  \<^bold>\<open>Outside.\<close> The mail parser of \<open>net/mail\<close>, DNS, the TLS handshake, the clock, the case
  mapping of non-ASCII runes, the largest allocation, \<open>tlstext\<close>, \<open>go-nanoid\<close> and the two ways
  of listening are parameters; callbacks are functions of the log of calls, so they may have
  state, but they are assumed not to write through the pointers they are given. The outcome of a
  handshake and the TLS stream after it (\<open>Handshake\<close>) depend on the log only: they stand for
  what this client does from there on, not for the bytes that were waiting on the plain
  connection, which the handshake would reject.

  \<^bold>\<open>Simplifications.\<close> \<open>Mail.Body\<close> is the string the reader of the parsed message would
  give when the envelope is closed; the reader of the code is lazy and valid until the reset
  after \<open>Handler\<close> returns. \<open>DefaultLimits\<close> is a constant, although the code exports it as a
  variable a program could assign.

  \<^bold>\<open>Not modelled.\<close> Logging; deadlines (an expired one is an error event of the
  connection); the start time of a session; \<open>Peer.AdditionalField\<close>, which the package never
  uses; \<open>checkHost\<close>, an unused function that returns false; the parsed time of the RRVS
  parameter, which is only logged; the tests.
\<close>

section \<open>Termination\<close>

text \<open>
  C6: A session ends. No sequence of rounds of the main loop is infinite on the input a client
  sends, and \<open>Serve\<close> returns: it stops at a session the loop reaches, either because the
  round there leaves the loop or because the round there panics.
\<close>

theorem Serve_terminates:
  "wf {(s', s). serve_step E srv s = Inr (Inr s')} \<and>
   (\<exists>s1. reaches E srv (handleWelcome s) s1 \<and>
     ((\<exists>p. Serve E srv s = Inl p \<and> serve_step E srv s1 = Inl p) \<or>
      (\<exists>s2. Serve E srv s = Inr s2 \<and> serve_step E srv s1 = Inr (Inl s2))))"
proof
  show "wf {(s', s). serve_step E srv s = Inr (Inr s')}"
    by (rule wf_subset [of serve_measure]) (auto simp: serve_measure_def intro: serve_step_progress [unfolded serve_measure_def])
qed (simp add: Serve_def serve_loop_ends)

text \<open>
  The rounds of a client that only sends lines the parser rejects.
\<close>

lemma serve_step_bad_line:
  assumes "badCommandsCount s < BadCmds (srv_Limits srv)" and "pending (io s) = l @ CRLF @ rest"
    and "LF \<notin> set l" and "parseCommand (unicode_ToUpper E) (TrimRight l) = Inl err" and "writable (io s)"
  shows "\<exists>s'. serve_step E srv s = Inr (Inr s') \<and> pending (io s') = rest \<and> writable (io s') \<and>
    written (io s') = written (io s) @ Codes FailUnrecognizedCmd @ CRLF \<and>
    badCommandsCount s' = int64 (badCommandsCount s + 1) \<and> calls s' = calls s \<and> envelope s' = envelope s"
proof -
  obtain b where "ReadLine s = Inr (Inr l, s\<lparr>io := b\<rparr>)" "pending b = rest" "writable b" "written b = written (io s)"
    using ReadLine_line [OF assms(2,3)] assms(5) by auto
  with assms(1,4) show ?thesis by (simp add: serve_step_def)
qed

lemma serve_loop_bad_lines:
  assumes "badCommandsCount s + int (length ls) = BadCmds (srv_Limits srv)" and "0 \<le> badCommandsCount s"
    and "BadCmds (srv_Limits srv) \<le> max_int64" and "writable (io s)"
    and "pending (io s) = concat (map (\<lambda>l. l @ CRLF) ls) @ rest"
    and "\<forall>l \<in> set ls. LF \<notin> set l \<and> (\<exists>err. parseCommand (unicode_ToUpper E) (TrimRight l) = Inl err)"
  shows "\<exists>s'. serve_loop E srv s = Inr s' \<and> state s' = sessionStateAborted \<and> calls s' = calls s \<and>
    envelope s' = envelope s \<and> pending (io s') = rest \<and>
    written (io s') = written (io s) @ concat (replicate (length ls) (Codes FailUnrecognizedCmd @ CRLF)) @
      Codes FailMaxUnrecognizedCmd @ CRLF"
  using assms(1,2,4-6)
proof (induction ls arbitrary: s)
  case Nil
  then show ?case by (subst serve_loop.simps) (simp add: serve_step_def)
next
  case (Cons l ls)
  then obtain s1 where s1: "serve_step E srv s = Inr (Inr s1)"
    "pending (io s1) = concat (map (\<lambda>l. l @ CRLF) ls) @ rest" "writable (io s1)"
    "written (io s1) = written (io s) @ Codes FailUnrecognizedCmd @ CRLF"
    "badCommandsCount s1 = int64 (badCommandsCount s + 1)" "calls s1 = calls s" "envelope s1 = envelope s"
    using serve_step_bad_line [of s srv l "concat (map (\<lambda>l. l @ CRLF) ls) @ rest" E] by auto
  moreover have "int64 (badCommandsCount s + 1) = badCommandsCount s + 1"
    using Cons.prems(1,2) assms(3) by (intro int64_id) auto
  ultimately show ?case
    using Cons.IH [of s1] Cons.prems by (subst serve_loop.simps) simp
qed

text \<open>
  C13: A client that sends as many unparsable lines as the limit of bad commands allows is
  disconnected: it is greeted, each line is answered as unrecognized, then comes the final
  reply, and \<open>Serve\<close> returns without having called anybody, changed the envelope, or read
  what the client sent after those lines.
\<close>

theorem bad_lines_close_the_session:
  assumes "badCommandsCount s = 0" and "int (length ls) = BadCmds (srv_Limits srv)"
    and "BadCmds (srv_Limits srv) \<le> max_int64" and "writable (io s)"
    and "pending (io s) = concat (map (\<lambda>l. l @ CRLF) ls) @ rest"
    and "\<forall>l \<in> set ls. LF \<notin> set l \<and> (\<exists>err. parseCommand (unicode_ToUpper E) (TrimRight l) = Inl err)"
  shows "\<exists>s'. Serve E srv s = Inr s' \<and> state s' = sessionStateAborted \<and> calls s' = calls s \<and>
    envelope s' = envelope s \<and> pending (io s') = rest \<and>
    written (io s') = written (io (handleWelcome s)) @
      concat (replicate (length ls) (Codes FailUnrecognizedCmd @ CRLF)) @ Codes FailMaxUnrecognizedCmd @ CRLF"
  using serve_loop_bad_lines [of "handleWelcome s" ls srv rest E] assms
  by (simp add: Serve_def handleWelcome_def)

theorem bad_lines_close_the_session_witness:
  "\<exists>s'. Serve ex_env ex_srv (ex_session [Chunk (concat (replicate 5 (''X'' @ CRLF)))] [] sessionStateInit NewEnvelope False []) = Inr s' \<and>
     state s' = sessionStateAborted"
proof -
  let ?s = "ex_session [Chunk (concat (replicate 5 (''X'' @ CRLF)))] [] sessionStateInit NewEnvelope False []"
  have "badCommandsCount ?s = 0" "writable (io ?s)" "pending (io ?s) = concat (map (\<lambda>l. l @ CRLF) (replicate 5 ''X'')) @ []"
    by (simp_all add: ex_session_def writable_def pending_def numeral_eq_Suc)
  moreover have "\<exists>err. parseCommand id (TrimRight ''X'') = Inl err"
    by (simp add: TrimRight_word graphic_def parseCommand_def SplitN2_def verb_code_def ToUpper_fixed Let_def)
  ultimately show ?thesis
    using bad_lines_close_the_session [of ?s "replicate 5 ''X''" ex_srv "[]" ex_env]
    by (auto simp: ex_limits max_int64_def ex_env_def)
qed

section \<open>Safety of every reachable session\<close>

lemma reached_inv:
  "newSession i srv c = Inr s0 \<Longrightarrow> reaches E srv (handleWelcome s0) s \<Longrightarrow> session_inv srv s"
  by (blast intro: reaches_inv inv_welcome newSession_inv)

lemma served_inv:
  assumes "newSession i srv c = Inr s0" and "reaches E srv (handleWelcome s0) s" and "serve_step E srv s = Inr r"
  shows "session_inv srv (after r)"
  using serve_step_inv [OF reached_inv [OF assms(1,2)] assms(3)] .

lemma served_call_ok:
  assumes "newSession i srv c = Inr s0" and "reaches E srv (handleWelcome s0) s" and "serve_step E srv s = Inr r"
    and "calls (after r) = cs @ x # cs'"
  shows "call_ok srv cs x"
  using served_inv [OF assms(1-3)] assms(4) by (auto simp: session_inv_def dest: log_ok_split)

text \<open>
  C1: The delivery policy. Whenever the delivery function is called, in any session a new
  connection can lead to, the envelope has between one and 201 recipients, and the log of the
  calls made before ends with one mail transaction: a MAIL whose domain check did not object
  (a lookup that fails otherwise than with "no such host" does not make it object), right after
  a configured sender checker accepted the same sender; since then no other domain was checked,
  and every recipient of the envelope was accepted by the recipient checker. The peer is
  authenticated if authentication is configured, uses TLS if the server insists on it, and an
  authenticated peer uses TLS and was accepted by the authenticator under its user name.
\<close>

theorem delivery_policy:
  assumes "newSession i srv c = Inr s0" and "reaches E srv (handleWelcome s0) s" and "serve_step E srv s = Inr r"
    and "calls (after r) = cs @ CallHandler p e res # cs'"
  shows "1 \<le> length (MailTo e) \<and> length (MailTo e) \<le> 201 \<and>
    (\<exists>cs1 a cs2. cs = cs1 @ CallDNS (Some a) [] # cs2 \<and>
      (SenderChecker srv \<noteq> None \<longrightarrow> (\<exists>cs0 q. cs1 = cs0 @ [CallSender q a None])) \<and>
      (\<forall>b err. CallDNS b err \<notin> set cs2) \<and>
      (\<forall>rcpt \<in> set (MailTo e). \<exists>q. CallRcpt q rcpt None \<in> set cs2)) \<and>
    (authMechanisms srv \<noteq> [] \<longrightarrow> Authenticated p) \<and> (TLSOnly srv \<longrightarrow> TLS p \<noteq> None) \<and>
    (Authenticated p \<longrightarrow> TLS p \<noteq> None \<and> (\<exists>q pw. CallAuth q pw (Inr True) \<in> set cs \<and> Username q = Username p))"
proof -
  have ok: "call_ok srv cs (CallHandler p e res)" by (rule served_call_ok [OF assms])
  then obtain cs1 a cs2 where "cs = cs1 @ CallDNS (Some a) [] # cs2" "\<forall>c \<in> set cs2. \<not> is_mail_check c"
    "SenderChecker srv \<noteq> None \<longrightarrow> (\<exists>cs0 q. cs1 = cs0 @ [CallSender q a None])"
    "\<forall>rcpt \<in> set (MailTo e). \<exists>q. CallRcpt q rcpt None \<in> set cs2"
    by (clarsimp simp only: call_ok.simps tx_log_def)
  moreover from this(2) have "\<forall>b err. CallDNS b err \<notin> set cs2" by fastforce
  moreover have "1 \<le> length (MailTo e)" "length (MailTo e) \<le> 201" "authMechanisms srv \<noteq> [] \<longrightarrow> Authenticated p"
    "TLSOnly srv \<longrightarrow> TLS p \<noteq> None"
    "Authenticated p \<longrightarrow> TLS p \<noteq> None \<and> (\<exists>q pw. CallAuth q pw (Inr True) \<in> set cs \<and> Username q = Username p)"
    using ok by (auto simp: auth_ok_def accepted_iff Suc_le_eq)
  ultimately show ?thesis by blast
qed

theorem delivery_policy_witness:
  "\<exists>s r cs e. reaches ex_env ex_srv (handleWelcome (ex_session ex_net [] sessionStateInit NewEnvelope False [])) s \<and>
     serve_step ex_env ex_srv s = Inr r \<and> calls (after r) = cs @ [CallHandler ex_peer e (Inr ''id1'')] \<and>
     1 \<le> length (MailTo e) \<and> (\<exists>cs1 a cs2. cs = cs1 @ CallDNS (Some a) [] # cs2 \<and>
       (\<forall>rcpt \<in> set (MailTo e). \<exists>q. CallRcpt q rcpt None \<in> set cs2))"
proof -
  obtain s0 s cs e where r: "reaches ex_env ex_srv (handleWelcome (ex_session ex_net [] sessionStateInit NewEnvelope False [])) s0"
    "serve_step ex_env ex_srv s0 = Inr (Inr s)" "calls (after (Inr s)) = cs @ [CallHandler ex_peer e (Inr ''id1'')]"
    using ex_delivers by auto
  with delivery_policy [OF ex_new r] show ?thesis by blast
qed

text \<open>
  C31: The parameters of an accepted MAIL. On a server with the default limit on the size of a
  message, when the round of a MAIL command at any reachable session ends in the state after
  MAIL, every parameter is of the form \<open>key=value\<close>; in any letter case of the key, a declared
  SIZE is a number within the limit and an MT-PRIORITY a number from -9 to 9, and the priority
  of the envelope is in that range.
\<close>

theorem mail_parameters_bounded:
  assumes "newSession i srv c = Inr s0" and "reaches E srv (handleWelcome s0) s" and "serve_step E srv s = Inr r"
    and "ReadLine s = Inr (Inr l, s1)" and "parseCommand (unicode_ToUpper E) (TrimRight l) = Inr cmd"
    and "commandCode cmd = mailCmd" and "state (after r) = sessionStateGotMail"
    and "badCommandsCount s < BadCmds (srv_Limits srv)" and "MsgSize (srv_Limits srv) = MsgSize DefaultLimits"
  shows "- 9 \<le> Priority (envelope (after r)) \<and> Priority (envelope (after r)) \<le> 9 \<and>
    (\<forall>ext \<in> set (tl (arguments cmd)). \<exists>k v. Split CHR ''='' ext = [k, v] \<and>
      (ToUpper (unicode_ToUpper E) k = ''SIZE'' \<longrightarrow> (\<exists>n. ParseInt v = Some n \<and> n \<le> MsgSize (srv_Limits srv))) \<and>
      (ToUpper (unicode_ToUpper E) k = ''MT-PRIORITY'' \<longrightarrow> (\<exists>n. ParseInt v = Some n \<and> - 9 \<le> n \<and> n \<le> 9)))"
proof -
  have "state s1 \<noteq> sessionStateWaitingForQuit"
    using reached_inv [OF assms(1,2)] ReadLine_frame [OF assms(4)] by (auto simp: session_inv_def)
  then obtain s2 where s2: "handleMail E srv cmd s1 = Inr s2" "after r = s2"
    using assms(3-6,8)
    by (auto simp: serve_step_def handlers_def go_nth_def go_bind_Inr_conv split: if_splits)
  have "session_inv srv s1"
    using reached_inv [OF assms(1,2)] assms(4) by (rule inv_ReadLine)
  then have "list_all (param_passes E) (tl (arguments cmd))"
    using s2(1) assms(7) unfolding s2(2) by (rule handleMail_accepted)
  moreover have "priority_ok (Priority (envelope (after r)))"
    using served_inv [OF assms(1-3)] by (simp add: session_inv_def)
  ultimately show ?thesis
    using assms(9) by (auto simp: list_all_iff param_passes_def priority_ok_def)
qed

theorem mail_parameters_bounded_witness:
  "\<exists>r. serve_step ex_env ex_srv (handleWelcome (ex_session [Chunk (''MAIL FROM:<a@b.c> size=1000 MT-PRIORITY=4'' @ CRLF)] [] sessionStateInit NewEnvelope False [])) = Inr r \<and>
     state (after r) = sessionStateGotMail \<and> Priority (envelope (after r)) \<le> 9 \<and>
     (\<exists>n. ParseInt ''1000'' = Some n \<and> n \<le> MsgSize (srv_Limits ex_srv))"
proof -
  let ?l = "''MAIL FROM:<a@b.c> size=1000 MT-PRIORITY=4''"
  let ?cmd = "\<lparr>commandCode = mailCmd, verb = ''MAIL'', cmd_data = ?l, arguments = [''FROM:<a@b.c>'', ''size=1000'', ''MT-PRIORITY=4'']\<rparr>"
  let ?s0 = "ex_session [Chunk (?l @ CRLF)] [] sessionStateInit NewEnvelope False []"
  have new: "newSession (Inr ''sid'') ex_srv (ex_conn\<lparr>conn_net := [Chunk (?l @ CRLF)]\<rparr>) = Inr ?s0"
    by (simp add: newSession_def ex_conn_def ex_session_def zero_Peer_def ex_peer_def NewReadWriter_def ex_srv_def NewServer_def)
  obtain out where w: "handleWelcome ?s0 = ex_session [Chunk (?l @ CRLF)] out sessionStateInit NewEnvelope False []"
    using ex_Out unfolding handleWelcome_def by blast
  have cmd: "parseCommand id (TrimRight ?l) = Inr ?cmd" by code_simp
  have p: "ParseInt ''1000'' = Some 1000" "ParseInt ''4'' = Some 4"
    by (simp_all add: ParseInt_def digit_val_def)
  have u: "ToUpper U ''size'' = ''SIZE''" for U by code_simp
  have "mail_exts ex_env [''size=1000'', ''MT-PRIORITY=4''] (ex_session [] out sessionStateInit (NewEnvelope\<lparr>MailFrom := Some ex_from, Priority := 0\<rparr>) False []) =
      Inr (ex_session [] out sessionStateInit (NewEnvelope\<lparr>MailFrom := Some ex_from, Priority := 4\<rparr>) False [])"
    by (simp add: mail_ext_def p u ToUpper_fixed DefaultLimits_def ex_session_def)
  from ex_mail_args [OF _ this, of ?cmd] obtain out' where
    h: "handleMail ex_env ex_srv ?cmd (ex_session [] out sessionStateInit NewEnvelope False []) =
      Inr (ex_session [] out' sessionStateGotMail (NewEnvelope\<lparr>MailFrom := Some ex_from, Priority := 4\<rparr>) False [CallDNS (Some ex_from) []])"
    by auto
  let ?r = "ex_session [] out' sessionStateGotMail (NewEnvelope\<lparr>MailFrom := Some ex_from, Priority := 4\<rparr>) False [CallDNS (Some ex_from) []]"
  have st: "state ?r = sessionStateGotMail" by (simp add: ex_session_def)
  have step: "serve_step ex_env ex_srv (handleWelcome ?s0) = Inr (Inr ?r)"
    unfolding w using ex_round [OF _ _ _ cmd, of sessionStateInit "[]" out NewEnvelope False "[]"] h st
    by (simp add: handlers_def)
  obtain s1 where rl: "ReadLine (handleWelcome ?s0) = Inr (Inr ?l, s1)"
    unfolding w using ex_ReadLine [of ?l "[]" out sessionStateInit NewEnvelope False "[]"] by simp
  moreover have "badCommandsCount (handleWelcome ?s0) < BadCmds (srv_Limits ex_srv)"
    unfolding w by (simp add: ex_session_def ex_limits)
  moreover have "MsgSize (srv_Limits ex_srv) = MsgSize DefaultLimits"
    by (simp add: ex_limits DefaultLimits_def)
  moreover have "parseCommand (unicode_ToUpper ex_env) (TrimRight ?l) = Inr ?cmd"
    using cmd by (simp add: ex_env_def)
  ultimately show ?thesis
    using mail_parameters_bounded [OF new reaches.start step rl, of ?cmd] step st u p by (simp add: ex_limits)
qed

text \<open>
  C5: The authenticator is called only with a peer that uses TLS and is not yet authenticated,
  and only if authentication is configured: no password is accepted in the clear.
\<close>

theorem credentials_only_over_tls:
  assumes "newSession i srv c = Inr s0" and "reaches E srv (handleWelcome s0) s" and "serve_step E srv s = Inr r"
    and "CallAuth p pw res \<in> set (calls (after r))"
  shows "TLS p \<noteq> None \<and> \<not> Authenticated p \<and> authMechanisms srv \<noteq> []"
proof -
  obtain cs cs' where "calls (after r) = cs @ CallAuth p pw res # cs'"
    using split_list [OF assms(4)] by blast
  from served_call_ok [OF assms(1-3) this] show ?thesis by simp
qed

theorem credentials_only_over_tls_witness:
  "\<exists>s0 r p. newSession (Inr ''sid'') ex_tls_srv ex_tls_conn = Inr s0 \<and>
     serve_step ex_env ex_tls_srv (handleWelcome s0) = Inr r \<and>
     CallAuth p ''pw'' (Inr True) \<in> set (calls (after r)) \<and> TLS p \<noteq> None \<and> Username p = ''me''"
proof -
  obtain s0 r p where s: "newSession (Inr ''sid'') ex_tls_srv ex_tls_conn = Inr s0"
    "serve_step ex_env ex_tls_srv (handleWelcome s0) = Inr r"
    "CallAuth p ''pw'' (Inr True) \<in> set (calls (after r))" "Username p = ''me''"
    using ex_login by blast
  with credentials_only_over_tls [OF s(1) reaches.start s(2,3)] show ?thesis by blast
qed

text \<open>
  C8: The invariant of the loop, in the terms of the session: the state waiting for QUIT never
  occurs; recipients are stored exactly in the states after RCPT (the state after BDAT LAST
  apart); at most 201 of them, each accepted by the checker, after a greeting, and then the
  sender is gone; a peer is authenticated only over TLS and after the authenticator accepted
  its user name.
\<close>

theorem session_phases:
  assumes "newSession i srv c = Inr s0" and "reaches E srv (handleWelcome s0) s"
  shows "state s \<noteq> sessionStateWaitingForQuit \<and>
    (state s \<in> {sessionStateInit, sessionStateGotMail} \<longrightarrow> MailTo (envelope s) = []) \<and>
    (state s \<in> {sessionStateGotRcpt, sessionStateReadyForData, sessionStateGettingData} \<longrightarrow> MailTo (envelope s) \<noteq> []) \<and>
    length (MailTo (envelope s)) \<le> 201 \<and>
    (MailTo (envelope s) \<noteq> [] \<longrightarrow> helloSeen s \<and> MailFrom (envelope s) = None \<and>
      (\<forall>a \<in> set (MailTo (envelope s)). \<exists>q. CallRcpt q a None \<in> set (calls s))) \<and>
    (tls s \<longleftrightarrow> TLS (peer s) \<noteq> None) \<and>
    (Authenticated (peer s) \<longrightarrow> tls s \<and> (\<exists>q pw. CallAuth q pw (Inr True) \<in> set (calls s) \<and> Username q = Username (peer s)))"
  using reached_inv [OF assms]
  by (cases "state s") (auto simp: session_inv_def rcpts_ok_def secure_ok_def list_all_iff accepted_iff)

theorem session_phases_witness:
  "\<exists>s. reaches ex_env ex_srv (handleWelcome (ex_session ex_net [] sessionStateInit NewEnvelope False [])) s \<and>
     state s = sessionStateReadyForData \<and> MailTo (envelope s) \<noteq> []"
proof -
  obtain s where s: "reaches ex_env ex_srv (handleWelcome (ex_session ex_net [] sessionStateInit NewEnvelope False [])) s"
    "state s = sessionStateReadyForData"
    using ex_delivers by blast
  with session_phases [OF ex_new s(1)] show ?thesis by auto
qed

text \<open>
  C30: The counter of bad commands of a session never wraps around and never passes the limit
  (or stays zero when the limit is not positive), as long as the limit is a 64-bit integer.
\<close>

theorem bad_commands_bounded:
  assumes "newSession i srv c = Inr s0" and "reaches E srv (handleWelcome s0) s"
    and "BadCmds (srv_Limits srv) \<le> max_int64"
  shows "0 \<le> badCommandsCount s \<and> badCommandsCount s \<le> max 0 (BadCmds (srv_Limits srv))"
  using reaches_count [OF assms(2) _ assms(3)] newSession_frame(1) [OF assms(1)]
  by (auto simp: handleWelcome_def)

theorem bad_commands_bounded_witness:
  "0 \<le> badCommandsCount (handleWelcome (ex_session ex_net [] sessionStateInit NewEnvelope False [])) \<and>
   badCommandsCount (handleWelcome (ex_session ex_net [] sessionStateInit NewEnvelope False [])) \<le> 5"
  using bad_commands_bounded [OF ex_new reaches.start] by (simp add: ex_limits max_int64_def)

section \<open>The listener\<close>

text \<open>
  C14: STARTTLS is never carried out behind \<open>ListenAndServe\<close>: when the TLS listener accepts
  only TLS connections and the plain one only plain connections, every session uses TLS
  exactly when the server has a TLS configuration, from its start to its end, and no handshake
  is ever started by a command.
\<close>

theorem starttls_never_behind_ListenAndServe:
  assumes "\<forall>l. listenTLS (srv_Addr srv) = Inr l \<longrightarrow> (\<forall>k. Accepted k \<in> set l \<longrightarrow> tls_Conn k \<noteq> None)"
    and "\<forall>l. listen (srv_Addr srv) = Inr l \<longrightarrow> (\<forall>k. Accepted k \<in> set l \<longrightarrow> tls_Conn k = None)"
    and "ListenAndServe listenTLS listen ids srv = Inr (ss, err)" and "s0 \<in> set ss"
    and "reaches E srv (handleWelcome s0) s" and "serve_step E srv s = Inr r"
  shows "tls (after r) = TLSConfig srv \<and> \<not> list_ex is_handshake (calls (after r))"
proof -
  obtain i k where n: "newSession i srv k = Inr s0" and t: "(tls_Conn k \<noteq> None) = TLSConfig srv"
    using started_by_ListenAndServe [OF assms(3,4)] assms(1,2) by metis
  have "evolves (handleWelcome s0) (after r)"
    using reaches_evolves [OF assms(5)] serve_step_evolves [OF assms(6)] by (rule evolves_trans)
  moreover have "tls (handleWelcome s0) = TLSConfig srv" "calls (handleWelcome s0) = []"
    using newSession_frame(2,3) [OF n] t by (simp_all add: handleWelcome_def)
  moreover have "\<not> TLSConfig srv \<Longrightarrow> CallHandshake ok \<notin> set (calls (after r))" for ok
    using served_call_ok [OF n assms(5,6)] by (metis call_ok.simps(5) split_list)
  ultimately show ?thesis
    by (cases "TLSConfig srv") (auto simp: evolves_def list_ex_iff filter_empty_conv elim!: is_handshake.elims(2))
qed

theorem starttls_never_behind_ListenAndServe_witness:
  "\<exists>ss s r. ListenAndServe (\<lambda>a. Inr []) (\<lambda>a. Inr [Accepted ex_conn]) (\<lambda>n. Inr ''sid'') ex_srv = Inr (ss, None) \<and>
     reaches ex_env ex_srv (handleWelcome (hd ss)) s \<and> serve_step ex_env ex_srv s = Inr r \<and>
     \<not> tls (after r) \<and> calls (after r) \<noteq> []"
proof -
  let ?s0 = "ex_session ex_net [] sessionStateInit NewEnvelope False []"
  have ss: "ListenAndServe (\<lambda>a. Inr []) (\<lambda>a. Inr [Accepted ex_conn]) (\<lambda>n. Inr ''sid'') ex_srv = Inr ([?s0], None)"
    by (simp add: ListenAndServe_def ex_new) (simp add: ex_srv_def NewServer_def)
  obtain s r where r: "reaches ex_env ex_srv (handleWelcome ?s0) s" "serve_step ex_env ex_srv s = Inr (Inr r)" "calls r \<noteq> []"
    using ex_delivers by auto
  moreover have "\<not> TLSConfig ex_srv" "tls_Conn ex_conn = None"
    by (simp_all add: ex_srv_def NewServer_def ex_conn_def)
  ultimately have "\<not> tls (after (Inr r))"
    using starttls_never_behind_ListenAndServe [OF _ _ ss, of ?s0 ex_env s "Inr r"] by auto
  with r ss show ?thesis by (intro exI [of _ "[?s0]"] exI [of _ s] exI [of _ "Inr r"]) simp
qed

end
